theory Spec2Isabelle
  imports Complex_Main "HOL-Library.AList" "HOL-Library.Multiset"
begin

chapter \<open>The embedding\<close>

section \<open>Conventions\<close>

text \<open>
  The development embeds the wallet and ledger layer of the work-hub application: the
  read cache (class \<open>DataCache\<close>), the authorization check, the wallet validator and
  the ledger operations of \<^verbatim>\<open>src/lib/data-cache.ts\<close>, together with the second copy of
  the same module that the repository carries (\<^verbatim>\<open>unnamed/part_001\<close>, lines 1-1384; the
  rest of that file is a third copy of the cache class, with the \<open>set\<close> of the second).
  Where the two copies differ, the definition taken from \<^verbatim>\<open>unnamed/part_001\<close> has the
  suffix \<open>_p1\<close>; a definition without suffix follows \<^verbatim>\<open>src/lib/data-cache.ts\<close>.

  \<^item> A JavaScript number that holds an amount of money is a \<open>real\<close>. JavaScript adds
    and subtracts in IEEE doubles: the sums and differences of amounts are \<open>js_add\<close>
    and \<open>js_sub\<close> (section \<open>JavaScript numbers\<close>), which round the exact result to the
    nearest double. The counter \<open>completedWorkers\<close> of a campaign counts applications;
    \<open>applyToCampaign\<close> adds 1 to it with the exact \<open>+\<close>, which is the sum in
    doubles on the whole numbers below \<open>2 ^ 53\<close>. Clock readings (\<open>Date.now()\<close>,
    milliseconds) are \<open>int\<close>.
  \<^item> An identifier other than the empty string is a key of the store: it has none of
    the characters \<open>/ . # $ [ ]\<close>, with which a path would name another node or be
    refused by the client library.
  \<^item> A JavaScript \<open>Map\<close> is an association list in insertion order:
    \<open>Map.set\<close> is \<open>AList.update\<close> (an existing key keeps its place, a new key goes
    to the end), \<open>Map.delete\<close> is \<open>AList.delete\<close>, \<open>Map.get\<close> is \<open>map_of\<close>.
  \<^item> A thrown \<open>Error\<close> is a value \<open>Inl e\<close> of a sum type; a returned value is
    \<open>Inr v\<close>. Every operation returns its result together with the new state.
  \<^item> The document store is used by one client at a time: \<open>runTransaction\<close> applies
    its update function once to the current value of the path, and the calls of the
    store do not fail.
  \<^item> After a successful commit the ledger operations clear entries of the read cache.
    The cache is a separate object of the client; the state of a ledger operation is
    the document store alone.
\<close>

section \<open>JavaScript numbers\<close>

text \<open>
  The numbers of JavaScript are the IEEE 754 doubles, and \<open>a + b\<close> and \<open>a - b\<close> are
  the exact sum and difference rounded to the nearest double, a tie going to the double
  whose significand is even. A positive double is \<open>m * 2 ^ e\<close> with a whole number
  \<open>m\<close> below \<open>2 ^ 53\<close> = 9007199254740992 and an exponent \<open>e\<close> from -1074 on, where
  \<open>m\<close> is at least \<open>2 ^ 52\<close> = 4503599627370496 unless \<open>e\<close> is -1074.

  \<open>roundTiesToEven\<close> rounds a real to a whole number. \<open>normalise\<close> brings a positive
  real into the form \<open>m * 2 ^ e\<close> with \<open>m\<close> between \<open>2 ^ 52\<close> and \<open>2 ^ 53\<close>, or
  below with \<open>e\<close> = -1074, by halving or doubling; its first argument bounds the number
  of steps, and 2200 steps are enough for every real within the range of the doubles.
  \<open>to_double\<close> is the double nearest to a real. A result beyond the largest double,
  which JavaScript gives as \<open>Infinity\<close>, is outside the model: amounts of money are far
  below.
\<close>

definition roundTiesToEven :: "real \<Rightarrow> int" where
  "roundTiesToEven x =
     (let f = \<lfloor>x\<rfloor>; d = x - of_int f
      in if d < 1 / 2 then f else if 1 / 2 < d then f + 1 else if even f then f else f + 1)"

fun normalise :: "nat \<Rightarrow> real \<Rightarrow> int \<Rightarrow> real \<times> int" where
  "normalise 0 m e = (m, e)"
| "normalise (Suc n) m e =
     (if 9007199254740992 \<le> m then normalise n (m / 2) (e + 1)
      else if m < 4503599627370496 \<and> - 1074 < e then normalise n (m * 2) (e - 1)
      else (m, e))"

definition to_double :: "real \<Rightarrow> real" where
  "to_double x =
     (if x = 0 then 0
      else (case normalise 2200 \<bar>x\<bar> 0 of
              (m, e) \<Rightarrow> sgn x * of_int (roundTiesToEven m) * 2 powi e))"

text \<open>\<open>a + b\<close> and \<open>a - b\<close> on numbers.\<close>

definition js_add :: "real \<Rightarrow> real \<Rightarrow> real" where
  "js_add a b = to_double (a + b)"

definition js_sub :: "real \<Rightarrow> real \<Rightarrow> real" where
  "js_sub a b = to_double (a - b)"

section \<open>The read cache\<close>

definition CACHE_DURATION :: int where
  "CACHE_DURATION = 5 * 60 * 1000"

definition MAX_CACHE_SIZE :: nat where
  "MAX_CACHE_SIZE = 100"

definition MAX_SAFE_INTEGER :: int where
  "MAX_SAFE_INTEGER = 9007199254740991"

record 'a CacheEntry =
  data :: 'a
  timestamp :: int
  expiry :: int

text \<open>
  The two private maps of the class. \<open>'a\<close> is the type of cached values, \<open>'p\<close> the
  type of promises.
\<close>

record ('a, 'p) DataCache =
  cache :: "(string \<times> 'a CacheEntry) list"
  pendingRequests :: "(string \<times> 'p) list"

definition newDataCache :: "('a, 'p) DataCache" where
  "newDataCache = \<lparr>cache = [], pendingRequests = []\<rparr>"

text \<open>
  \<open>get(key)\<close>, with the clock reading \<open>now\<close> of its \<open>Date.now()\<close>. The result
  \<open>None\<close> is JavaScript's \<open>null\<close>. The method is the same in both copies.
\<close>

definition get :: "('a, 'p) DataCache \<Rightarrow> string \<Rightarrow> int \<Rightarrow> 'a option \<times> ('a, 'p) DataCache" where
  "get c key now =
     (case map_of (cache c) key of
        None \<Rightarrow> (None, c)
      | Some entry \<Rightarrow>
          if now > expiry entry
          then (None, c\<lparr>cache := AList.delete key (cache c)\<rparr>)
          else (Some (data entry), c))"

text \<open>
  The scan of \<open>set\<close> in \<^verbatim>\<open>data-cache.ts\<close>: it walks the entries in insertion order
  and keeps the first key whose timestamp is strictly below everything seen before.
\<close>

fun oldest_scan :: "(string \<times> 'a CacheEntry) list \<Rightarrow> string option \<Rightarrow> int \<Rightarrow> string option" where
  "oldest_scan [] oldestKey oldestTime = oldestKey"
| "oldest_scan ((cacheKey, cacheEntry) # rest) oldestKey oldestTime =
     (if timestamp cacheEntry < oldestTime
      then oldest_scan rest (Some cacheKey) (timestamp cacheEntry)
      else oldest_scan rest oldestKey oldestTime)"

text \<open>
  \<open>set(key, data)\<close> of \<^verbatim>\<open>data-cache.ts\<close>. It reads the clock twice: \<open>now1\<close> for the
  timestamp, \<open>now2\<close> for the expiry. The test \<open>if (oldestKey)\<close> is JavaScript
  truthiness: it fails for \<open>undefined\<close> and for the empty string.
\<close>

definition set_cache ::
  "('a, 'p) DataCache \<Rightarrow> string \<Rightarrow> 'a \<Rightarrow> int \<Rightarrow> int \<Rightarrow> ('a, 'p) DataCache" where
  "set_cache c key d now1 now2 =
     (let c1 =
        (if length (cache c) \<ge> MAX_CACHE_SIZE
         then (case oldest_scan (cache c) None MAX_SAFE_INTEGER of
                 None \<Rightarrow> c
               | Some oldestKey \<Rightarrow>
                   if oldestKey \<noteq> [] then c\<lparr>cache := AList.delete oldestKey (cache c)\<rparr> else c)
         else c)
      in c1\<lparr>cache := AList.update key
                \<lparr>data = d, timestamp = now1, expiry = now2 + CACHE_DURATION\<rparr> (cache c1)\<rparr>)"

text \<open>
  \<open>set(key, data)\<close> of \<^verbatim>\<open>unnamed/part_001\<close>: the key to evict is
  \<open>this.cache.keys().next().value\<close>, the first key in insertion order.
\<close>

definition set_cache_p1 ::
  "('a, 'p) DataCache \<Rightarrow> string \<Rightarrow> 'a \<Rightarrow> int \<Rightarrow> int \<Rightarrow> ('a, 'p) DataCache" where
  "set_cache_p1 c key d now1 now2 =
     (let c1 =
        (if length (cache c) \<ge> MAX_CACHE_SIZE
         then (case cache c of
                 [] \<Rightarrow> c
               | (oldestKey, _) # _ \<Rightarrow>
                   if oldestKey \<noteq> [] then c\<lparr>cache := AList.delete oldestKey (cache c)\<rparr> else c)
         else c)
      in c1\<lparr>cache := AList.update key
                \<lparr>data = d, timestamp = now1, expiry = now2 + CACHE_DURATION\<rparr> (cache c1)\<rparr>)"

definition clear :: "('a, 'p) DataCache \<Rightarrow> string \<Rightarrow> ('a, 'p) DataCache" where
  "clear c key = c\<lparr>cache := AList.delete key (cache c)\<rparr>"

definition clearAll :: "('a, 'p) DataCache \<Rightarrow> ('a, 'p) DataCache" where
  "clearAll c = c\<lparr>cache := [], pendingRequests := []\<rparr>"

definition isFetching :: "('a, 'p) DataCache \<Rightarrow> string \<Rightarrow> bool" where
  "isFetching c key = (map_of (pendingRequests c) key \<noteq> None)"

definition getPending :: "('a, 'p) DataCache \<Rightarrow> string \<Rightarrow> 'p option" where
  "getPending c key = map_of (pendingRequests c) key"

definition setPending :: "('a, 'p) DataCache \<Rightarrow> string \<Rightarrow> 'p \<Rightarrow> ('a, 'p) DataCache" where
  "setPending c key promise = c\<lparr>pendingRequests := AList.update key promise (pendingRequests c)\<rparr>"

definition clearPending :: "('a, 'p) DataCache \<Rightarrow> string \<Rightarrow> ('a, 'p) DataCache" where
  "clearPending c key = c\<lparr>pendingRequests := AList.delete key (pendingRequests c)\<rparr>"

definition isExpired :: "('a, 'p) DataCache \<Rightarrow> string \<Rightarrow> int \<Rightarrow> bool" where
  "isExpired c key now =
     (case map_of (cache c) key of None \<Rightarrow> True | Some entry \<Rightarrow> now > expiry entry)"

definition getCacheKeys :: "('a, 'p) DataCache \<Rightarrow> string list" where
  "getCacheKeys c = map fst (cache c)"

section \<open>Coalescing of requests\<close>

text \<open>
  \<open>getOrCreatePendingRequest(key, createPromise)\<close> of \<^verbatim>\<open>data-cache.ts\<close> (lines
  167-192) works on promises, which the embedding represents by what the method
  observes of them. A promise is a number, its identity. A call of \<open>createPromise()\<close>
  is recorded in \<open>factoryCalls\<close> with the key it was made for; it either returns a
  new promise, numbered \<open>nextPromise\<close>, or throws. On a promise that is returned,
  \<open>newPromise.finally(() => this.clearPending(key))\<close> is recorded in \<open>finallyHooks\<close>;
  the callback runs when the promise settles, whether it fulfils or rejects. When the
  factory throws, the \<open>catch\<close> block returns \<open>Promise.reject(error)\<close>, a new promise
  that is rejected from the start, and the registry is left as it is.
\<close>

datatype outcome = Returns | Throws

record 'a Runtime =
  dataCache :: "('a, nat) DataCache"
  nextPromise :: nat
  factoryCalls :: "string list"
  finallyHooks :: "(nat \<times> string) list"
  settled :: "nat list"

definition newRuntime :: "'a Runtime" where
  "newRuntime =
     \<lparr>dataCache = newDataCache, nextPromise = 0, factoryCalls = [], finallyHooks = [],
      settled = []\<rparr>"

definition getOrCreatePendingRequest ::
  "'a Runtime \<Rightarrow> string \<Rightarrow> outcome \<Rightarrow> nat \<times> 'a Runtime" where
  "getOrCreatePendingRequest rt key createPromise =
     (case map_of (pendingRequests (dataCache rt)) key of
        Some existingPromise \<Rightarrow> (existingPromise, rt)
      | None \<Rightarrow>
          (case createPromise of
             Returns \<Rightarrow>
               (let newPromise = nextPromise rt
                in (newPromise,
                    rt\<lparr>dataCache := setPending (dataCache rt) key newPromise,
                       nextPromise := Suc newPromise,
                       factoryCalls := factoryCalls rt @ [key],
                       finallyHooks := finallyHooks rt @ [(newPromise, key)]\<rparr>))
           | Throws \<Rightarrow>
               (let rejected = nextPromise rt
                in (rejected,
                    rt\<lparr>nextPromise := Suc rejected,
                       factoryCalls := factoryCalls rt @ [key],
                       settled := rejected # settled rt\<rparr>))))"

text \<open>
  The promise \<open>p\<close> settles: its \<open>finally\<close> callback, if it has one, clears the pending
  request of its key. A promise settles once, and only a promise that has been created
  can settle.
\<close>

definition settle :: "'a Runtime \<Rightarrow> nat \<Rightarrow> 'a Runtime" where
  "settle rt p =
     (if p \<in> set (settled rt) \<or> nextPromise rt \<le> p then rt
      else (case map_of (finallyHooks rt) p of
              None \<Rightarrow> rt\<lparr>settled := p # settled rt\<rparr>
            | Some key \<Rightarrow>
                rt\<lparr>dataCache := clearPending (dataCache rt) key, settled := p # settled rt\<rparr>))"

text \<open>
  A run of the event loop, as far as the registry of pending requests is concerned:
  calls of \<open>getOrCreatePendingRequest\<close>, settlements of promises, and calls of the
  three other public methods of the class that write the registry, in any order:
  \<open>clearAll()\<close>, which \<open>forceLogout\<close> of \<^verbatim>\<open>src/contexts/AuthContext.tsx\<close> calls,
  \<open>clearPending(key)\<close> and \<open>setPending(key, promise)\<close>. The promise handed to
  \<open>setPending\<close> is made by the caller: it gets the next number, and
  \<open>getOrCreatePendingRequest\<close> has attached no callback to it.
\<close>

datatype event =
  Call string outcome | Settle nat | ClearAll | ClearPending string | SetPending string

fun step :: "'a Runtime \<Rightarrow> event \<Rightarrow> 'a Runtime" where
  "step rt (Call key createPromise) = snd (getOrCreatePendingRequest rt key createPromise)"
| "step rt (Settle p) = settle rt p"
| "step rt ClearAll = rt\<lparr>dataCache := clearAll (dataCache rt)\<rparr>"
| "step rt (ClearPending key) = rt\<lparr>dataCache := clearPending (dataCache rt) key\<rparr>"
| "step rt (SetPending key) =
     rt\<lparr>dataCache := setPending (dataCache rt) key (nextPromise rt),
        nextPromise := Suc (nextPromise rt)\<rparr>"

text \<open>The events of a run that leaves the registry to \<open>getOrCreatePendingRequest\<close>.\<close>

fun callOrSettle :: "event \<Rightarrow> bool" where
  "callOrSettle (Call key createPromise) = True"
| "callOrSettle (Settle p) = True"
| "callOrSettle ClearAll = False"
| "callOrSettle (ClearPending key) = False"
| "callOrSettle (SetPending key) = False"

fun run :: "'a Runtime \<Rightarrow> event list \<Rightarrow> 'a Runtime" where
  "run rt [] = rt"
| "run rt (e # es) = run (step rt e) es"

text \<open>The fetches for \<open>key\<close> that are under way: the promises created for it and not yet settled.\<close>

definition outstanding :: "'a Runtime \<Rightarrow> string \<Rightarrow> nat list" where
  "outstanding rt key =
     filter (\<lambda>p. p \<notin> set (settled rt)) (map fst (filter (\<lambda>h. snd h = key) (finallyHooks rt)))"

text \<open>
  What every run maintains: a promise has at most one \<open>finally\<close> callback, and
  promises are numbered below \<open>nextPromise\<close>.
\<close>

definition numbering_inv :: "'a Runtime \<Rightarrow> bool" where
  "numbering_inv rt \<longleftrightarrow>
     distinct (map fst (finallyHooks rt)) \<and>
     (\<forall>p \<in> fst ` set (finallyHooks rt). p < nextPromise rt) \<and>
     (\<forall>p \<in> set (settled rt). p < nextPromise rt)"

text \<open>
  What a run of calls and settlements maintains in addition: the pending request
  registered for a key is exactly the unsettled promise created for that key.
\<close>

definition coalescing_inv :: "'a Runtime \<Rightarrow> bool" where
  "coalescing_inv rt \<longleftrightarrow>
     distinct (map fst (finallyHooks rt)) \<and>
     (\<forall>p \<in> fst ` set (finallyHooks rt). p < nextPromise rt) \<and>
     (\<forall>p \<in> set (settled rt). p < nextPromise rt) \<and>
     (\<forall>key p. map_of (pendingRequests (dataCache rt)) key = Some p \<longrightarrow>
        (p, key) \<in> set (finallyHooks rt) \<and> p \<notin> set (settled rt)) \<and>
     (\<forall>p key. (p, key) \<in> set (finallyHooks rt) \<and> p \<notin> set (settled rt) \<longrightarrow>
        map_of (pendingRequests (dataCache rt)) key = Some p)"

section \<open>Documents of the store\<close>

text \<open>
  The documents are typed as the TypeScript interfaces and the code's own field
  accesses type them; strings are ASCII, so \<open>length\<close> is JavaScript's \<open>.length\<close>.
  A field that the code reads defensively (\<open>typeof x === 'number' ? x : 0\<close>,
  \<open>x || 0\<close>) is an \<open>option\<close>: \<open>None\<close> is a missing field.
\<close>

record WalletBalance =
  earnedBalance :: real
  addedBalance :: real
  pendingAddMoney :: real
  totalWithdrawn :: real

text \<open>
  The wallet validator is called on values that come back from the store untyped
  (\<open>result.snapshot.val()\<close>), so its argument is an untyped object: each field is
  missing (\<open>undefined\<close>), \<open>NaN\<close>, or a number.
\<close>

datatype jsnum = JUndefined | JNaN | JNum real

record raw_wallet =
  raw_earnedBalance :: jsnum
  raw_addedBalance :: jsnum
  raw_pendingAddMoney :: jsnum
  raw_totalWithdrawn :: jsnum

definition raw_of :: "WalletBalance \<Rightarrow> raw_wallet" where
  "raw_of w =
     \<lparr>raw_earnedBalance = JNum (earnedBalance w), raw_addedBalance = JNum (addedBalance w),
      raw_pendingAddMoney = JNum (pendingAddMoney w), raw_totalWithdrawn = JNum (totalWithdrawn w)\<rparr>"

text \<open>
  JavaScript's \<open>x < c\<close> and \<open>x > c\<close> against a number \<open>c\<close>: the left operand is
  converted to a number, \<open>undefined\<close> converts to \<open>NaN\<close>, and every comparison with
  \<open>NaN\<close> is false.
\<close>

fun js_lt :: "jsnum \<Rightarrow> real \<Rightarrow> bool" where
  "js_lt (JNum x) c = (x < c)"
| "js_lt JUndefined c = False"
| "js_lt JNaN c = False"

fun js_gt :: "jsnum \<Rightarrow> real \<Rightarrow> bool" where
  "js_gt (JNum x) c = (x > c)"
| "js_gt JUndefined c = False"
| "js_gt JNaN c = False"

record Campaign =
  title :: string
  description :: string
  creatorId :: string
  totalWorkers :: real
  rewardPerWorker :: real
  totalBudget :: real
  remainingBudget :: real
  createdAt :: int
  completedWorkers :: real
  campaign_status :: string

record Work =
  work_id :: string
  work_userId :: string
  work_userName :: string
  work_campaignId :: string
  proofUrl :: string
  work_status :: string
  submittedAt :: int
  reward :: real

record MoneyRequest =
  request_userId :: string
  request_type :: string
  request_amount :: real
  request_status :: string

record UserProfile =
  role :: string
  isBlocked :: bool
  fullName :: "string option"
  name :: "string option"
  profileImage :: "string option"
  avatar :: "string option"
  earnedMoney :: "real option"
  approvedWorks :: "real option"
  user_totalWithdrawn :: "real option"

text \<open>
  The paths of the store that the ledger touches: \<open>users/{uid}\<close>, \<open>wallets/{uid}\<close>,
  \<open>campaigns/{id}\<close>, \<open>works/{uid}/{id}\<close>, \<open>adminRequests/addMoney/{id}\<close> and
  \<open>adminRequests/withdrawals/{id}\<close>.
\<close>

record Store =
  users :: "string \<rightharpoonup> UserProfile"
  wallets :: "string \<rightharpoonup> WalletBalance"
  campaigns :: "string \<rightharpoonup> Campaign"
  works :: "string \<times> string \<rightharpoonup> Work"
  addMoneyRequests :: "string \<rightharpoonup> MoneyRequest"
  withdrawalRequests :: "string \<rightharpoonup> MoneyRequest"

datatype error = Error string

text \<open>
  \<open>runTransaction(ref, update)\<close>: \<open>update\<close> sees the current value (\<open>None\<close> for
  \<open>null\<close>); returning \<open>undefined\<close> (\<open>None\<close>) aborts, any other value is committed
  and is the snapshot of the result. The caller of the model writes a committed value
  to the path.
\<close>

datatype 'a TransactionResult = NotCommitted | Committed 'a

definition runTransaction :: "('a option \<Rightarrow> 'a option) \<Rightarrow> 'a option \<Rightarrow> 'a TransactionResult" where
  "runTransaction update currentData =
     (case update currentData of None \<Rightarrow> NotCommitted | Some v \<Rightarrow> Committed v)"

section \<open>Validators\<close>

text \<open>\<open>validateWalletData\<close> of \<^verbatim>\<open>unnamed/part_001\<close> (lines 142-162).\<close>

definition validateWalletData_p1 :: "raw_wallet option \<Rightarrow> bool" where
  "validateWalletData_p1 walletData =
     (case walletData of
        None \<Rightarrow> False
      | Some w \<Rightarrow>
          if js_lt (raw_earnedBalance w) 0 \<or> js_lt (raw_addedBalance w) 0 \<or>
             js_lt (raw_pendingAddMoney w) 0 \<or> js_lt (raw_totalWithdrawn w) 0
          then False
          else if js_gt (raw_earnedBalance w) 10000000 \<or> js_gt (raw_addedBalance w) 10000000 \<or>
                  js_gt (raw_pendingAddMoney w) 10000000 \<or> js_gt (raw_totalWithdrawn w) 10000000
          then False
          else True)"

text \<open>
  \<open>validateCampaignData\<close> of \<^verbatim>\<open>unnamed/part_001\<close> (lines 196-231) on a typed
  campaign: the tests \<open>=== undefined\<close> and \<open>typeof\<close> are decided by the types, and
  \<open>!campaignData.title\<close> is the test for the empty string.
\<close>

definition validateCampaignData_p1 :: "Campaign \<Rightarrow> bool" where
  "validateCampaignData_p1 campaignData =
     (if title campaignData = [] \<or> description campaignData = [] \<or> creatorId campaignData = []
      then False
      else if length (title campaignData) < 1 \<or> length (title campaignData) > 100 \<or>
              length (description campaignData) < 1 \<or> length (description campaignData) > 1000
      then False
      else if totalWorkers campaignData \<le> 0 \<or> totalWorkers campaignData > 10000 \<or>
              rewardPerWorker campaignData < 0.5 \<or> rewardPerWorker campaignData > 10000 \<or>
              totalBudget campaignData < 0 \<or> remainingBudget campaignData < 0
      then False
      else if remainingBudget campaignData > totalBudget campaignData
      then False
      else True)"

text \<open>
  \<^verbatim>\<open>src/lib/data-cache.ts\<close> imports its validators from \<^verbatim>\<open>./validation\<close>, a module that
  is not among the sources. They are parameters of the model: a record of the four
  functions the ledger operations call.
\<close>

record validation =
  validateWalletData :: "raw_wallet option \<Rightarrow> bool"
  validateCampaignData :: "Campaign \<Rightarrow> bool"
  validateWorkData :: "Work \<Rightarrow> bool"
  validateUserAuthorization :: "string \<Rightarrow> string \<Rightarrow> string option \<Rightarrow> bool"

section \<open>Authorization\<close>

text \<open>
  \<open>verifyUserAuthorization(currentUserId, targetUserId, requiredRole?)\<close>. The result
  is paired with the list of paths the call has read from the store.
\<close>

definition adminCheck :: "Store \<Rightarrow> string \<Rightarrow> bool \<times> string list" where
  "adminCheck s currentUserId =
     (case users s currentUserId of
        Some userData \<Rightarrow> (role userData = ''admin'' \<and> \<not> isBlocked userData, [''users/'' @ currentUserId])
      | None \<Rightarrow> (False, [''users/'' @ currentUserId]))"

definition verifyUserAuthorization ::
  "validation \<Rightarrow> Store \<Rightarrow> string \<Rightarrow> string \<Rightarrow> string option \<Rightarrow> bool \<times> string list" where
  "verifyUserAuthorization V s currentUserId targetUserId requiredRole =
     (if \<not> validateUserAuthorization V currentUserId targetUserId requiredRole then (False, [])
      else if requiredRole = Some ''admin'' then adminCheck s currentUserId
      else if currentUserId = targetUserId then (True, [])
      else adminCheck s currentUserId)"

definition verifyUserAuthorization_p1 ::
  "Store \<Rightarrow> string \<Rightarrow> string \<Rightarrow> string option \<Rightarrow> bool \<times> string list" where
  "verifyUserAuthorization_p1 s currentUserId targetUserId requiredRole =
     (if currentUserId = [] \<or> targetUserId = [] then (False, [])
      else if requiredRole = Some ''admin'' then adminCheck s currentUserId
      else if currentUserId = targetUserId then (True, [])
      else adminCheck s currentUserId)"

text \<open>
  The guard \<open>currentUserId && !(await verifyUserAuthorization(...))\<close> of the ledger
  operations: an absent or empty acting identity skips the check.
\<close>

definition denied :: "validation \<Rightarrow> Store \<Rightarrow> string option \<Rightarrow> string \<Rightarrow> string option \<Rightarrow> bool" where
  "denied V s currentUserId targetUserId requiredRole =
     (case currentUserId of
        None \<Rightarrow> False
      | Some cu \<Rightarrow> cu \<noteq> [] \<and> \<not> fst (verifyUserAuthorization V s cu targetUserId requiredRole))"

definition denied_p1 :: "Store \<Rightarrow> string option \<Rightarrow> string \<Rightarrow> string option \<Rightarrow> bool" where
  "denied_p1 s currentUserId targetUserId requiredRole =
     (case currentUserId of
        None \<Rightarrow> False
      | Some cu \<Rightarrow> cu \<noteq> [] \<and> \<not> fst (verifyUserAuthorization_p1 s cu targetUserId requiredRole))"

text \<open>
  The \<open>catch\<close> block of every ledger operation of \<^verbatim>\<open>data-cache.ts\<close>: an error thrown
  inside \<open>try\<close> is logged and replaced. The errors of the model are \<open>Error\<close> objects
  without a \<open>code\<close>, so the replacement is the generic message of the operation.
\<close>

definition rethrow :: "string \<Rightarrow> (error + 'a) \<times> Store \<Rightarrow> (error + 'a) \<times> Store" where
  "rethrow msg r = (case r of (Inl e, s) \<Rightarrow> (Inl (Error msg), s) | (Inr v, s) \<Rightarrow> (Inr v, s))"

section \<open>Ledger operations\<close>

text \<open>
  \<open>update(ref, fields)\<close> merges the fields into the document at the path. Every call
  in the ledger follows a read that found the document, so the model merges into the
  stored document and does nothing on an empty path.
\<close>

definition update_campaign :: "Store \<Rightarrow> string \<Rightarrow> (Campaign \<Rightarrow> Campaign) \<Rightarrow> Store" where
  "update_campaign s campaignId f =
     s\<lparr>campaigns := (campaigns s)(campaignId := map_option f (campaigns s campaignId))\<rparr>"

definition update_work :: "Store \<Rightarrow> string \<times> string \<Rightarrow> (Work \<Rightarrow> Work) \<Rightarrow> Store" where
  "update_work s path f = s\<lparr>works := (works s)(path := map_option f (works s path))\<rparr>"

definition update_user :: "Store \<Rightarrow> string \<Rightarrow> (UserProfile \<Rightarrow> UserProfile) \<Rightarrow> Store" where
  "update_user s uid f = s\<lparr>users := (users s)(uid := map_option f (users s uid))\<rparr>"

text \<open>
  The requests live under \<open>adminRequests/addMoney\<close> or \<open>adminRequests/withdrawals\<close>:
  \<open>type === 'add_money' ? 'adminRequests/addMoney' : 'adminRequests/withdrawals'\<close>.
\<close>

definition requestAt :: "Store \<Rightarrow> string \<Rightarrow> string \<Rightarrow> MoneyRequest option" where
  "requestAt s type requestId =
     (if type = ''add_money'' then addMoneyRequests s requestId else withdrawalRequests s requestId)"

definition update_request :: "Store \<Rightarrow> string \<Rightarrow> string \<Rightarrow> (MoneyRequest \<Rightarrow> MoneyRequest) \<Rightarrow> Store" where
  "update_request s type requestId f =
     (if type = ''add_money''
      then s\<lparr>addMoneyRequests :=
               (addMoneyRequests s)(requestId := map_option f (addMoneyRequests s requestId))\<rparr>
      else s\<lparr>withdrawalRequests :=
               (withdrawalRequests s)(requestId := map_option f (withdrawalRequests s requestId))\<rparr>)"

definition defaultBalance :: WalletBalance where
  "defaultBalance = \<lparr>earnedBalance = 0, addedBalance = 0, pendingAddMoney = 0, totalWithdrawn = 0\<rparr>"

definition orDefault :: "WalletBalance option \<Rightarrow> WalletBalance" where
  "orDefault currentData = (case currentData of None \<Rightarrow> defaultBalance | Some w \<Rightarrow> w)"

subsection \<open>The update functions handed to \<open>runTransaction\<close>\<close>

text \<open>
  The closures have the same text in both copies of the module; they differ in the
  validator they call (imported in \<^verbatim>\<open>data-cache.ts\<close>, local in \<^verbatim>\<open>unnamed/part_001\<close>),
  which is the first argument here.
\<close>

definition campaignDeductUpdate :: "(Campaign \<Rightarrow> bool) \<Rightarrow> real \<Rightarrow> Campaign option \<Rightarrow> Campaign option" where
  "campaignDeductUpdate vc amount currentData =
     (case currentData of
        None \<Rightarrow> None
      | Some cur \<Rightarrow>
          if \<not> vc cur then None
          else if remainingBudget cur < amount then None
          else (let updatedCampaign = cur\<lparr>remainingBudget := js_sub (remainingBudget cur) amount\<rparr>
                in if \<not> vc updatedCampaign then None else Some updatedCampaign))"

definition walletDeductUpdate ::
  "(raw_wallet option \<Rightarrow> bool) \<Rightarrow> real \<Rightarrow> WalletBalance option \<Rightarrow> WalletBalance option" where
  "walletDeductUpdate vw amount currentData =
     (let currentBalance = orDefault currentData
      in if addedBalance currentBalance < amount then None
         else (let updatedBalance =
                     currentBalance\<lparr>addedBalance := js_sub (addedBalance currentBalance) amount\<rparr>
               in if \<not> vw (Some (raw_of updatedBalance)) then None else Some updatedBalance))"

definition walletCreditUpdate ::
  "(raw_wallet option \<Rightarrow> bool) \<Rightarrow> real \<Rightarrow> WalletBalance option \<Rightarrow> WalletBalance option" where
  "walletCreditUpdate vw rew currentData =
     (let currentBalance = orDefault currentData;
          updatedBalance =
            currentBalance\<lparr>earnedBalance := js_add (earnedBalance currentBalance) rew\<rparr>
      in if \<not> vw (Some (raw_of updatedBalance)) then None else Some updatedBalance)"

definition addMoneyUpdate ::
  "(raw_wallet option \<Rightarrow> bool) \<Rightarrow> real \<Rightarrow> WalletBalance option \<Rightarrow> WalletBalance option" where
  "addMoneyUpdate vw amount currentData =
     (let currentBalance = orDefault currentData
      in if \<not> vw (Some (raw_of currentBalance)) then None
         else (let updatedBalance = currentBalance
                     \<lparr>addedBalance := js_add (addedBalance currentBalance) amount,
                      pendingAddMoney := max 0 (js_sub (pendingAddMoney currentBalance) amount)\<rparr>
               in if \<not> vw (Some (raw_of updatedBalance)) then None else Some updatedBalance))"

definition withdrawalUpdate ::
  "(raw_wallet option \<Rightarrow> bool) \<Rightarrow> real \<Rightarrow> WalletBalance option \<Rightarrow> WalletBalance option" where
  "withdrawalUpdate vw amount currentData =
     (let currentBalance = orDefault currentData
      in if \<not> vw (Some (raw_of currentBalance)) then None
         else if earnedBalance currentBalance < amount then None
         else (let updatedBalance = currentBalance
                     \<lparr>earnedBalance := js_sub (earnedBalance currentBalance) amount,
                      totalWithdrawn := js_add (totalWithdrawn currentBalance) amount\<rparr>
               in if \<not> vw (Some (raw_of updatedBalance)) then None else Some updatedBalance))"

definition workApproveUpdate :: "(Work \<Rightarrow> bool) \<Rightarrow> Work option \<Rightarrow> Work option" where
  "workApproveUpdate vwork currentData =
     (case currentData of
        None \<Rightarrow> None
      | Some cur \<Rightarrow>
          if work_status cur \<noteq> ''pending'' then None
          else if \<not> vwork cur then None
          else Some (cur\<lparr>work_status := ''approved''\<rparr>))"

text \<open>
  The reward test that \<^verbatim>\<open>unnamed/part_001\<close> writes out where \<^verbatim>\<open>data-cache.ts\<close> calls
  \<open>validateWorkData\<close>: \<open>typeof reward !== 'number' || reward <= 0 || reward > 10000\<close>.
\<close>

definition rewardOk_p1 :: "Work \<Rightarrow> bool" where
  "rewardOk_p1 w = (if reward w \<le> 0 \<or> reward w > 10000 then False else True)"

subsection \<open>\<open>deductCampaignBudget\<close>\<close>

text \<open>
  The rollback: \<open>update(campaignRef, { remainingBudget:
  campaignResult.snapshot.val().remainingBudget + amount })\<close>. The snapshot is the
  campaign that the transaction has committed, with the decremented budget.
\<close>

definition rollbackCampaignBudget :: "Store \<Rightarrow> string \<Rightarrow> Campaign \<Rightarrow> real \<Rightarrow> Store" where
  "rollbackCampaignBudget s campaignId snapshot amount =
     update_campaign s campaignId
       (\<lambda>c. c\<lparr>remainingBudget := js_add (remainingBudget snapshot) amount\<rparr>)"

text \<open>
  The \<open>try\<close> block of \<^verbatim>\<open>data-cache.ts\<close>, lines 470-565. The test
  \<open>if (!campaignData)\<close> after \<open>campaignSnap.exists()\<close> cannot fire: a snapshot that
  exists has a value.
\<close>

definition deductCampaignBudget_try ::
  "validation \<Rightarrow> Store \<Rightarrow> string \<Rightarrow> real \<Rightarrow> string \<Rightarrow> (error + bool) \<times> Store" where
  "deductCampaignBudget_try V s campaignId amount uid =
     (case campaigns s campaignId of
        None \<Rightarrow> (Inl (Error ''Campaign does not exist''), s)
      | Some campaignData \<Rightarrow>
          if creatorId campaignData \<noteq> uid
          then (Inl (Error ''Unauthorized: You can only deduct from your own campaigns''), s)
          else if \<not> validateCampaignData V campaignData
          then (Inl (Error ''Invalid campaign data''), s)
          else
            (case runTransaction (campaignDeductUpdate (validateCampaignData V) amount)
                    (campaigns s campaignId) of
               NotCommitted \<Rightarrow> (Inr False, s)
             | Committed campaignSnap \<Rightarrow>
                 (let s1 = s\<lparr>campaigns := (campaigns s)(campaignId \<mapsto> campaignSnap)\<rparr>
                  in case runTransaction (walletDeductUpdate (validateWalletData V) amount)
                            (wallets s1 uid) of
                       Committed walletSnap \<Rightarrow>
                         (Inr True, s1\<lparr>wallets := (wallets s1)(uid \<mapsto> walletSnap)\<rparr>)
                     | NotCommitted \<Rightarrow>
                         (Inr False, rollbackCampaignBudget s1 campaignId campaignSnap amount))))"

text \<open>\<open>deductCampaignBudget\<close> of \<^verbatim>\<open>data-cache.ts\<close>, lines 438-573.\<close>

definition deductCampaignBudget ::
  "validation \<Rightarrow> Store \<Rightarrow> string \<Rightarrow> real \<Rightarrow> string \<Rightarrow> string option \<Rightarrow> (error + bool) \<times> Store" where
  "deductCampaignBudget V s campaignId amount uid currentUserId =
     (if campaignId = [] then (Inl (Error ''Invalid campaign ID provided''), s)
      else if amount \<le> 0 then (Inl (Error ''Invalid amount provided''), s)
      else if uid = [] then (Inl (Error ''Invalid user ID provided''), s)
      else if denied V s currentUserId uid None
      then (Inl (Error ''Unauthorized: You can only deduct from your own campaigns''), s)
      else if amount \<le> 0 \<or> amount > 10000000
      then (Inl (Error ''Invalid amount for campaign budget deduction''), s)
      else rethrow ''Failed to deduct campaign budget. Please try again later.''
             (deductCampaignBudget_try V s campaignId amount uid))"

text \<open>
  \<open>deductCampaignBudget\<close> of \<^verbatim>\<open>unnamed/part_001\<close>, lines 380-502. Its \<open>catch\<close> block
  throws the error on as it is. It does not test \<open>campaignId\<close>: for the empty string
  the path \<open>campaigns/\<close> is the node of all campaigns, which exists when there is a
  campaign and whose value has no \<open>creatorId\<close> equal to \<open>uid\<close>.
\<close>

definition deductCampaignBudget_p1 ::
  "Store \<Rightarrow> string \<Rightarrow> real \<Rightarrow> string \<Rightarrow> string option \<Rightarrow> (error + bool) \<times> Store" where
  "deductCampaignBudget_p1 s campaignId amount uid currentUserId =
     (if denied_p1 s currentUserId uid None
      then (Inl (Error ''Unauthorized: You can only deduct from your own campaigns''), s)
      else if amount \<le> 0 \<or> amount > 10000000
      then (Inl (Error ''Invalid amount for campaign budget deduction''), s)
      else if campaignId = []
      then (if campaigns s = Map.empty
            then (Inl (Error ''Campaign does not exist''), s)
            else (Inl (Error ''Unauthorized: You can only deduct from your own campaigns''), s))
      else
        (case campaigns s campaignId of
           None \<Rightarrow> (Inl (Error ''Campaign does not exist''), s)
         | Some campaignData \<Rightarrow>
             if creatorId campaignData \<noteq> uid
             then (Inl (Error ''Unauthorized: You can only deduct from your own campaigns''), s)
             else if \<not> validateCampaignData_p1 campaignData
             then (Inl (Error ''Invalid campaign data''), s)
             else
               (case runTransaction (campaignDeductUpdate validateCampaignData_p1 amount)
                       (campaigns s campaignId) of
                  NotCommitted \<Rightarrow> (Inr False, s)
                | Committed campaignSnap \<Rightarrow>
                    (let s1 = s\<lparr>campaigns := (campaigns s)(campaignId \<mapsto> campaignSnap)\<rparr>
                     in case runTransaction (walletDeductUpdate validateWalletData_p1 amount)
                               (wallets s1 uid) of
                          Committed walletSnap \<Rightarrow>
                            (let s2 = s1\<lparr>wallets := (wallets s1)(uid \<mapsto> walletSnap)\<rparr>
                             in if \<not> validateWalletData_p1 (Some (raw_of walletSnap))
                                then (Inl (Error ''Wallet validation failed after deduction''),
                                      rollbackCampaignBudget s2 campaignId campaignSnap amount)
                                else (Inr True, s2))
                        | NotCommitted \<Rightarrow>
                            (Inr False, rollbackCampaignBudget s1 campaignId campaignSnap amount)))))"

subsection \<open>\<open>approveWorkAndCredit\<close>\<close>

text \<open>
  The profile counters are read as \<open>typeof x === 'number' ? x : 0\<close> (or \<open>x || 0\<close>):
  a missing field counts as 0.
\<close>

definition orZero :: "real option \<Rightarrow> real" where
  "orZero x = (case x of None \<Rightarrow> 0 | Some v \<Rightarrow> v)"

text \<open>
  The profile update after the wallet credit (\<^verbatim>\<open>data-cache.ts\<close> lines 676-693,
  \<^verbatim>\<open>unnamed/part_001\<close> lines 588-605): without a profile nothing is written; a
  negative new counter throws.
\<close>

definition creditUserProfile :: "Store \<Rightarrow> string \<Rightarrow> real \<Rightarrow> error + Store" where
  "creditUserProfile s userId rew =
     (case users s userId of
        None \<Rightarrow> Inr s
      | Some userData \<Rightarrow>
          (let currentEarnedMoney = orZero (earnedMoney userData);
               currentApprovedWorks = orZero (approvedWorks userData)
           in if js_add currentEarnedMoney rew < 0 \<or> js_add currentApprovedWorks 1 < 0
              then Inl (Error ''Invalid user data values'')
              else Inr (update_user s userId
                     (\<lambda>u. u\<lparr>earnedMoney := Some (js_add currentEarnedMoney rew),
                            approvedWorks := Some (js_add currentApprovedWorks 1)\<rparr>))))"

text \<open>The \<open>try\<close> block of \<^verbatim>\<open>data-cache.ts\<close>, lines 614-707.\<close>

definition approveWorkAndCredit_try ::
  "validation \<Rightarrow> Store \<Rightarrow> string \<Rightarrow> string \<Rightarrow> real \<Rightarrow> (error + bool) \<times> Store" where
  "approveWorkAndCredit_try V s workId userId rew =
     (case works s (userId, workId) of
        None \<Rightarrow> (Inl (Error ''Work does not exist''), s)
      | Some workData \<Rightarrow>
          if work_status workData \<noteq> ''pending''
          then (Inl (Error ''Work is not in pending status''), s)
          else if \<not> validateWorkData V workData
          then (Inl (Error ''Invalid work data''), s)
          else
            (case runTransaction (workApproveUpdate (validateWorkData V)) (works s (userId, workId)) of
               NotCommitted \<Rightarrow> (Inr False, s)
             | Committed workSnap \<Rightarrow>
                 (let s1 = s\<lparr>works := (works s)((userId, workId) \<mapsto> workSnap)\<rparr>
                  in case runTransaction (walletCreditUpdate (validateWalletData V) rew)
                            (wallets s1 userId) of
                       Committed walletSnap \<Rightarrow>
                         (let s2 = s1\<lparr>wallets := (wallets s1)(userId \<mapsto> walletSnap)\<rparr>
                          in case creditUserProfile s2 userId rew of
                               Inl e \<Rightarrow> (Inl e, s2)
                             | Inr s3 \<Rightarrow> (Inr True, s3))
                     | NotCommitted \<Rightarrow>
                         (Inr False,
                          update_work s1 (userId, workId) (\<lambda>w. w\<lparr>work_status := ''pending''\<rparr>)))))"

text \<open>
  \<open>approveWorkAndCredit\<close> of \<^verbatim>\<open>data-cache.ts\<close>, lines 576-715. The argument
  \<open>campaignId\<close> is only tested for emptiness.
\<close>

definition approveWorkAndCredit ::
  "validation \<Rightarrow> Store \<Rightarrow> string \<Rightarrow> string \<Rightarrow> string \<Rightarrow> real \<Rightarrow> string option
     \<Rightarrow> (error + bool) \<times> Store" where
  "approveWorkAndCredit V s workId userId campaignId rew currentAdminId =
     (if workId = [] then (Inl (Error ''Invalid work ID provided''), s)
      else if userId = [] then (Inl (Error ''Invalid user ID provided''), s)
      else if campaignId = [] then (Inl (Error ''Invalid campaign ID provided''), s)
      else if rew < 0 then (Inl (Error ''Invalid reward amount provided''), s)
      else if denied V s currentAdminId userId (Some ''admin'')
      then (Inl (Error ''Unauthorized: Only admins can approve work''), s)
      else if rew \<le> 0 \<or> rew > 10000
      then (Inl (Error ''Invalid reward amount for work approval''), s)
      else rethrow ''Failed to approve work. Please try again later.''
             (approveWorkAndCredit_try V s workId userId rew))"

text \<open>
  \<open>approveWorkAndCredit\<close> of \<^verbatim>\<open>unnamed/part_001\<close>, lines 505-641. After the profile
  update it validates the committed wallet once more and, should that fail, sets the
  work back to pending and takes the counters back.

  This copy does not test its identifiers. With an empty \<open>workId\<close> or \<open>userId\<close> the
  path \<open>works/{userId}/{workId}\<close> loses the empty segment and names a node above the
  work items: all work items of \<open>userId\<close>, those of a user called \<open>workId\<close>, or the
  whole of \<open>works\<close>. If that node exists, its value has no \<open>status\<close> equal to
  \<open>pending\<close>.
\<close>

definition shortenedPathExists :: "Store \<Rightarrow> string \<Rightarrow> string \<Rightarrow> bool" where
  "shortenedPathExists s userId workId =
     (if userId = [] \<and> workId = [] then works s \<noteq> Map.empty
      else if workId = [] then (\<exists>id. works s (userId, id) \<noteq> None)
      else (\<exists>id. works s (workId, id) \<noteq> None))"

definition approveWorkAndCredit_p1 ::
  "Store \<Rightarrow> string \<Rightarrow> string \<Rightarrow> string \<Rightarrow> real \<Rightarrow> string option \<Rightarrow> (error + bool) \<times> Store" where
  "approveWorkAndCredit_p1 s workId userId campaignId rew currentAdminId =
     (if denied_p1 s currentAdminId userId (Some ''admin'')
      then (Inl (Error ''Unauthorized: Only admins can approve work''), s)
      else if rew \<le> 0 \<or> rew > 10000
      then (Inl (Error ''Invalid reward amount for work approval''), s)
      else if workId = [] \<or> userId = []
      then (if shortenedPathExists s userId workId
            then (Inl (Error ''Work is not in pending status''), s)
            else (Inl (Error ''Work does not exist''), s))
      else
        (case works s (userId, workId) of
           None \<Rightarrow> (Inl (Error ''Work does not exist''), s)
         | Some workData \<Rightarrow>
             if work_status workData \<noteq> ''pending''
             then (Inl (Error ''Work is not in pending status''), s)
             else if \<not> rewardOk_p1 workData
             then (Inl (Error ''Invalid reward in work data''), s)
             else
               (case runTransaction (workApproveUpdate rewardOk_p1) (works s (userId, workId)) of
                  NotCommitted \<Rightarrow> (Inr False, s)
                | Committed workSnap \<Rightarrow>
                    (let s1 = s\<lparr>works := (works s)((userId, workId) \<mapsto> workSnap)\<rparr>
                     in case runTransaction (walletCreditUpdate validateWalletData_p1 rew)
                               (wallets s1 userId) of
                          Committed walletSnap \<Rightarrow>
                            (let s2 = s1\<lparr>wallets := (wallets s1)(userId \<mapsto> walletSnap)\<rparr>
                             in case creditUserProfile s2 userId rew of
                                  Inl e \<Rightarrow> (Inl e, s2)
                                | Inr s3 \<Rightarrow>
                                    if \<not> validateWalletData_p1 (Some (raw_of walletSnap))
                                    then (Inl (Error ''Wallet validation failed after work approval''),
                                          update_user
                                            (update_work s3 (userId, workId)
                                               (\<lambda>w. w\<lparr>work_status := ''pending''\<rparr>))
                                            userId
                                            (\<lambda>u. u\<lparr>earnedMoney :=
                                                     Some (max 0 (js_sub (orZero (earnedMoney u)) rew)),
                                                   approvedWorks :=
                                                     Some (max 0 (js_sub (orZero (approvedWorks u)) 1))\<rparr>))
                                    else (Inr True, s3))
                        | NotCommitted \<Rightarrow>
                            (Inr False,
                             update_work s1 (userId, workId) (\<lambda>w. w\<lparr>work_status := ''pending''\<rparr>))))))"

subsection \<open>\<open>processMoneyRequest\<close>\<close>

text \<open>
  The test \<open>requestData.amount !== amount || requestData.type !== type ||
  requestData.userId !== userId\<close>.
\<close>

definition requestMismatch :: "MoneyRequest \<Rightarrow> string \<Rightarrow> string \<Rightarrow> real \<Rightarrow> bool" where
  "requestMismatch requestData type userId amount =
     (request_amount requestData \<noteq> amount \<or> request_type requestData \<noteq> type \<or>
      request_userId requestData \<noteq> userId)"

definition amountOutOfRange :: "string \<Rightarrow> real \<Rightarrow> bool" where
  "amountOutOfRange type amount =
     (amount \<le> 0 \<or>
      (type = ''add_money'' \<and> (amount < 10 \<or> amount > 100000)) \<or>
      (type = ''withdrawal'' \<and> (amount < 500 \<or> amount > 50000)))"

definition setRequestStatus :: "Store \<Rightarrow> string \<Rightarrow> string \<Rightarrow> string \<Rightarrow> Store" where
  "setRequestStatus s type requestId status =
     update_request s type requestId (\<lambda>r. r\<lparr>request_status := status\<rparr>)"

text \<open>The \<open>try\<close> block of \<^verbatim>\<open>data-cache.ts\<close>, lines 764-897.\<close>

definition processMoneyRequest_try ::
  "validation \<Rightarrow> Store \<Rightarrow> string \<Rightarrow> string \<Rightarrow> string \<Rightarrow> real \<Rightarrow> string
     \<Rightarrow> (error + bool) \<times> Store" where
  "processMoneyRequest_try V s requestId type userId amount status =
     (case requestAt s type requestId of
        None \<Rightarrow> (Inl (Error ''Request does not exist''), s)
      | Some requestData \<Rightarrow>
          if request_status requestData \<noteq> ''pending''
          then (Inl (Error ''Request is not in pending status''), s)
          else if requestMismatch requestData type userId amount
          then (Inl (Error ''Request data does not match provided parameters''), s)
          else
            (let s1 = setRequestStatus s type requestId status
             in if status = ''approved''
                then
                  (if type = ''add_money''
                   then
                     (case runTransaction (addMoneyUpdate (validateWalletData V) amount)
                             (wallets s1 userId) of
                        Committed walletSnap \<Rightarrow>
                          (Inr True, s1\<lparr>wallets := (wallets s1)(userId \<mapsto> walletSnap)\<rparr>)
                      | NotCommitted \<Rightarrow>
                          (Inr False, setRequestStatus s1 type requestId ''pending''))
                   else
                     (case runTransaction (withdrawalUpdate (validateWalletData V) amount)
                             (wallets s1 userId) of
                        Committed finalWalletData \<Rightarrow>
                          (let s2 = s1\<lparr>wallets := (wallets s1)(userId \<mapsto> finalWalletData)\<rparr>
                           in if \<not> validateWalletData V (Some (raw_of finalWalletData))
                              then (Inl (Error ''Wallet validation failed after withdrawal''),
                                    setRequestStatus s2 type requestId ''pending'')
                              else
                                (Inr True,
                                 update_user s2 userId
                                   (\<lambda>u. u\<lparr>user_totalWithdrawn :=
                                            Some (js_add (orZero (user_totalWithdrawn u)) amount)\<rparr>)))
                      | NotCommitted \<Rightarrow>
                          (Inr False, setRequestStatus s1 type requestId ''pending'')))
                else (Inr True, s1)))"

text \<open>\<open>processMoneyRequest\<close> of \<^verbatim>\<open>data-cache.ts\<close>, lines 718-905.\<close>

definition processMoneyRequest ::
  "validation \<Rightarrow> Store \<Rightarrow> string \<Rightarrow> string \<Rightarrow> string \<Rightarrow> real \<Rightarrow> string \<Rightarrow> string option
     \<Rightarrow> (error + bool) \<times> Store" where
  "processMoneyRequest V s requestId type userId amount status currentAdminId =
     (if requestId = [] then (Inl (Error ''Invalid request ID provided''), s)
      else if type \<notin> set [''add_money'', ''withdrawal'']
      then (Inl (Error ''Invalid request type provided''), s)
      else if userId = [] then (Inl (Error ''Invalid user ID provided''), s)
      else if amount \<le> 0 then (Inl (Error ''Invalid amount provided''), s)
      else if status \<notin> set [''approved'', ''rejected'']
      then (Inl (Error ''Invalid status provided''), s)
      else if denied V s currentAdminId userId (Some ''admin'')
      then (Inl (Error ''Unauthorized: Only admins can process money requests''), s)
      else if amountOutOfRange type amount
      then (Inl (Error ''Invalid amount for money request processing''), s)
      else rethrow ''Failed to process money request. Please try again later.''
             (processMoneyRequest_try V s requestId type userId amount status))"

text \<open>
  The profile update of the withdrawal branch in \<^verbatim>\<open>unnamed/part_001\<close>, lines 787-802.
\<close>

definition recordWithdrawal_p1 :: "Store \<Rightarrow> string \<Rightarrow> real \<Rightarrow> error + Store" where
  "recordWithdrawal_p1 s userId amount =
     (case users s userId of
        None \<Rightarrow> Inr s
      | Some userData \<Rightarrow>
          (let currentTotalWithdrawn = orZero (user_totalWithdrawn userData)
           in if js_add currentTotalWithdrawn amount < 0
              then Inl (Error ''Invalid total withdrawn value'')
              else Inr (update_user s userId
                     (\<lambda>u. u\<lparr>user_totalWithdrawn := Some (js_add currentTotalWithdrawn amount)\<rparr>))))"

text \<open>\<open>processMoneyRequest\<close> of \<^verbatim>\<open>unnamed/part_001\<close>, lines 644-820.\<close>

definition processMoneyRequest_p1 ::
  "Store \<Rightarrow> string \<Rightarrow> string \<Rightarrow> string \<Rightarrow> real \<Rightarrow> string \<Rightarrow> string option
     \<Rightarrow> (error + bool) \<times> Store" where
  "processMoneyRequest_p1 s requestId type userId amount status currentAdminId =
     (if denied_p1 s currentAdminId userId (Some ''admin'')
      then (Inl (Error ''Unauthorized: Only admins can process money requests''), s)
      else if amountOutOfRange type amount
      then (Inl (Error ''Invalid amount for money request processing''), s)
      else
        (case requestAt s type requestId of
           None \<Rightarrow> (Inl (Error ''Request does not exist''), s)
         | Some requestData \<Rightarrow>
             if request_status requestData \<noteq> ''pending''
             then (Inl (Error ''Request is not in pending status''), s)
             else if requestMismatch requestData type userId amount
             then (Inl (Error ''Request data does not match provided parameters''), s)
             else
               (let s1 = setRequestStatus s type requestId status
                in if status = ''approved''
                   then
                     (if type = ''add_money''
                      then
                        (case runTransaction (addMoneyUpdate validateWalletData_p1 amount)
                                (wallets s1 userId) of
                           Committed finalWalletData \<Rightarrow>
                             (let s2 = s1\<lparr>wallets := (wallets s1)(userId \<mapsto> finalWalletData)\<rparr>
                              in if \<not> validateWalletData_p1 (Some (raw_of finalWalletData))
                                 then (Inl (Error ''Wallet validation failed after add money''),
                                       setRequestStatus s2 type requestId ''pending'')
                                 else (Inr True, s2))
                         | NotCommitted \<Rightarrow>
                             (Inr False, setRequestStatus s1 type requestId ''pending''))
                      else
                        (case runTransaction (withdrawalUpdate validateWalletData_p1 amount)
                                (wallets s1 userId) of
                           Committed finalWalletData \<Rightarrow>
                             (let s2 = s1\<lparr>wallets := (wallets s1)(userId \<mapsto> finalWalletData)\<rparr>
                              in if \<not> validateWalletData_p1 (Some (raw_of finalWalletData))
                                 then (Inl (Error ''Wallet validation failed after withdrawal''),
                                       setRequestStatus s2 type requestId ''pending'')
                                 else
                                   (case recordWithdrawal_p1 s2 userId amount of
                                      Inl e \<Rightarrow> (Inl e, s2)
                                    | Inr s3 \<Rightarrow> (Inr True, s3)))
                         | NotCommitted \<Rightarrow>
                             (Inr False, setRequestStatus s1 type requestId ''pending'')))
                   else (Inr True, s1))))"

subsection \<open>\<open>applyToCampaign\<close>\<close>

text \<open>
  \<open>userName.trim().length === 0\<close>: the name consists of white space only. The white
  space of ASCII strings is tab, line feed, vertical tab, form feed, carriage return
  and space.
\<close>

definition js_whitespace :: "char \<Rightarrow> bool" where
  "js_whitespace ch = (ch \<in> set [CHR 0x09, CHR 0x0A, CHR 0x0B, CHR 0x0C, CHR 0x0D, CHR '' ''])"

definition trim_is_empty :: "string \<Rightarrow> bool" where
  "trim_is_empty str = list_all js_whitespace str"

definition newWork :: "string \<Rightarrow> string \<Rightarrow> string \<Rightarrow> real \<Rightarrow> int \<Rightarrow> Work" where
  "newWork campaignId userId userName rew now =
     \<lparr>work_id = campaignId, work_userId = userId, work_userName = userName,
      work_campaignId = campaignId, proofUrl = [], work_status = ''pending'',
      submittedAt = now, reward = rew\<rparr>"

text \<open>
  The \<open>try\<close> block of \<^verbatim>\<open>data-cache.ts\<close>, lines 945-996; \<open>now\<close> is the clock reading
  of \<open>Date.now()\<close>.
\<close>

definition applyToCampaign_try ::
  "validation \<Rightarrow> Store \<Rightarrow> string \<Rightarrow> string \<Rightarrow> string \<Rightarrow> real \<Rightarrow> int \<Rightarrow> (error + bool) \<times> Store" where
  "applyToCampaign_try V s campaignId userId userName rew now =
     (case works s (userId, campaignId) of
        Some existing \<Rightarrow> (Inl (Error ''You have already applied to this campaign''), s)
      | None \<Rightarrow>
          (case campaigns s campaignId of
             None \<Rightarrow> (Inl (Error ''Campaign does not exist''), s)
           | Some campaignData \<Rightarrow>
               if campaign_status campaignData \<noteq> ''active''
               then (Inl (Error ''Campaign is not active''), s)
               else if completedWorkers campaignData \<ge> totalWorkers campaignData
               then (Inl (Error ''Campaign is full''), s)
               else
                 (let workData = newWork campaignId userId userName rew now
                  in if \<not> validateWorkData V workData
                     then (Inl (Error ''Invalid work data''), s)
                     else
                       (let s1 = s\<lparr>works := (works s)((userId, campaignId) \<mapsto> workData)\<rparr>
                        in (Inr True,
                            update_campaign s1 campaignId
                              (\<lambda>c. c\<lparr>completedWorkers := completedWorkers campaignData + 1\<rparr>))))))"

text \<open>\<open>applyToCampaign\<close> of \<^verbatim>\<open>data-cache.ts\<close>, lines 908-1004.\<close>

definition applyToCampaign ::
  "validation \<Rightarrow> Store \<Rightarrow> string \<Rightarrow> string \<Rightarrow> string \<Rightarrow> real \<Rightarrow> string option \<Rightarrow> int
     \<Rightarrow> (error + bool) \<times> Store" where
  "applyToCampaign V s campaignId userId userName rew currentUserId now =
     (if campaignId = [] then (Inl (Error ''Invalid campaign ID provided''), s)
      else if userId = [] then (Inl (Error ''Invalid user ID provided''), s)
      else if userName = [] \<or> trim_is_empty userName
      then (Inl (Error ''Invalid user name provided''), s)
      else if rew < 0 then (Inl (Error ''Invalid reward amount provided''), s)
      else if (case currentUserId of None \<Rightarrow> False | Some cu \<Rightarrow> cu \<noteq> [] \<and> cu \<noteq> userId)
      then (Inl (Error ''Unauthorized: You can only apply to campaigns for yourself''), s)
      else if campaignId = [] \<or> userId = [] \<or> userName = [] \<or> rew \<le> 0 \<or> rew > 10000
      then (Inl (Error ''Invalid parameters for campaign application''), s)
      else rethrow ''Failed to apply to campaign. Please try again later.''
             (applyToCampaign_try V s campaignId userId userName rew now))"

text \<open>\<open>applyToCampaign\<close> of \<^verbatim>\<open>unnamed/part_001\<close>, lines 823-905.\<close>

definition applyToCampaign_p1 ::
  "Store \<Rightarrow> string \<Rightarrow> string \<Rightarrow> string \<Rightarrow> real \<Rightarrow> string option \<Rightarrow> int
     \<Rightarrow> (error + bool) \<times> Store" where
  "applyToCampaign_p1 s campaignId userId userName rew currentUserId now =
     (if (case currentUserId of None \<Rightarrow> False | Some cu \<Rightarrow> cu \<noteq> [] \<and> cu \<noteq> userId)
      then (Inl (Error ''Unauthorized: You can only apply to campaigns for yourself''), s)
      else if campaignId = [] \<or> userId = [] \<or> userName = [] \<or> rew \<le> 0 \<or> rew > 10000
      then (Inl (Error ''Invalid parameters for campaign application''), s)
      else
        (case works s (userId, campaignId) of
           Some existing \<Rightarrow> (Inl (Error ''You have already applied to this campaign''), s)
         | None \<Rightarrow>
             (case campaigns s campaignId of
                None \<Rightarrow> (Inl (Error ''Campaign does not exist''), s)
              | Some campaignData \<Rightarrow>
                  if \<not> validateCampaignData_p1 campaignData
                  then (Inl (Error ''Invalid campaign data''), s)
                  else if campaign_status campaignData \<noteq> ''active''
                  then (Inl (Error ''Campaign is not active''), s)
                  else if completedWorkers campaignData \<ge> totalWorkers campaignData
                  then (Inl (Error ''Campaign is full''), s)
                  else
                    (let workData = newWork campaignId userId userName rew now
                     in if \<not> rewardOk_p1 workData
                        then (Inl (Error ''Invalid reward in work data''), s)
                        else
                          (let s1 = s\<lparr>works := (works s)((userId, campaignId) \<mapsto> workData)\<rparr>
                           in (Inr True,
                               update_campaign s1 campaignId
                                 (\<lambda>c. c\<lparr>completedWorkers := completedWorkers campaignData + 1\<rparr>)))))))"

section \<open>The time-based leaderboard\<close>

text \<open>
  \<^verbatim>\<open>src/lib/data-cache.ts\<close> declares \<open>fetchTimeBasedLeaderboard\<close> twice, on the two
  sides of a merge: lines 1163-1255 (the side marked \<open>Updated upstream\<close>, which is
  also the version of \<^verbatim>\<open>unnamed/part_001\<close>, lines 1040-1132) and lines 1496-1579. Both
  are embedded, the first with the suffix \<open>_upstream\<close>. Each definition is the
  computation of the function on a cache miss, from the snapshots it reads and the
  clock reading \<open>now\<close>; the result is stored in the cache under
  \<open>leaderboard:{period}\<close> and served from there until it expires.

  A snapshot with children is the list of its entries in the order of
  \<open>Object.entries\<close>; \<open>None\<close> is a snapshot that does not exist.
\<close>

record LeaderboardEntry =
  entry_uid :: string
  entry_fullName :: string
  entry_profileImage :: "string option"
  entry_approvedWorks :: real
  entry_earnedMoney :: "real option"
  rank :: nat

text \<open>
  \<open>Array.prototype.sort(compare)\<close> is stable, and \<open>a\<close> goes before \<open>b\<close> when
  \<open>compare(a, b)\<close> is not positive. Insertion from the right end gives that result.
  The comparators of the leaderboard are differences, of which the sort uses the sign;
  rounding to a double does not change the sign of a difference of doubles, so they are
  written with the exact \<open>-\<close>.
\<close>

fun js_insert :: "('a \<Rightarrow> 'a \<Rightarrow> real) \<Rightarrow> 'a \<Rightarrow> 'a list \<Rightarrow> 'a list" where
  "js_insert compare x [] = [x]"
| "js_insert compare x (y # ys) =
     (if compare x y \<le> 0 then x # y # ys else y # js_insert compare x ys)"

fun js_sort :: "('a \<Rightarrow> 'a \<Rightarrow> real) \<Rightarrow> 'a list \<Rightarrow> 'a list" where
  "js_sort compare [] = []"
| "js_sort compare (x # xs) = js_insert compare x (js_sort compare xs)"

text \<open>\<open>.map((user, index) => ({ ...user, rank: index + 1 }))\<close>, from \<open>index\<close> on.\<close>

fun withRanks :: "nat \<Rightarrow> LeaderboardEntry list \<Rightarrow> LeaderboardEntry list" where
  "withRanks index [] = []"
| "withRanks index (user # rest) = user\<lparr>rank := index + 1\<rparr> # withRanks (Suc index) rest"

definition timeThreshold :: "string \<Rightarrow> int \<Rightarrow> int" where
  "timeThreshold period now =
     (if period = ''daily'' then now - 24 * 60 * 60 * 1000
      else if period = ''weekly'' then now - 7 * 24 * 60 * 60 * 1000
      else if period = ''monthly'' then now - 30 * 24 * 60 * 60 * 1000
      else 0)"

text \<open>
  The test on a work item in the first version: \<open>work.status === 'approved' &&
  work.submittedAt > timeThreshold && work.submittedAt <= now + 60000\<close>.
\<close>

definition countsInPeriod :: "int \<Rightarrow> int \<Rightarrow> Work \<Rightarrow> bool" where
  "countsInPeriod threshold now work =
     (work_status work = ''approved'' \<and> submittedAt work > threshold \<and>
      submittedAt work \<le> now + 60000)"

text \<open>
  \<open>userWorkCounts\<close> is a plain object, \<open>{}\<close>. A lookup \<open>userWorkCounts[key]\<close> finds
  the own property that the loop has written, which holds a number (\<open>NaN\<close> is one),
  or else a property inherited from \<open>Object.prototype\<close>: one of its methods, or under
  \<open>__proto__\<close> the prototype itself; it is \<open>undefined\<close> for every other key. An
  inherited value is truthy and not a number. A write creates or replaces the own
  property, except under \<open>__proto__\<close>, whose setter ignores a number.
\<close>

datatype count = Count nat | NaNCount

datatype lookup = Undefined | Inherited | Own count

definition objectPrototypeMethods :: "string list" where
  "objectPrototypeMethods =
     [''constructor'', ''__defineGetter__'', ''__defineSetter__'', ''hasOwnProperty'',
      ''__lookupGetter__'', ''__lookupSetter__'', ''isPrototypeOf'', ''propertyIsEnumerable'',
      ''toString'', ''valueOf'', ''toLocaleString'']"

definition readCount :: "(string \<rightharpoonup> count) \<Rightarrow> string \<Rightarrow> lookup" where
  "readCount userWorkCounts key =
     (if key = ''__proto__'' then Inherited
      else (case userWorkCounts key of
              Some c \<Rightarrow> Own c
            | None \<Rightarrow> if key \<in> set objectPrototypeMethods then Inherited else Undefined))"

definition writeCount :: "(string \<rightharpoonup> count) \<Rightarrow> string \<Rightarrow> count \<Rightarrow> (string \<rightharpoonup> count)" where
  "writeCount userWorkCounts key c =
     (if key = ''__proto__'' then userWorkCounts else userWorkCounts(key \<mapsto> c))"

text \<open>
  \<open>!userWorkCounts[userId]\<close>, and the value that \<open>userWorkCounts[userId]++\<close> writes:
  the old value converted to a number, plus 1. Whatever is not a number converts to
  \<open>NaN\<close>.
\<close>

fun falsy :: "lookup \<Rightarrow> bool" where
  "falsy Undefined = True"
| "falsy Inherited = False"
| "falsy (Own (Count n)) = (n = 0)"
| "falsy (Own NaNCount) = True"

fun increment :: "lookup \<Rightarrow> count" where
  "increment (Own (Count n)) = Count (Suc n)"
| "increment (Own NaNCount) = NaNCount"
| "increment Inherited = NaNCount"
| "increment Undefined = NaNCount"

text \<open>
  The two loops that fill \<open>userWorkCounts\<close>: the inner one over the work items of one
  user, the outer one over the users of the \<open>works\<close> snapshot.
\<close>

fun countUserWorks ::
  "int \<Rightarrow> int \<Rightarrow> string \<Rightarrow> (string \<times> Work) list \<Rightarrow> (string \<rightharpoonup> count) \<Rightarrow> (string \<rightharpoonup> count)" where
  "countUserWorks threshold now userId [] userWorkCounts = userWorkCounts"
| "countUserWorks threshold now userId ((workId, work) # rest) userWorkCounts =
     countUserWorks threshold now userId rest
       (if countsInPeriod threshold now work
        then (let initialised =
                    (if falsy (readCount userWorkCounts userId)
                     then writeCount userWorkCounts userId (Count 0)
                     else userWorkCounts)
              in writeCount initialised userId (increment (readCount initialised userId)))
        else userWorkCounts)"

fun countAllWorks ::
  "int \<Rightarrow> int \<Rightarrow> (string \<times> (string \<times> Work) list) list \<Rightarrow> (string \<rightharpoonup> count) \<Rightarrow> (string \<rightharpoonup> count)" where
  "countAllWorks threshold now [] userWorkCounts = userWorkCounts"
| "countAllWorks threshold now ((userId, userWorks) # rest) userWorkCounts =
     countAllWorks threshold now rest (countUserWorks threshold now userId userWorks userWorkCounts)"

text \<open>
  \<open>typeof userWorkCounts[uid] === 'number' ? userWorkCounts[uid] : 0\<close>, the value of
  \<open>approvedWorks\<close> in the entry of a user.
\<close>

definition approvedWorksOf :: "(string \<rightharpoonup> count) \<Rightarrow> string \<Rightarrow> jsnum" where
  "approvedWorksOf userWorkCounts uid =
     (case readCount userWorkCounts uid of
        Own (Count n) \<Rightarrow> JNum (real n)
      | Own NaNCount \<Rightarrow> JNaN
      | Inherited \<Rightarrow> JNum 0
      | Undefined \<Rightarrow> JNum 0)"

text \<open>The number that the counter of \<open>uid\<close> holds; 0 when it holds none.\<close>

definition total :: "(string \<rightharpoonup> count) \<Rightarrow> string \<Rightarrow> nat" where
  "total userWorkCounts uid = (case userWorkCounts uid of Some (Count n) \<Rightarrow> n | _ \<Rightarrow> 0)"

definition entry_upstream :: "(string \<rightharpoonup> count) \<Rightarrow> string \<times> UserProfile \<Rightarrow> LeaderboardEntry" where
  "entry_upstream userWorkCounts e =
     (case e of (uid, userData) \<Rightarrow>
        \<lparr>entry_uid = uid,
         entry_fullName = (case fullName userData of Some n \<Rightarrow> n | None \<Rightarrow> ''Unknown''),
         entry_profileImage = profileImage userData,
         entry_approvedWorks = (case approvedWorksOf userWorkCounts uid of JNum x \<Rightarrow> x | _ \<Rightarrow> 0),
         entry_earnedMoney = None,
         rank = 0\<rparr>)"

definition compare_upstream :: "LeaderboardEntry \<Rightarrow> LeaderboardEntry \<Rightarrow> real" where
  "compare_upstream a b = entry_approvedWorks b - entry_approvedWorks a"

text \<open>
  The first version: \<^verbatim>\<open>data-cache.ts\<close> lines 1184-1244. The entries carry no rank
  before the last \<open>map\<close>. The source builds an entry for every user and then drops the
  entries whose \<open>approvedWorks\<close> is not greater than 0, \<open>NaN\<close> among them. The test
  looks at \<open>approvedWorks\<close> alone, so the embedding tests that value first and builds the
  entries that stay; no entry holds \<open>NaN\<close>.
\<close>

definition fetchTimeBasedLeaderboard_upstream ::
  "string \<Rightarrow> int \<Rightarrow> (string \<times> UserProfile) list option
     \<Rightarrow> (string \<times> (string \<times> Work) list) list option \<Rightarrow> LeaderboardEntry list" where
  "fetchTimeBasedLeaderboard_upstream period now usersSnap worksSnap =
     (case (usersSnap, worksSnap) of
        (Some usersData, Some worksData) \<Rightarrow>
          (let userWorkCounts = countAllWorks (timeThreshold period now) now worksData Map.empty
           in withRanks 0
                (take 50
                   (js_sort compare_upstream
                      (map (entry_upstream userWorkCounts)
                         (filter (\<lambda>user. js_gt (approvedWorksOf userWorkCounts (fst user)) 0)
                            usersData)))))
      | _ \<Rightarrow> [])"

text \<open>\<open>a || b\<close> on strings that may be missing: the empty string is falsy.\<close>

definition orElse :: "string option \<Rightarrow> string option \<Rightarrow> string option" where
  "orElse a b = (case a of Some str \<Rightarrow> (if str \<noteq> [] then a else b) | None \<Rightarrow> b)"

definition entry_of :: "string \<times> UserProfile \<Rightarrow> LeaderboardEntry" where
  "entry_of e =
     (case e of (uid, userData) \<Rightarrow>
        \<lparr>entry_uid = uid,
         entry_fullName =
           (case orElse (orElse (fullName userData) (name userData)) (Some (''User '' @ take 8 uid)) of
              Some n \<Rightarrow> n | None \<Rightarrow> []),
         entry_profileImage = orElse (profileImage userData) (avatar userData),
         entry_approvedWorks = orZero (approvedWorks userData),
         entry_earnedMoney = Some (orZero (earnedMoney userData)),
         rank = 0\<rparr>)"

definition compare_users :: "LeaderboardEntry \<Rightarrow> LeaderboardEntry \<Rightarrow> real" where
  "compare_users a b =
     (if entry_approvedWorks b \<noteq> entry_approvedWorks a
      then entry_approvedWorks b - entry_approvedWorks a
      else orZero (entry_earnedMoney b) - orZero (entry_earnedMoney a))"

text \<open>
  The second version: \<^verbatim>\<open>data-cache.ts\<close> lines 1496-1579. It reads the \<open>users\<close>
  snapshot only and keeps every user record; it computes a \<open>timeThreshold\<close> as the
  first version does, but never uses it, so the clock does not enter the result.
\<close>

definition fetchTimeBasedLeaderboard ::
  "string \<Rightarrow> (string \<times> UserProfile) list option \<Rightarrow> error + LeaderboardEntry list" where
  "fetchTimeBasedLeaderboard timeframe usersSnap =
     (if timeframe = [] \<or> timeframe \<notin> set [''daily'', ''weekly'', ''monthly'']
      then Inl (Error ''Invalid timeframe provided. Must be daily, weekly, or monthly'')
      else (case usersSnap of
              None \<Rightarrow> Inr []
            | Some usersData \<Rightarrow> Inr (withRanks 0 (js_sort compare_users (map entry_of usersData)))))"

section \<open>What the leaderboard is to list\<close>

text \<open>
  The terms in which the properties of the leaderboard are stated, written from the
  description of the function and not from its code. The window of a period is 24
  hours, 7 days or 30 days, in milliseconds. A work item counts when it is approved and
  was submitted inside the window that ends at \<open>now\<close>, or up to 60 seconds after \<open>now\<close>.
  \<open>worksOf\<close> are the work items stored under \<open>uid\<close> in the \<open>works\<close> snapshot, and
  \<open>approvedInPeriod\<close> is the number of them that count.
\<close>

definition windowLength :: "string \<Rightarrow> int" where
  "windowLength period =
     (if period = ''daily'' then 86400000
      else if period = ''weekly'' then 604800000
      else 2592000000)"

definition approvedInWindow :: "string \<Rightarrow> int \<Rightarrow> Work \<Rightarrow> bool" where
  "approvedInWindow period now work \<longleftrightarrow>
     work_status work = ''approved'' \<and> now - windowLength period < submittedAt work \<and>
     submittedAt work \<le> now + 60000"

definition worksOf :: "(string \<times> (string \<times> Work) list) list \<Rightarrow> string \<Rightarrow> Work list" where
  "worksOf worksData uid = map snd (concat (map snd (filter (\<lambda>e. fst e = uid) worksData)))"

definition approvedInPeriod ::
  "string \<Rightarrow> int \<Rightarrow> (string \<times> (string \<times> Work) list) list \<Rightarrow> string \<Rightarrow> nat" where
  "approvedInPeriod period now worksData uid =
     length (filter (approvedInWindow period now) (worksOf worksData uid))"

text \<open>
  The keys under which a plain object has nothing but what is written to it: all but
  the names of the properties of \<open>Object.prototype\<close>.
\<close>

definition ordinaryKey :: "string \<Rightarrow> bool" where
  "ordinaryKey key \<longleftrightarrow> key \<noteq> ''__proto__'' \<and> key \<notin> set objectPrototypeMethods"

section \<open>Example data\<close>

text \<open>
  Concrete validators and stores, on which the theorems below are instantiated. The
  validators of \<^verbatim>\<open>unnamed/part_001\<close> stand in for the imported ones; the imported
  \<open>validateUserAuthorization\<close> is taken to accept two non-empty identities.
\<close>

definition validation_p1 :: validation where
  "validation_p1 =
     \<lparr>validateWalletData = validateWalletData_p1,
      validateCampaignData = validateCampaignData_p1,
      validateWorkData = rewardOk_p1,
      validateUserAuthorization = (\<lambda>currentUserId targetUserId requiredRole.
         currentUserId \<noteq> [] \<and> targetUserId \<noteq> [])\<rparr>"

definition campaign0 :: Campaign where
  "campaign0 =
     \<lparr>title = ''Follow the channel'', description = ''Subscribe and send a screenshot'',
      creatorId = ''u1'', totalWorkers = 10, rewardPerWorker = 50, totalBudget = 500,
      remainingBudget = 500, createdAt = 1700000000000, completedWorkers = 0,
      campaign_status = ''active''\<rparr>"

definition store0 :: Store where
  "store0 =
     \<lparr>users = Map.empty,
      wallets = [''u1'' \<mapsto> \<lparr>earnedBalance = 0, addedBalance = 100, pendingAddMoney = 0, totalWithdrawn = 0\<rparr>],
      campaigns = [''c1'' \<mapsto> campaign0],
      works = Map.empty,
      addMoneyRequests = Map.empty,
      withdrawalRequests = Map.empty\<rparr>"

text \<open>
  The doubles that JavaScript writes \<open>0.9\<close>, \<open>0.2\<close> and \<open>0.1\<close>, and a campaign with
  a budget of 0.9 whose creator has 0.1 in the wallet.
\<close>

definition d0_9 :: real where
  "d0_9 = to_double 0.9"

definition d0_2 :: real where
  "d0_2 = to_double 0.2"

definition d0_1 :: real where
  "d0_1 = to_double 0.1"

definition campaign09 :: Campaign where
  "campaign09 =
     \<lparr>title = ''Share the post'', description = ''Share it and send the link'',
      creatorId = ''u1'', totalWorkers = 1, rewardPerWorker = d0_9, totalBudget = d0_9,
      remainingBudget = d0_9, createdAt = 1700000000000, completedWorkers = 0,
      campaign_status = ''active''\<rparr>"

definition store09 :: Store where
  "store09 =
     \<lparr>users = Map.empty,
      wallets = [''u1'' \<mapsto> \<lparr>earnedBalance = 0, addedBalance = d0_1, pendingAddMoney = 0, totalWithdrawn = 0\<rparr>],
      campaigns = [''c1'' \<mapsto> campaign09],
      works = Map.empty,
      addMoneyRequests = Map.empty,
      withdrawalRequests = Map.empty\<rparr>"

definition request0 :: MoneyRequest where
  "request0 = \<lparr>request_userId = ''u1'', request_type = ''add_money'', request_amount = 50,
                request_status = ''pending''\<rparr>"

definition store1 :: Store where
  "store1 = store0\<lparr>addMoneyRequests := [''r1'' \<mapsto> request0]\<rparr>"

definition work0 :: Work where
  "work0 = newWork ''c1'' ''u2'' ''Worker Two'' 50 1700000001000"

definition user0 :: UserProfile where
  "user0 = \<lparr>role = ''user'', isBlocked = False, fullName = Some ''Worker Two'',
            name = None, profileImage = None, avatar = None, earnedMoney = Some 20, approvedWorks = Some 3,
            user_totalWithdrawn = None\<rparr>"

definition wallet0 :: WalletBalance where
  "wallet0 = \<lparr>earnedBalance = 1000, addedBalance = 5, pendingAddMoney = 0, totalWithdrawn = 200\<rparr>"

definition store2 :: Store where
  "store2 =
     store0\<lparr>users := [''u2'' \<mapsto> user0],
            wallets := (wallets store0)(''u2'' \<mapsto> wallet0),
            works := [(''u2'', ''c1'') \<mapsto> work0]\<rparr>"

text \<open>The same with 0.1 earned and a reward of 0.2.\<close>

definition store2_tenths :: Store where
  "store2_tenths =
     store0\<lparr>users := [''u2'' \<mapsto> user0],
            wallets := (wallets store0)(''u2'' \<mapsto> wallet0\<lparr>earnedBalance := d0_1\<rparr>),
            works := [(''u2'', ''c1'') \<mapsto> work0\<lparr>reward := d0_2\<rparr>]\<rparr>"

definition blockedUser :: UserProfile where
  "blockedUser = \<lparr>role = ''user'', isBlocked = True, fullName = Some ''Blocked Three'',
            name = None, profileImage = None, avatar = None, earnedMoney = None, approvedWorks = None,
            user_totalWithdrawn = None\<rparr>"

definition store3 :: Store where
  "store3 = store0\<lparr>users := [''u3'' \<mapsto> blockedUser]\<rparr>"

text \<open>
  A cache at capacity: 100 entries under the keys \<open>""\<close>, \<open>"k"\<close>, \<open>"kk"\<close>, ..., written
  at the clock readings 0, 1, 2, ...; the oldest entry is the one under the empty
  string.
\<close>

definition fullCache :: "(nat, nat) DataCache" where
  "fullCache =
     \<lparr>cache = map (\<lambda>i. (replicate i CHR ''k'',
                        \<lparr>data = i, timestamp = int i, expiry = int i + CACHE_DURATION\<rparr>)) [0..<100],
      pendingRequests = []\<rparr>"

text \<open>
  Two users with one approved work item each inside the last day, the second with more
  earned money; and 51 users, each with a profile counter of 3 approved works.
\<close>

definition userA :: UserProfile where
  "userA = \<lparr>role = ''user'', isBlocked = False, fullName = Some ''Ann'',
            name = None, profileImage = None, avatar = None,
            earnedMoney = Some 10, approvedWorks = Some 1, user_totalWithdrawn = None\<rparr>"

definition userB :: UserProfile where
  "userB = \<lparr>role = ''user'', isBlocked = False, fullName = Some ''Bob'',
            name = None, profileImage = None, avatar = None,
            earnedMoney = Some 99, approvedWorks = Some 1, user_totalWithdrawn = None\<rparr>"

definition usersAB :: "(string \<times> UserProfile) list" where
  "usersAB = [(''a'', userA), (''b'', userB)]"

definition approvedWork :: "string \<Rightarrow> Work" where
  "approvedWork uid = (newWork ''c1'' uid ''Worker'' 50 1700000001000)\<lparr>work_status := ''approved''\<rparr>"

definition worksAB :: "(string \<times> (string \<times> Work) list) list" where
  "worksAB = [(''a'', [(''c1'', approvedWork ''a'')]), (''b'', [(''c1'', approvedWork ''b'')])]"

text \<open>
  Four users and their work items, seen at the clock reading 1700000100000. Ann has an
  approved item of the last day, a pending one, an approved one that is two days old and
  an approved one dated two minutes ahead; Bob has one approved item of the last day,
  Cy two, and Dee a rejected one.
\<close>

definition usersABCD :: "(string \<times> UserProfile) list" where
  "usersABCD =
     [(''a'', userA), (''b'', userB), (''c'', userA\<lparr>fullName := Some ''Cy''\<rparr>),
      (''d'', userA\<lparr>fullName := Some ''Dee''\<rparr>)]"

definition worksABCD :: "(string \<times> (string \<times> Work) list) list" where
  "worksABCD =
     [(''a'', [(''c1'', approvedWork ''a''),
               (''c2'', newWork ''c2'' ''a'' ''Worker'' 50 1700000002000),
               (''c3'', (approvedWork ''a'')\<lparr>submittedAt := 1699827300000\<rparr>),
               (''c4'', (approvedWork ''a'')\<lparr>submittedAt := 1700000220000\<rparr>)]),
      (''b'', [(''c1'', approvedWork ''b'')]),
      (''c'', [(''c1'', approvedWork ''c''),
               (''c2'', (approvedWork ''c'')\<lparr>submittedAt := 1700000050000\<rparr>)]),
      (''d'', [(''c1'', (approvedWork ''d'')\<lparr>work_status := ''rejected''\<rparr>)])]"

text \<open>A user whose identifier is the name of a method of every object.\<close>

definition usersCtor :: "(string \<times> UserProfile) list" where
  "usersCtor = [(''constructor'', userA)]"

definition worksCtor :: "nat \<Rightarrow> (string \<times> (string \<times> Work) list) list" where
  "worksCtor n =
     [(''constructor'', map (\<lambda>i. (replicate (Suc i) CHR ''w'', approvedWork ''constructor'')) [0..<n])]"

definition users51 :: "(string \<times> UserProfile) list" where
  "users51 = map (\<lambda>i. (replicate (Suc i) CHR ''u'', user0)) [0..<51]"

chapter \<open>Properties\<close>

section \<open>JavaScript numbers\<close>

text \<open>
  \<open>k\<close> doublings bring a real below \<open>2 ^ 52\<close> into the range of the significands;
  this gives \<open>to_double\<close> on a positive real whose binade is known.
\<close>

lemma normalise_down:
  "k \<le> n \<Longrightarrow> 4503599627370496 \<le> m * 2 ^ k \<Longrightarrow> m * 2 ^ k < 9007199254740992 \<Longrightarrow>
   - 1074 \<le> e - int k \<Longrightarrow> normalise n m e = (m * 2 ^ k, e - int k)"
proof (induction k arbitrary: n m e)
  case 0
  then show ?case by (cases n) auto
next
  case (Suc k)
  then obtain n' where n: "n = Suc n'" by (cases n) auto
  have pos: "0 < m"
  proof (rule ccontr)
    assume "\<not> 0 < m"
    then have "m * 2 ^ Suc k \<le> 0" by (simp add: mult_nonpos_nonneg)
    with Suc.prems(2) show False by simp
  qed
  have "(1::real) \<le> 2 ^ k" by simp
  then have "(m * 2) * 1 \<le> (m * 2) * 2 ^ k" using pos by (intro mult_left_mono) simp_all
  then have "m * 2 \<le> m * 2 ^ Suc k" by (simp add: mult.assoc)
  with Suc.prems(3) have small: "m < 4503599627370496" by simp
  have e: "- 1074 < e" using Suc.prems(4) by simp
  have "normalise n' (m * 2) (e - 1) = (m * 2 * 2 ^ k, e - 1 - int k)"
    using Suc.prems n by (intro Suc.IH) (auto simp: mult.assoc)
  with small e show ?case by (simp add: n mult.assoc)
qed

lemma to_double_eval:
  assumes "0 < x" "k \<le> 1074" "4503599627370496 \<le> x * 2 ^ k" "x * 2 ^ k < 9007199254740992"
  shows "to_double x = of_int (roundTiesToEven (x * 2 ^ k)) / 2 ^ k"
proof -
  have "normalise 2200 \<bar>x\<bar> 0 = (\<bar>x\<bar> * 2 ^ k, 0 - int k)"
    using assms by (intro normalise_down) simp_all
  then show ?thesis using assms(1)
    by (simp add: to_double_def power_int_minus divide_inverse)
qed

lemma to_double_minus: "to_double (- x) = - to_double x"
  by (simp add: to_double_def split: prod.splits)

lemma roundTiesToEven_of_int: "roundTiesToEven (of_int z) = z"
  by (simp add: roundTiesToEven_def)

lemma roundTiesToEven_nonneg: "0 \<le> x \<Longrightarrow> 0 \<le> roundTiesToEven x"
  by (simp add: roundTiesToEven_def Let_def)

lemma normalise_nonneg: "0 \<le> m \<Longrightarrow> 0 \<le> fst (normalise n m e)"
  by (induction n arbitrary: m e) simp_all

lemma to_double_nonneg:
  assumes "0 \<le> x"
  shows "0 \<le> to_double x"
proof (cases "x = 0")
  case True
  then show ?thesis by (simp add: to_double_def)
next
  case False
  obtain m e where me: "normalise 2200 x 0 = (m, e)" by (cases "normalise 2200 x 0")
  have "0 \<le> fst (normalise 2200 x 0)" using assms by (rule normalise_nonneg)
  then have "0 \<le> m" by (simp add: me)
  then have "0 \<le> roundTiesToEven m" by (rule roundTiesToEven_nonneg)
  then have "0 \<le> real_of_int (roundTiesToEven m) * 2 powi e" by simp
  with assms False show ?thesis by (simp add: to_double_def me)
qed

lemma js_add_nonneg: "0 \<le> a \<Longrightarrow> 0 \<le> b \<Longrightarrow> \<not> js_add a b < 0"
  using to_double_nonneg [of "a + b"] by (simp add: js_add_def not_less)

text \<open>The whole numbers below \<open>2 ^ 53\<close> are doubles.\<close>

lemma binade_exists:
  assumes "1 \<le> x" "x < 9007199254740992"
  shows "\<exists>k \<le> 52. 4503599627370496 \<le> x * 2 ^ k \<and> x * 2 ^ k < (9007199254740992::real)"
proof -
  define P where "P k \<longleftrightarrow> 4503599627370496 \<le> x * 2 ^ k" for k :: nat
  have "(4503599627370496::real) = 1 * 2 ^ 52" by simp
  also have "\<dots> \<le> x * 2 ^ 52" using assms(1) by (intro mult_right_mono) simp_all
  finally have P52: "P 52" by (simp add: P_def)
  define k where "k = (LEAST k. P k)"
  have Pk: "P k" unfolding k_def using P52 by (rule LeastI)
  have k52: "k \<le> 52" unfolding k_def using P52 by (rule Least_le)
  have "x * 2 ^ k < 9007199254740992"
  proof (cases k)
    case 0
    then show ?thesis using assms(2) by simp
  next
    case (Suc j)
    have "\<not> P j" unfolding k_def [symmetric] using not_less_Least [of j P] Suc k_def by simp
    then have "x * 2 ^ j < 4503599627370496" by (simp add: P_def)
    then show ?thesis by (simp add: Suc)
  qed
  with Pk k52 show ?thesis unfolding P_def by blast
qed

lemma to_double_of_int_pos:
  assumes "0 < n" "n < 9007199254740992"
  shows "to_double (of_int n) = of_int n"
proof -
  have "1 \<le> (of_int n :: real)" "(of_int n :: real) < 9007199254740992" using assms by simp_all
  from binade_exists [OF this] obtain k where k: "k \<le> 52"
    "4503599627370496 \<le> (of_int n :: real) * 2 ^ k" "(of_int n :: real) * 2 ^ k < 9007199254740992"
    by blast
  have "(of_int n :: real) * 2 ^ k = of_int (n * 2 ^ k)" by simp
  then have "roundTiesToEven (of_int n * 2 ^ k) = n * 2 ^ k"
    by (simp only: roundTiesToEven_of_int)
  moreover have "to_double (of_int n) = of_int (roundTiesToEven (of_int n * 2 ^ k)) / 2 ^ k"
    using assms k by (intro to_double_eval) simp_all
  ultimately show ?thesis by simp
qed

lemma to_double_of_int:
  assumes "\<bar>n\<bar> < 9007199254740992"
  shows "to_double (of_int n) = of_int n"
proof -
  consider "n = 0" | "0 < n" | "n < 0" by linarith
  then show ?thesis
  proof cases
    case 1
    then show ?thesis by (simp add: to_double_def)
  next
    case 2
    with assms show ?thesis by (simp add: to_double_of_int_pos)
  next
    case 3
    with assms have "to_double (of_int (- n)) = of_int (- n)"
      by (intro to_double_of_int_pos) simp_all
    then show ?thesis using to_double_minus [of "of_int n"] by simp
  qed
qed

text \<open>
  The doubles of the examples: \<open>0.9 - 0.2\<close> is the double \<open>0.7\<close>, and \<open>0.7 + 0.2\<close> is
  \<open>0.8999999999999999\<close>, one unit in the last place below \<open>0.9\<close>; \<open>0.1 + 0.2\<close> is
  \<open>0.30000000000000004\<close>.
\<close>

lemma d0_9_value: "d0_9 = 8106479329266893 / 9007199254740992"
  unfolding d0_9_def by (simp add: to_double_eval [of _ 53] roundTiesToEven_def)

lemma d0_2_value: "d0_2 = 3602879701896397 / 18014398509481984"
  unfolding d0_2_def by (simp add: to_double_eval [of _ 55] roundTiesToEven_def)

lemma d0_1_value: "d0_1 = 3602879701896397 / 36028797018963968"
  unfolding d0_1_def by (simp add: to_double_eval [of _ 56] roundTiesToEven_def)

lemma js_sub_09_02:
  "js_sub (8106479329266893 / 9007199254740992) (3602879701896397 / 18014398509481984)
     = 3152519739159347 / 4503599627370496"
  unfolding js_sub_def by (simp add: to_double_eval [of _ 53] roundTiesToEven_def)

lemma js_add_07_02:
  "js_add (3152519739159347 / 4503599627370496) (3602879701896397 / 18014398509481984)
     = 2026619832316723 / 2251799813685248"
  unfolding js_add_def by (simp add: to_double_eval [of _ 53] roundTiesToEven_def)

lemma js_add_01_02:
  "js_add (3602879701896397 / 36028797018963968) (3602879701896397 / 18014398509481984)
     = 1351079888211149 / 4503599627370496"
  unfolding js_add_def by (simp add: to_double_eval [of _ 54] roundTiesToEven_def)

lemma to_double_whole: "to_double 1050 = 1050" "to_double 70 = 70" "to_double 4 = 4"
  using to_double_of_int [of 1050] to_double_of_int [of 70] to_double_of_int [of 4] by simp_all

section \<open>The read cache\<close>

lemma cache_set_cache_lookup:
  "map_of (cache (set_cache c key d now1 now2)) key
     = Some \<lparr>data = d, timestamp = now1, expiry = now2 + CACHE_DURATION\<rparr>"
  by (simp add: set_cache_def Let_def update_conv')

lemma cache_set_cache_p1_lookup:
  "map_of (cache (set_cache_p1 c key d now1 now2)) key
     = Some \<lparr>data = d, timestamp = now1, expiry = now2 + CACHE_DURATION\<rparr>"
  by (simp add: set_cache_p1_def Let_def update_conv')

lemma get_fresh:
  "map_of (cache c) key = Some e \<Longrightarrow> now \<le> expiry e \<Longrightarrow> get c key now = (Some (data e), c)"
  by (simp add: get_def)

lemma get_stale:
  "map_of (cache c) key = Some e \<Longrightarrow> expiry e < now \<Longrightarrow>
   get c key now = (None, c\<lparr>cache := AList.delete key (cache c)\<rparr>)"
  by (simp add: get_def)

lemma get_absent:
  "map_of (cache c) key = None \<Longrightarrow> get c key now = (None, c)"
  by (simp add: get_def)

text \<open>
  Claim C7, as amended. A \<open>get(key)\<close> that follows \<open>set(key, value)\<close> returns the
  value while at most \<open>CACHE_DURATION\<close> = 300000 ms (five minutes) have gone by since
  \<open>set\<close> read the clock for the expiry: the test of \<open>get\<close> is
  \<open>Date.now() > entry.expiry\<close>, so the entry is still served at the instant of
  expiry. Once more than five minutes have gone by, the same \<open>get\<close> returns \<open>null\<close>
  and deletes the entry, so the key is absent afterwards. A key that is not in the
  cache gives \<open>null\<close> and leaves the cache as it is. This holds for the \<open>set\<close> of
  both copies.
\<close>

theorem cache_set_get_roundtrip_ttl:
  fixes c :: "('a, 'p) DataCache"
  assumes c': "c' = set_cache c key v now1 now2 \<or> c' = set_cache_p1 c key v now1 now2"
  shows
  "(now - now2 \<le> CACHE_DURATION \<longrightarrow> get c' key now = (Some v, c')) \<and>
   (now - now2 > CACHE_DURATION \<longrightarrow>
      fst (get c' key now) = None \<and>
      map_of (cache (snd (get c' key now))) key = None \<and>
      snd (get c' key now) = c'\<lparr>cache := AList.delete key (cache c')\<rparr>) \<and>
   (map_of (cache c) key = None \<longrightarrow> get c key now = (None, c))"
proof -
  let ?e = "\<lparr>data = v, timestamp = now1, expiry = now2 + CACHE_DURATION\<rparr>"
  from c' have look: "map_of (cache c') key = Some ?e"
    using cache_set_cache_lookup [of c key v now1 now2]
      cache_set_cache_p1_lookup [of c key v now1 now2] by auto
  have fresh: "get c' key now = (Some v, c')" if "now - now2 \<le> CACHE_DURATION"
  proof -
    from that have "now \<le> expiry ?e" by simp
    from get_fresh [OF look this] show ?thesis by simp
  qed
  have stale: "get c' key now = (None, c'\<lparr>cache := AList.delete key (cache c')\<rparr>)"
    if "now - now2 > CACHE_DURATION"
  proof -
    from that have "expiry ?e < now" by simp
    from get_stale [OF look this] show ?thesis .
  qed
  show ?thesis
    using fresh stale get_absent [of c key now] by (simp add: delete_conv')
qed

theorem cache_set_get_roundtrip_ttl_witness:
  "get (set_cache (newDataCache :: (nat, nat) DataCache) ''user:u1'' 7 1000 1000) ''user:u1'' 300999
     = (Some 7, set_cache newDataCache ''user:u1'' 7 1000 1000) \<and>
   get (set_cache_p1 (newDataCache :: (nat, nat) DataCache) ''user:u1'' 7 1000 1000) ''user:u1'' 301000
     = (Some 7, set_cache_p1 newDataCache ''user:u1'' 7 1000 1000) \<and>
   fst (get (set_cache_p1 (newDataCache :: (nat, nat) DataCache) ''user:u1'' 7 1000 1000)
          ''user:u1'' 301001) = None \<and>
   map_of (cache (snd (get (set_cache (newDataCache :: (nat, nat) DataCache) ''user:u1'' 7 1000 1000)
          ''user:u1'' 301001))) ''user:u1'' = None \<and>
   get (newDataCache :: (nat, nat) DataCache) ''user:u1'' 5 = (None, newDataCache)"
  using
    cache_set_get_roundtrip_ttl [of "set_cache newDataCache ''user:u1'' 7 1000 1000"
      "newDataCache :: (nat, nat) DataCache" "''user:u1''" 7 1000 1000 300999]
    cache_set_get_roundtrip_ttl [of "set_cache_p1 newDataCache ''user:u1'' 7 1000 1000"
      "newDataCache :: (nat, nat) DataCache" "''user:u1''" 7 1000 1000 301000]
    cache_set_get_roundtrip_ttl [of "set_cache_p1 newDataCache ''user:u1'' 7 1000 1000"
      "newDataCache :: (nat, nat) DataCache" "''user:u1''" 7 1000 1000 301001]
    cache_set_get_roundtrip_ttl [of "set_cache newDataCache ''user:u1'' 7 1000 1000"
      "newDataCache :: (nat, nat) DataCache" "''user:u1''" 7 1000 1000 301001]
    cache_set_get_roundtrip_ttl [of "set_cache newDataCache ''user:u1'' 7 1000 1000"
      "newDataCache :: (nat, nat) DataCache" "''user:u1''" 7 1000 1000 5]
  by (simp add: CACHE_DURATION_def newDataCache_def delete_conv')

text \<open>
  The claim as it was stated gives \<open>null\<close> once the five minutes have elapsed. An entry
  written at the clock reading 1000 expires at 301000; a \<open>get\<close> at 301000, five minutes
  after the \<open>set\<close>, still returns the value, in both copies.
\<close>

theorem cache_set_get_roundtrip_ttl_counterexample:
  "301000 - 1000 = CACHE_DURATION \<and>
   fst (get (set_cache (newDataCache :: (nat, nat) DataCache) ''user:u1'' 7 1000 1000)
          ''user:u1'' 301000) = Some 7 \<and>
   fst (get (set_cache_p1 (newDataCache :: (nat, nat) DataCache) ''user:u1'' 7 1000 1000)
          ''user:u1'' 301000) = Some 7"
  by (simp add: get_def set_cache_def set_cache_p1_def newDataCache_def CACHE_DURATION_def
        MAX_CACHE_SIZE_def)

section \<open>Campaign budget deduction\<close>

lemma campaignDeductUpdate_Some:
  "campaignDeductUpdate vc amount (Some c) = Some c' \<Longrightarrow>
   c' = c\<lparr>remainingBudget := js_sub (remainingBudget c) amount\<rparr> \<and> vc c \<and> vc c' \<and>
   amount \<le> remainingBudget c"
  by (auto simp: campaignDeductUpdate_def Let_def split: if_splits)

lemma rollbackCampaignBudget_writes:
  "rollbackCampaignBudget (s\<lparr>campaigns := (campaigns s)(campaignId \<mapsto> c')\<rparr>) campaignId c' amount
     = s\<lparr>campaigns := (campaigns s)
            (campaignId \<mapsto> c'\<lparr>remainingBudget := js_add (remainingBudget c') amount\<rparr>)\<rparr>"
  by (simp add: rollbackCampaignBudget_def update_campaign_def)

text \<open>
  What the operation leaves when the campaign transaction commits and the wallet
  transaction does not: it returns \<open>false\<close>, and the budget of the campaign is the
  double sum of the decremented budget and the amount.
\<close>

lemma deductCampaignBudget_rolled_back:
  assumes camp: "campaigns s campaignId = Some c" "creatorId c = uid"
    and amt: "0 < amount" "amount \<le> 10000000"
    and r: "r = js_add (js_sub (remainingBudget c) amount) amount"
  shows
  "(campaignId \<noteq> [] \<and> uid \<noteq> [] \<and> \<not> denied V s currentUserId uid None \<and>
    validateCampaignData V c \<and>
    campaignDeductUpdate (validateCampaignData V) amount (campaigns s campaignId) = Some c' \<and>
    walletDeductUpdate (validateWalletData V) amount (wallets s uid) = None
    \<longrightarrow> deductCampaignBudget V s campaignId amount uid currentUserId
          = (Inr False, s\<lparr>campaigns := (campaigns s)(campaignId \<mapsto> c\<lparr>remainingBudget := r\<rparr>)\<rparr>)) \<and>
   (campaignId \<noteq> [] \<and> \<not> denied_p1 s currentUserId uid None \<and>
    validateCampaignData_p1 c \<and>
    campaignDeductUpdate validateCampaignData_p1 amount (campaigns s campaignId) = Some c'' \<and>
    walletDeductUpdate validateWalletData_p1 amount (wallets s uid) = None
    \<longrightarrow> deductCampaignBudget_p1 s campaignId amount uid currentUserId
          = (Inr False, s\<lparr>campaigns := (campaigns s)(campaignId \<mapsto> c\<lparr>remainingBudget := r\<rparr>)\<rparr>))"
proof (intro conjI impI)
  assume h: "campaignId \<noteq> [] \<and> uid \<noteq> [] \<and> \<not> denied V s currentUserId uid None \<and>
    validateCampaignData V c \<and>
    campaignDeductUpdate (validateCampaignData V) amount (campaigns s campaignId) = Some c' \<and>
    walletDeductUpdate (validateWalletData V) amount (wallets s uid) = None"
  then have c': "c' = c\<lparr>remainingBudget := js_sub (remainingBudget c) amount\<rparr>"
    using campaignDeductUpdate_Some [of "validateCampaignData V" amount c c'] camp by simp
  have inner: "deductCampaignBudget_try V s campaignId amount uid
      = (Inr False, s\<lparr>campaigns := (campaigns s)(campaignId \<mapsto> c\<lparr>remainingBudget := r\<rparr>)\<rparr>)"
    using h camp
    by (simp add: deductCampaignBudget_try_def runTransaction_def rollbackCampaignBudget_writes c' r)
  show "deductCampaignBudget V s campaignId amount uid currentUserId
          = (Inr False, s\<lparr>campaigns := (campaigns s)(campaignId \<mapsto> c\<lparr>remainingBudget := r\<rparr>)\<rparr>)"
    using h amt by (simp add: deductCampaignBudget_def inner rethrow_def)
next
  assume h: "campaignId \<noteq> [] \<and> \<not> denied_p1 s currentUserId uid None \<and>
    validateCampaignData_p1 c \<and>
    campaignDeductUpdate validateCampaignData_p1 amount (campaigns s campaignId) = Some c'' \<and>
    walletDeductUpdate validateWalletData_p1 amount (wallets s uid) = None"
  then have c'': "c'' = c\<lparr>remainingBudget := js_sub (remainingBudget c) amount\<rparr>"
    using campaignDeductUpdate_Some [of validateCampaignData_p1 amount c c''] camp by simp
  show "deductCampaignBudget_p1 s campaignId amount uid currentUserId
          = (Inr False, s\<lparr>campaigns := (campaigns s)(campaignId \<mapsto> c\<lparr>remainingBudget := r\<rparr>)\<rparr>)"
    using h amt camp
    by (simp add: deductCampaignBudget_p1_def runTransaction_def rollbackCampaignBudget_writes c'' r)
qed

text \<open>
  The budget is the old one, and the store unchanged, when the budget is a double and
  the subtraction is exact, as it is for whole amounts.
\<close>

lemma rollback_restores_if_exact:
  assumes "campaigns s campaignId = Some c"
    and "to_double (remainingBudget c) = remainingBudget c"
    and "js_sub (remainingBudget c) amount = remainingBudget c - amount"
  shows "s\<lparr>campaigns := (campaigns s)
            (campaignId \<mapsto> c\<lparr>remainingBudget := js_add (js_sub (remainingBudget c) amount) amount\<rparr>)\<rparr>
         = s"
proof -
  have "js_add (js_sub (remainingBudget c) amount) amount = remainingBudget c"
    using assms(2,3) by (simp add: js_add_def)
  then have "c\<lparr>remainingBudget := js_add (js_sub (remainingBudget c) amount) amount\<rparr> = c"
    by simp
  then show ?thesis using assms(1) by (simp add: fun_upd_idem)
qed

text \<open>
  Claim C1 says that, when the campaign transaction has committed and the wallet
  transaction has not, the operation writes \<open>remainingBudget\<close> back to the value it had
  before, so that the campaign is unchanged. The operation has no copy of that value:
  it writes the committed budget plus the amount, \<open>(remainingBudget - amount) +
  amount\<close>, computed in doubles, and that need not be \<open>remainingBudget\<close>.

  The campaign of \<open>store09\<close> has 0.9 left, and its creator has 0.1 in the wallet. A
  deduction of 0.2 commits the budget 0.7 and fails on the wallet. The rollback writes
  \<open>0.7 + 0.2\<close>, which is 0.8999999999999999: the operation returns \<open>false\<close> and leaves
  the campaign with less than it had. This is so in both copies.
\<close>

theorem deductCampaignBudget_rollback_rounds:
  "map_option remainingBudget (campaigns store09 ''c1'') = Some d0_9 \<and>
   d0_9 = 8106479329266893 / 9007199254740992 \<and>
   fst (deductCampaignBudget validation_p1 store09 ''c1'' d0_2 ''u1'' None) = Inr False \<and>
   map_option remainingBudget
     (campaigns (snd (deductCampaignBudget validation_p1 store09 ''c1'' d0_2 ''u1'' None)) ''c1'')
     = Some (2026619832316723 / 2251799813685248) \<and>
   snd (deductCampaignBudget validation_p1 store09 ''c1'' d0_2 ''u1'' None) \<noteq> store09 \<and>
   fst (deductCampaignBudget_p1 store09 ''c1'' d0_2 ''u1'' None) = Inr False \<and>
   map_option remainingBudget
     (campaigns (snd (deductCampaignBudget_p1 store09 ''c1'' d0_2 ''u1'' None)) ''c1'')
     = Some (2026619832316723 / 2251799813685248) \<and>
   snd (deductCampaignBudget_p1 store09 ''c1'' d0_2 ''u1'' None) \<noteq> store09"
proof -
  have camp: "campaignDeductUpdate validateCampaignData_p1 d0_2 (Some campaign09)
      = Some (campaign09\<lparr>remainingBudget := 3152519739159347 / 4503599627370496\<rparr>)"
    by (simp add: campaignDeductUpdate_def campaign09_def validateCampaignData_p1_def Let_def
          d0_9_value d0_2_value js_sub_09_02)
  have wallet: "walletDeductUpdate validateWalletData_p1 d0_2 (wallets store09 ''u1'') = None"
    by (simp add: walletDeductUpdate_def store09_def orDefault_def Let_def d0_1_value d0_2_value)
  have valid: "validateCampaignData_p1 campaign09"
    by (simp add: campaign09_def validateCampaignData_p1_def d0_9_value)
  have r: "js_add (js_sub (remainingBudget campaign09) d0_2) d0_2 = 2026619832316723 / 2251799813685248"
    by (simp add: campaign09_def d0_9_value d0_2_value js_sub_09_02 js_add_07_02)
  have look: "campaigns store09 ''c1'' = Some campaign09" by (simp add: store09_def)
  have owner: "creatorId campaign09 = ''u1''" by (simp add: campaign09_def)
  have amt: "0 < d0_2" "d0_2 \<le> 10000000" by (simp_all add: d0_2_value)
  let ?s' = "store09\<lparr>campaigns := (campaigns store09)
               (''c1'' \<mapsto> campaign09\<lparr>remainingBudget := 2026619832316723 / 2251799813685248\<rparr>)\<rparr>"
  from deductCampaignBudget_rolled_back
    [OF look owner amt r [symmetric], of validation_p1 None
       "campaign09\<lparr>remainingBudget := 3152519739159347 / 4503599627370496\<rparr>"
       "campaign09\<lparr>remainingBudget := 3152519739159347 / 4503599627370496\<rparr>"]
  have res: "deductCampaignBudget validation_p1 store09 ''c1'' d0_2 ''u1'' None = (Inr False, ?s')"
    "deductCampaignBudget_p1 store09 ''c1'' d0_2 ''u1'' None = (Inr False, ?s')"
    using camp wallet valid look
    by (simp_all add: validation_p1_def denied_def denied_p1_def)
  have before: "map_option remainingBudget (campaigns store09 ''c1'') = Some d0_9"
    by (simp add: store09_def campaign09_def)
  have after: "map_option remainingBudget (campaigns ?s' ''c1'')
      = Some (2026619832316723 / 2251799813685248)"
    by simp
  have "map_option remainingBudget (campaigns ?s' ''c1'')
      \<noteq> map_option remainingBudget (campaigns store09 ''c1'')"
    unfolding after before by (simp add: d0_9_value)
  then have changed: "?s' \<noteq> store09" by metis
  show ?thesis
    unfolding res using before after changed d0_9_value by simp
qed

section \<open>Money requests\<close>

lemma processMoneyRequest_try_mismatch:
  assumes "requestAt s type requestId = Some r" "request_status r = ''pending''"
    "requestMismatch r type userId amount"
  shows "processMoneyRequest_try V s requestId type userId amount status
           = (Inl (Error ''Request data does not match provided parameters''), s)"
  using assms by (simp add: processMoneyRequest_try_def)

text \<open>
  Claim C3, as amended. Let the request stored under the caller's \<open>type\<close> and
  \<open>requestId\<close> be pending, and let its amount, type or user differ from the
  arguments. Then \<open>processMoneyRequest\<close> throws and the store it leaves is the store
  it started from: neither the request nor any wallet is written. When the call passes
  the checks that come before the comparison (the argument checks, the admin
  authorization, the range of the amount), the error of \<^verbatim>\<open>unnamed/part_001\<close> is
  \<open>Request data does not match provided parameters\<close>; in \<^verbatim>\<open>data-cache.ts\<close> that
  error is thrown inside \<open>try\<close>, caught, and replaced by
  \<open>Failed to process money request. Please try again later.\<close>, which is what the
  caller sees. When an earlier check fails, its error is thrown instead.
\<close>

theorem processMoneyRequest_mismatch:
  assumes req: "requestAt s type requestId = Some r" "request_status r = ''pending''"
    and mis: "requestMismatch r type userId amount"
  shows
  "snd (processMoneyRequest V s requestId type userId amount status adminId) = s \<and>
   isl (fst (processMoneyRequest V s requestId type userId amount status adminId)) \<and>
   (requestId \<noteq> [] \<and> type \<in> {''add_money'', ''withdrawal''} \<and> userId \<noteq> [] \<and>
    status \<in> {''approved'', ''rejected''} \<and>
    \<not> denied V s adminId userId (Some ''admin'') \<and> \<not> amountOutOfRange type amount
    \<longrightarrow> fst (processMoneyRequest V s requestId type userId amount status adminId)
          = Inl (Error ''Failed to process money request. Please try again later.'')) \<and>
   snd (processMoneyRequest_p1 s requestId type userId amount status adminId) = s \<and>
   isl (fst (processMoneyRequest_p1 s requestId type userId amount status adminId)) \<and>
   (\<not> denied_p1 s adminId userId (Some ''admin'') \<and> \<not> amountOutOfRange type amount
    \<longrightarrow> fst (processMoneyRequest_p1 s requestId type userId amount status adminId)
          = Inl (Error ''Request data does not match provided parameters''))"
proof -
  note inner = processMoneyRequest_try_mismatch [OF req mis, of V status]
  have dc: "snd (processMoneyRequest V s requestId type userId amount status adminId) = s \<and>
    isl (fst (processMoneyRequest V s requestId type userId amount status adminId))"
    unfolding processMoneyRequest_def inner rethrow_def by simp
  have dc_err: "fst (processMoneyRequest V s requestId type userId amount status adminId)
          = Inl (Error ''Failed to process money request. Please try again later.'')"
    if "requestId \<noteq> [] \<and> type \<in> {''add_money'', ''withdrawal''} \<and> userId \<noteq> [] \<and>
        status \<in> {''approved'', ''rejected''} \<and>
        \<not> denied V s adminId userId (Some ''admin'') \<and> \<not> amountOutOfRange type amount"
  proof -
    from that have "0 < amount" by (auto simp: amountOutOfRange_def)
    with that show ?thesis
      unfolding processMoneyRequest_def inner rethrow_def by simp
  qed
  have p1: "snd (processMoneyRequest_p1 s requestId type userId amount status adminId) = s \<and>
    isl (fst (processMoneyRequest_p1 s requestId type userId amount status adminId))"
    using req mis by (simp add: processMoneyRequest_p1_def)
  have p1_err: "fst (processMoneyRequest_p1 s requestId type userId amount status adminId)
          = Inl (Error ''Request data does not match provided parameters'')"
    if "\<not> denied_p1 s adminId userId (Some ''admin'') \<and> \<not> amountOutOfRange type amount"
    using that req mis by (simp add: processMoneyRequest_p1_def)
  show ?thesis using dc dc_err p1 p1_err by blast
qed

lemma store1_request: "requestAt store1 ''add_money'' ''r1'' = Some request0"
  by (simp add: requestAt_def store1_def)

theorem processMoneyRequest_mismatch_witness:
  "processMoneyRequest validation_p1 store1 ''r1'' ''add_money'' ''u1'' 60 ''approved'' None
     = (Inl (Error ''Failed to process money request. Please try again later.''), store1) \<and>
   processMoneyRequest_p1 store1 ''r1'' ''add_money'' ''u1'' 60 ''approved'' None
     = (Inl (Error ''Request data does not match provided parameters''), store1)"
  using processMoneyRequest_mismatch
    [where s = store1 and type = "''add_money''" and requestId = "''r1''" and r = request0
       and userId = "''u1''" and amount = 60 and V = validation_p1 and status = "''approved''"
       and adminId = None]
  by (simp add: store1_request request0_def requestMismatch_def denied_def denied_p1_def
        amountOutOfRange_def prod_eq_iff)

text \<open>
  The claim as it was stated fails in two ways. On a pending request of 50 the call
  of \<^verbatim>\<open>data-cache.ts\<close> with amount 60 throws the generic error of its \<open>catch\<close> block,
  not the data-mismatch error; and the call of \<^verbatim>\<open>unnamed/part_001\<close> with amount 5,
  which also differs from the stored 50, throws the range error of the amount check.
\<close>

theorem processMoneyRequest_mismatch_counterexample:
  "requestAt store1 ''add_money'' ''r1'' = Some request0 \<and>
   request_status request0 = ''pending'' \<and>
   request_amount request0 \<noteq> 60 \<and>
   fst (processMoneyRequest validation_p1 store1 ''r1'' ''add_money'' ''u1'' 60 ''approved'' None)
     \<noteq> Inl (Error ''Request data does not match provided parameters'') \<and>
   request_amount request0 \<noteq> 5 \<and>
   fst (processMoneyRequest_p1 store1 ''r1'' ''add_money'' ''u1'' 5 ''approved'' None)
     \<noteq> Inl (Error ''Request data does not match provided parameters'')"
  by (simp add: store1_request request0_def processMoneyRequest_def processMoneyRequest_p1_def
        processMoneyRequest_try_def requestMismatch_def denied_def denied_p1_def
        amountOutOfRange_def rethrow_def)

section \<open>Work approval\<close>

lemma walletCreditUpdate_eq:
  "walletCreditUpdate vw rew cur =
     (if vw (Some (raw_of ((orDefault cur)\<lparr>earnedBalance := js_add (earnedBalance (orDefault cur)) rew\<rparr>)))
      then Some ((orDefault cur)\<lparr>earnedBalance := js_add (earnedBalance (orDefault cur)) rew\<rparr>)
      else None)"
  by (simp add: walletCreditUpdate_def Let_def)

lemma credited_wallet:
  "(orDefault cur)\<lparr>earnedBalance := js_add (earnedBalance (orDefault cur)) rew\<rparr> =
     (case cur of
        None \<Rightarrow> \<lparr>earnedBalance = to_double rew, addedBalance = 0, pendingAddMoney = 0,
                  totalWithdrawn = 0\<rparr>
      | Some old \<Rightarrow> old\<lparr>earnedBalance := to_double (earnedBalance old + rew)\<rparr>)"
  by (simp add: orDefault_def defaultBalance_def js_add_def split: option.splits)

lemma approveWorkAndCredit_try_success:
  assumes "works s (userId, workId) = Some w" "work_status w = ''pending''" "validateWorkData V w"
    and "walletCreditUpdate (validateWalletData V) rew (wallets s userId) = Some b"
    and "users s userId = Some u"
    and "\<not> js_add (orZero (earnedMoney u)) rew < 0" "\<not> js_add (orZero (approvedWorks u)) 1 < 0"
  shows "approveWorkAndCredit_try V s workId userId rew
           = (Inr True,
              s\<lparr>works := (works s)((userId, workId) \<mapsto> w\<lparr>work_status := ''approved''\<rparr>),
                wallets := (wallets s)(userId \<mapsto> b),
                users := (users s)(userId \<mapsto>
                  u\<lparr>earnedMoney := Some (js_add (orZero (earnedMoney u)) rew),
                    approvedWorks := Some (js_add (orZero (approvedWorks u)) 1)\<rparr>)\<rparr>)"
  using assms
  by (simp add: approveWorkAndCredit_try_def runTransaction_def workApproveUpdate_def
        creditUserProfile_def update_user_def Let_def)

text \<open>
  Claim C4, as amended. Let the work item stored at \<open>works/{userId}/{workId}\<close> be
  pending, let the reward argument lie in (0, 10000], and let the user have a profile
  whose counters \<open>earnedMoney\<close> and \<open>approvedWorks\<close> (0 when missing) do not become
  negative by the credit. When every step succeeds, that is: the identifiers are not empty, the admin check does
  not refuse, the stored work item is valid and the validator accepts the credited
  wallet, then \<open>approveWorkAndCredit\<close> returns \<open>true\<close> and leaves the store \<open>s'\<close>:

  \<^item> the work item has status \<open>approved\<close>;
  \<^item> the wallet of the user is the wallet \<open>b\<close>: the stored wallet with
    \<open>earnedBalance\<close> replaced by the double nearest to the stored \<open>earnedBalance\<close> plus
    the reward, its three other fields unchanged; for a user without wallet, a wallet
    with the reward as \<open>earnedBalance\<close> and 0 elsewhere;
  \<^item> the profile has \<open>earnedMoney\<close> replaced by the double nearest to the counter plus
    the reward, and \<open>approvedWorks\<close> by the double nearest to the counter plus 1;
  \<^item> every other document is as before.

  The double nearest to a whole number below \<open>2 ^ 53\<close> is that number: when the
  balances, the counters and the reward are whole, the wallet gains exactly the reward
  and \<open>approvedWorks\<close> exactly 1. This holds for both copies.
\<close>

theorem approveWorkAndCredit_success:
  assumes work: "works s (userId, workId) = Some w" "work_status w = ''pending''"
    and rew: "0 < rew" "rew \<le> 10000"
    and user: "users s userId = Some u"
    and em: "em = (case earnedMoney u of None \<Rightarrow> 0 | Some x \<Rightarrow> x)" "0 \<le> em + rew"
    and aw: "aw = (case approvedWorks u of None \<Rightarrow> 0 | Some x \<Rightarrow> x)" "0 \<le> aw + 1"
    and old: "old = (case wallets s userId of None \<Rightarrow> 0 | Some stored \<Rightarrow> earnedBalance stored)"
    and b: "b = (case wallets s userId of
                   None \<Rightarrow> \<lparr>earnedBalance = to_double rew, addedBalance = 0,
                             pendingAddMoney = 0, totalWithdrawn = 0\<rparr>
                 | Some stored \<Rightarrow> stored\<lparr>earnedBalance := to_double (earnedBalance stored + rew)\<rparr>)"
    and s': "s' = s\<lparr>works := (works s)((userId, workId) \<mapsto> w\<lparr>work_status := ''approved''\<rparr>),
                    wallets := (wallets s)(userId \<mapsto> b),
                    users := (users s)(userId \<mapsto>
                      u\<lparr>earnedMoney := Some (to_double (em + rew)),
                        approvedWorks := Some (to_double (aw + 1))\<rparr>)\<rparr>"
  shows
  "(workId \<noteq> [] \<and> userId \<noteq> [] \<and> campaignId \<noteq> [] \<and>
    \<not> denied V s adminId userId (Some ''admin'') \<and> validateWorkData V w \<and>
    validateWalletData V (Some (raw_of b))
    \<longrightarrow> approveWorkAndCredit V s workId userId campaignId rew adminId = (Inr True, s')) \<and>
   (workId \<noteq> [] \<and> userId \<noteq> [] \<and>
    \<not> denied_p1 s adminId userId (Some ''admin'') \<and> rewardOk_p1 w \<and>
    validateWalletData_p1 (Some (raw_of b))
    \<longrightarrow> approveWorkAndCredit_p1 s workId userId campaignId rew adminId = (Inr True, s')) \<and>
   (\<forall>n. \<bar>n\<bar> < 9007199254740992 \<and> old + rew = of_int n \<longrightarrow>
      map_option earnedBalance (wallets s' userId) = Some (old + rew)) \<and>
   (\<forall>n. \<bar>n\<bar> < 9007199254740992 \<and> aw + 1 = of_int n \<longrightarrow>
      map_option approvedWorks (users s' userId) = Some (Some (aw + 1))) \<and>
   (\<forall>n. \<bar>n\<bar> < 9007199254740992 \<and> em + rew = of_int n \<longrightarrow>
      map_option earnedMoney (users s' userId) = Some (Some (em + rew)))"
proof -
  have b': "b = (orDefault (wallets s userId))
                  \<lparr>earnedBalance := js_add (earnedBalance (orDefault (wallets s userId))) rew\<rparr>"
    unfolding b by (rule credited_wallet [symmetric])
  have em': "orZero (earnedMoney u) = em" and aw': "orZero (approvedWorks u) = aw"
    by (simp_all add: orZero_def em aw)
  have nonneg: "\<not> js_add (orZero (earnedMoney u)) rew < 0" "\<not> js_add (orZero (approvedWorks u)) 1 < 0"
    using to_double_nonneg [OF em(2)] to_double_nonneg [OF aw(2)]
    by (simp_all add: em' aw' js_add_def not_less)
  have s'': "s' = s\<lparr>works := (works s)((userId, workId) \<mapsto> w\<lparr>work_status := ''approved''\<rparr>),
                wallets := (wallets s)(userId \<mapsto> b),
                users := (users s)(userId \<mapsto>
                  u\<lparr>earnedMoney := Some (js_add (orZero (earnedMoney u)) rew),
                    approvedWorks := Some (js_add (orZero (approvedWorks u)) 1)\<rparr>)\<rparr>"
    by (simp add: s' em' aw' js_add_def)
  have dc: "approveWorkAndCredit V s workId userId campaignId rew adminId = (Inr True, s')"
    if h: "workId \<noteq> [] \<and> userId \<noteq> [] \<and> campaignId \<noteq> [] \<and>
      \<not> denied V s adminId userId (Some ''admin'') \<and> validateWorkData V w \<and>
      validateWalletData V (Some (raw_of b))"
  proof -
    from h have credit: "walletCreditUpdate (validateWalletData V) rew (wallets s userId) = Some b"
      by (simp add: walletCreditUpdate_eq b' [symmetric])
    from h have valid: "validateWorkData V w" by simp
    note inner = approveWorkAndCredit_try_success [OF work valid credit user nonneg]
    show ?thesis
      using h rew unfolding approveWorkAndCredit_def inner rethrow_def s'' by simp
  qed
  have p1: "approveWorkAndCredit_p1 s workId userId campaignId rew adminId = (Inr True, s')"
    if h: "workId \<noteq> [] \<and> userId \<noteq> [] \<and>
      \<not> denied_p1 s adminId userId (Some ''admin'') \<and> rewardOk_p1 w \<and>
      validateWalletData_p1 (Some (raw_of b))"
  proof -
    from h have credit: "walletCreditUpdate validateWalletData_p1 rew (wallets s userId) = Some b"
      by (simp add: walletCreditUpdate_eq b' [symmetric])
    show ?thesis
      using h rew work user nonneg credit unfolding s''
      by (simp add: approveWorkAndCredit_p1_def runTransaction_def workApproveUpdate_def
            creditUserProfile_def update_user_def Let_def)
  qed
  have whole: "to_double x = x" if "\<bar>n\<bar> < 9007199254740992 \<and> x = of_int n" for x and n :: int
    using that to_double_of_int [of n] by simp
  have eb: "earnedBalance b = to_double (old + rew)"
    by (simp add: b old split: option.splits)
  have c3: "map_option earnedBalance (wallets s' userId) = Some (old + rew)"
    if "\<bar>n\<bar> < 9007199254740992 \<and> old + rew = of_int n" for n :: int
    using whole [OF that] by (simp add: s' eb)
  have c4: "map_option approvedWorks (users s' userId) = Some (Some (aw + 1))"
    if "\<bar>n\<bar> < 9007199254740992 \<and> aw + 1 = of_int n" for n :: int
    using whole [OF that] by (simp add: s')
  have c5: "map_option earnedMoney (users s' userId) = Some (Some (em + rew))"
    if "\<bar>n\<bar> < 9007199254740992 \<and> em + rew = of_int n" for n :: int
    using whole [OF that] by (simp add: s')
  show ?thesis
    using dc p1 c3 c4 c5 by (intro conjI impI allI) blast+
qed

text \<open>
  On \<open>store2\<close> the wallet of \<open>u2\<close> holds 1000 earned, 5 added and 200 withdrawn, and
  the profile counts 20 earned and 3 approved works. The approval with reward 50 leaves
  the wallet with 1050 earned and the rest as it was, and the profile with 70 and 4.
\<close>

theorem approveWorkAndCredit_success_witness:
  "approveWorkAndCredit validation_p1 store2 ''c1'' ''u2'' ''c1'' 50 None
     = (Inr True,
        store2\<lparr>works := (works store2)((''u2'', ''c1'') \<mapsto> work0\<lparr>work_status := ''approved''\<rparr>),
               wallets := (wallets store2)(''u2'' \<mapsto>
                 \<lparr>earnedBalance = 1050, addedBalance = 5, pendingAddMoney = 0, totalWithdrawn = 200\<rparr>),
               users := (users store2)(''u2'' \<mapsto>
                 user0\<lparr>earnedMoney := Some 70, approvedWorks := Some 4\<rparr>)\<rparr>) \<and>
   approveWorkAndCredit_p1 store2 ''c1'' ''u2'' ''c1'' 50 None
     = approveWorkAndCredit validation_p1 store2 ''c1'' ''u2'' ''c1'' 50 None \<and>
   map_option earnedBalance (wallets store2 ''u2'') = Some 1000 \<and>
   map_option earnedBalance
     (wallets (snd (approveWorkAndCredit validation_p1 store2 ''c1'' ''u2'' ''c1'' 50 None)) ''u2'')
     = Some 1050"
proof -
  have w: "works store2 (''u2'', ''c1'') = Some work0" "work_status work0 = ''pending''"
    and u: "users store2 ''u2'' = Some user0"
    and b: "wallets store2 ''u2'' = Some wallet0"
    by (simp_all add: store2_def store0_def work0_def newWork_def)
  have em: "(20::real) = (case earnedMoney user0 of None \<Rightarrow> 0 | Some x \<Rightarrow> x)"
    and aw: "(3::real) = (case approvedWorks user0 of None \<Rightarrow> 0 | Some x \<Rightarrow> x)"
    by (simp_all add: user0_def)
  have old: "(1000::real) = (case wallets store2 ''u2'' of None \<Rightarrow> 0 | Some stored \<Rightarrow> earnedBalance stored)"
    by (simp add: b wallet0_def)
  have b': "\<lparr>earnedBalance = 1050, addedBalance = 5, pendingAddMoney = 0, totalWithdrawn = 200\<rparr>
      = (case wallets store2 ''u2'' of
           None \<Rightarrow> \<lparr>earnedBalance = to_double 50, addedBalance = 0,
                     pendingAddMoney = 0, totalWithdrawn = 0\<rparr>
         | Some stored \<Rightarrow> stored\<lparr>earnedBalance := to_double (earnedBalance stored + 50)\<rparr>)"
    by (simp add: b wallet0_def to_double_whole)
  have s': "store2\<lparr>works := (works store2)((''u2'', ''c1'') \<mapsto> work0\<lparr>work_status := ''approved''\<rparr>),
               wallets := (wallets store2)(''u2'' \<mapsto>
                 \<lparr>earnedBalance = 1050, addedBalance = 5, pendingAddMoney = 0, totalWithdrawn = 200\<rparr>),
               users := (users store2)(''u2'' \<mapsto>
                 user0\<lparr>earnedMoney := Some 70, approvedWorks := Some 4\<rparr>)\<rparr>
      = store2\<lparr>works := (works store2)((''u2'', ''c1'') \<mapsto> work0\<lparr>work_status := ''approved''\<rparr>),
               wallets := (wallets store2)(''u2'' \<mapsto>
                 \<lparr>earnedBalance = 1050, addedBalance = 5, pendingAddMoney = 0, totalWithdrawn = 200\<rparr>),
               users := (users store2)(''u2'' \<mapsto>
                 user0\<lparr>earnedMoney := Some (to_double (20 + 50)),
                       approvedWorks := Some (to_double (3 + 1))\<rparr>)\<rparr>"
    by (simp add: to_double_whole)
  note t = approveWorkAndCredit_success
    [OF w _ _ u em _ aw _ old b' s',
     where campaignId = "''c1''" and V = validation_p1 and adminId = None]
  have guards: "\<not> denied validation_p1 store2 None ''u2'' (Some ''admin'')"
    "\<not> denied_p1 store2 None ''u2'' (Some ''admin'')"
    "validateWorkData validation_p1 work0" "rewardOk_p1 work0"
    "validateWalletData validation_p1
       (Some (raw_of \<lparr>earnedBalance = 1050, addedBalance = 5, pendingAddMoney = 0, totalWithdrawn = 200\<rparr>))"
    "validateWalletData_p1
       (Some (raw_of \<lparr>earnedBalance = 1050, addedBalance = 5, pendingAddMoney = 0, totalWithdrawn = 200\<rparr>))"
    by (simp_all add: denied_def denied_p1_def validation_p1_def rewardOk_p1_def work0_def
          newWork_def validateWalletData_p1_def raw_of_def)
  from t guards show ?thesis by (simp add: b wallet0_def)
qed

text \<open>
  The claim as it was stated, that the balance increases by exactly the reward, fails
  where the sum is not a double. With 0.1 earned and a reward of 0.2 the approval
  succeeds in both copies and leaves 0.30000000000000004 earned, which is not the sum
  of the balance and the reward.
\<close>

theorem approveWorkAndCredit_success_counterexample:
  "fst (approveWorkAndCredit validation_p1 store2_tenths ''c1'' ''u2'' ''c1'' d0_2 None) = Inr True \<and>
   fst (approveWorkAndCredit_p1 store2_tenths ''c1'' ''u2'' ''c1'' d0_2 None) = Inr True \<and>
   map_option earnedBalance (wallets store2_tenths ''u2'') = Some d0_1 \<and>
   map_option earnedBalance
     (wallets (snd (approveWorkAndCredit validation_p1 store2_tenths ''c1'' ''u2'' ''c1'' d0_2 None)) ''u2'')
     = Some (1351079888211149 / 4503599627370496) \<and>
   map_option earnedBalance
     (wallets (snd (approveWorkAndCredit_p1 store2_tenths ''c1'' ''u2'' ''c1'' d0_2 None)) ''u2'')
     = Some (1351079888211149 / 4503599627370496) \<and>
   1351079888211149 / 4503599627370496 \<noteq> d0_1 + d0_2"
proof -
  have credit: "walletCreditUpdate validateWalletData_p1 d0_2 (wallets store2_tenths ''u2'')
      = Some (wallet0\<lparr>earnedBalance := 1351079888211149 / 4503599627370496\<rparr>)"
    by (simp add: walletCreditUpdate_eq store2_tenths_def store0_def orDefault_def wallet0_def
          d0_1_value d0_2_value js_add_01_02 validateWalletData_p1_def raw_of_def)
  have w: "works store2_tenths (''u2'', ''c1'') = Some (work0\<lparr>reward := d0_2\<rparr>)"
    "work_status (work0\<lparr>reward := d0_2\<rparr>) = ''pending''"
    "validateWorkData validation_p1 (work0\<lparr>reward := d0_2\<rparr>)"
    and u: "users store2_tenths ''u2'' = Some user0"
    by (simp_all add: store2_tenths_def store0_def work0_def newWork_def validation_p1_def
          rewardOk_p1_def d0_2_value)
  have pos: "0 < d0_2" "d0_2 \<le> 10000" by (simp_all add: d0_2_value)
  have nonneg: "\<not> js_add (orZero (earnedMoney user0)) d0_2 < 0"
    "\<not> js_add (orZero (approvedWorks user0)) 1 < 0"
    using pos(1) by (simp_all add: user0_def orZero_def js_add_nonneg)
  have credit': "walletCreditUpdate (validateWalletData validation_p1) d0_2 (wallets store2_tenths ''u2'')
      = Some (wallet0\<lparr>earnedBalance := 1351079888211149 / 4503599627370496\<rparr>)"
    using credit by (simp add: validation_p1_def)
  note inner = approveWorkAndCredit_try_success [OF w credit' u nonneg]
  have dc: "approveWorkAndCredit validation_p1 store2_tenths ''c1'' ''u2'' ''c1'' d0_2 None
      = (Inr True, snd (approveWorkAndCredit validation_p1 store2_tenths ''c1'' ''u2'' ''c1'' d0_2 None))"
    "wallets (snd (approveWorkAndCredit validation_p1 store2_tenths ''c1'' ''u2'' ''c1'' d0_2 None)) ''u2''
      = Some (wallet0\<lparr>earnedBalance := 1351079888211149 / 4503599627370496\<rparr>)"
    using pos unfolding approveWorkAndCredit_def inner rethrow_def
    by (simp_all add: denied_def)
  have valid: "validateWalletData_p1
      (Some (raw_of (wallet0\<lparr>earnedBalance := 1351079888211149 / 4503599627370496\<rparr>)))"
    by (simp add: validateWalletData_p1_def raw_of_def wallet0_def)
  have p1: "approveWorkAndCredit_p1 store2_tenths ''c1'' ''u2'' ''c1'' d0_2 None
      = (Inr True, snd (approveWorkAndCredit_p1 store2_tenths ''c1'' ''u2'' ''c1'' d0_2 None))"
    "wallets (snd (approveWorkAndCredit_p1 store2_tenths ''c1'' ''u2'' ''c1'' d0_2 None)) ''u2''
      = Some (wallet0\<lparr>earnedBalance := 1351079888211149 / 4503599627370496\<rparr>)"
    using pos w u nonneg credit valid
    by (simp_all add: approveWorkAndCredit_p1_def denied_p1_def runTransaction_def
          workApproveUpdate_def creditUserProfile_def update_user_def rewardOk_p1_def
          validation_p1_def Let_def)
  have before: "map_option earnedBalance (wallets store2_tenths ''u2'') = Some d0_1"
    by (simp add: store2_tenths_def)
  have differ: "1351079888211149 / 4503599627370496 \<noteq> d0_1 + d0_2"
    by (simp add: d0_1_value d0_2_value)
  from dc p1 before differ show ?thesis by (simp add: prod_eq_iff)
qed

section \<open>Applying to a campaign\<close>

lemma applyToCampaign_try_exists:
  "works s (userId, campaignId) \<noteq> None \<Longrightarrow>
   applyToCampaign_try V s campaignId userId userName rew now
     = (Inl (Error ''You have already applied to this campaign''), s)"
  by (auto simp: applyToCampaign_try_def)

lemma applyToCampaign_exists:
  assumes "works s (userId, campaignId) \<noteq> None"
  shows "snd (applyToCampaign V s campaignId userId userName rew cu now) = s \<and>
         isl (fst (applyToCampaign V s campaignId userId userName rew cu now))"
  unfolding applyToCampaign_def applyToCampaign_try_exists [OF assms] rethrow_def by simp

lemma applyToCampaign_p1_exists:
  assumes "works s (userId, campaignId) \<noteq> None"
  shows "snd (applyToCampaign_p1 s campaignId userId userName rew cu now) = s \<and>
         isl (fst (applyToCampaign_p1 s campaignId userId userName rew cu now))"
  using assms by (auto simp: applyToCampaign_p1_def)

lemma applyToCampaign_try_True:
  assumes "applyToCampaign_try V s campaignId userId userName rew now = (Inr True, s1)"
  shows "works s1 (userId, campaignId) \<noteq> None \<and> campaigns s campaignId \<noteq> None \<and>
         map_option completedWorkers (campaigns s1 campaignId)
           = map_option (\<lambda>c. completedWorkers c + 1) (campaigns s campaignId)"
  using assms
  by (auto simp: applyToCampaign_try_def update_campaign_def Let_def
           split: option.splits if_splits)

lemma applyToCampaign_True:
  assumes "applyToCampaign V s campaignId userId userName rew cu now = (Inr True, s1)"
  shows "works s1 (userId, campaignId) \<noteq> None \<and> campaigns s campaignId \<noteq> None \<and>
         map_option completedWorkers (campaigns s1 campaignId)
           = map_option (\<lambda>c. completedWorkers c + 1) (campaigns s campaignId)"
proof -
  from assms have "applyToCampaign_try V s campaignId userId userName rew now = (Inr True, s1)"
    by (auto simp: applyToCampaign_def rethrow_def split: if_splits prod.splits sum.splits)
  then show ?thesis by (rule applyToCampaign_try_True)
qed

lemma applyToCampaign_p1_True:
  assumes "applyToCampaign_p1 s campaignId userId userName rew cu now = (Inr True, s1)"
  shows "works s1 (userId, campaignId) \<noteq> None \<and> campaigns s campaignId \<noteq> None \<and>
         map_option completedWorkers (campaigns s1 campaignId)
           = map_option (\<lambda>c. completedWorkers c + 1) (campaigns s campaignId)"
  using assms
  by (auto simp: applyToCampaign_p1_def update_campaign_def Let_def
           split: option.splits if_splits)

text \<open>
  Claim C5. If a work item exists at \<open>works/{userId}/{campaignId}\<close>, then
  \<open>applyToCampaign\<close> with that pair throws and writes nothing, whatever its other
  arguments are. A call that returns \<open>true\<close> has created that work item and has raised
  \<open>completedWorkers\<close> of the campaign by one; so a second call with the same pair
  throws and leaves the store of the first call: over the two calls the counter has
  gone up exactly once. This holds for both copies.
\<close>

theorem applyToCampaign_idempotent:
  "(works s (userId, campaignId) \<noteq> None \<longrightarrow>
      snd (applyToCampaign V s campaignId userId userName rew cu now) = s \<and>
      isl (fst (applyToCampaign V s campaignId userId userName rew cu now)) \<and>
      snd (applyToCampaign_p1 s campaignId userId userName rew cu now) = s \<and>
      isl (fst (applyToCampaign_p1 s campaignId userId userName rew cu now))) \<and>
   (applyToCampaign V s campaignId userId userName rew cu now = (Inr True, s1) \<longrightarrow>
      campaigns s campaignId \<noteq> None \<and>
      map_option completedWorkers (campaigns s1 campaignId)
        = map_option (\<lambda>c. completedWorkers c + 1) (campaigns s campaignId) \<and>
      snd (applyToCampaign V s1 campaignId userId userName rew cu now') = s1 \<and>
      isl (fst (applyToCampaign V s1 campaignId userId userName rew cu now'))) \<and>
   (applyToCampaign_p1 s campaignId userId userName rew cu now = (Inr True, s2) \<longrightarrow>
      campaigns s campaignId \<noteq> None \<and>
      map_option completedWorkers (campaigns s2 campaignId)
        = map_option (\<lambda>c. completedWorkers c + 1) (campaigns s campaignId) \<and>
      snd (applyToCampaign_p1 s2 campaignId userId userName rew cu now') = s2 \<and>
      isl (fst (applyToCampaign_p1 s2 campaignId userId userName rew cu now')))"
  using applyToCampaign_exists applyToCampaign_p1_exists
    applyToCampaign_True [of V s campaignId userId userName rew cu now s1]
    applyToCampaign_p1_True [of s campaignId userId userName rew cu now s2]
  by blast

lemma applyToCampaign_store0:
  "fst (applyToCampaign validation_p1 store0 ''c1'' ''u2'' ''Worker Two'' 50 None 1700000001000) = Inr True \<and>
   fst (applyToCampaign_p1 store0 ''c1'' ''u2'' ''Worker Two'' 50 None 1700000001000) = Inr True"
  by (simp add: applyToCampaign_def applyToCampaign_try_def applyToCampaign_p1_def rethrow_def
        store0_def campaign0_def validation_p1_def rewardOk_p1_def newWork_def
        validateCampaignData_p1_def trim_is_empty_def js_whitespace_def Let_def)

theorem applyToCampaign_idempotent_witness:
  "fst (applyToCampaign validation_p1 store0 ''c1'' ''u2'' ''Worker Two'' 50 None 1700000001000) = Inr True \<and>
   map_option completedWorkers (campaigns store0 ''c1'') = Some 0 \<and>
   map_option completedWorkers
     (campaigns (snd (applyToCampaign validation_p1 store0 ''c1'' ''u2'' ''Worker Two'' 50 None 1700000001000)) ''c1'')
     = Some 1 \<and>
   isl (fst (applyToCampaign validation_p1
          (snd (applyToCampaign validation_p1 store0 ''c1'' ''u2'' ''Worker Two'' 50 None 1700000001000))
          ''c1'' ''u2'' ''Worker Two'' 50 None 1700000002000)) \<and>
   snd (applyToCampaign validation_p1
          (snd (applyToCampaign validation_p1 store0 ''c1'' ''u2'' ''Worker Two'' 50 None 1700000001000))
          ''c1'' ''u2'' ''Worker Two'' 50 None 1700000002000)
     = snd (applyToCampaign validation_p1 store0 ''c1'' ''u2'' ''Worker Two'' 50 None 1700000001000) \<and>
   map_option completedWorkers
     (campaigns (snd (applyToCampaign_p1 store0 ''c1'' ''u2'' ''Worker Two'' 50 None 1700000001000)) ''c1'')
     = Some 1 \<and>
   snd (applyToCampaign_p1
          (snd (applyToCampaign_p1 store0 ''c1'' ''u2'' ''Worker Two'' 50 None 1700000001000))
          ''c1'' ''u2'' ''Worker Two'' 50 None 1700000002000)
     = snd (applyToCampaign_p1 store0 ''c1'' ''u2'' ''Worker Two'' 50 None 1700000001000)"
proof -
  let ?r = "applyToCampaign validation_p1 store0 ''c1'' ''u2'' ''Worker Two'' 50 None 1700000001000"
  let ?q = "applyToCampaign_p1 store0 ''c1'' ''u2'' ''Worker Two'' 50 None 1700000001000"
  have r: "?r = (Inr True, snd ?r)" and q: "?q = (Inr True, snd ?q)"
    using applyToCampaign_store0 by (simp_all add: prod_eq_iff)
  have c0: "map_option completedWorkers (campaigns store0 ''c1'') = Some 0"
    by (simp add: store0_def campaign0_def)
  from applyToCampaign_idempotent
    [where V = validation_p1 and s = store0 and campaignId = "''c1''" and userId = "''u2''"
       and userName = "''Worker Two''" and rew = 50 and cu = None and now = 1700000001000
       and now' = 1700000002000 and ?s1.0 = "snd ?r" and ?s2.0 = "snd ?q"]
    r q c0 applyToCampaign_store0
  show ?thesis by simp
qed

section \<open>Authorization\<close>

text \<open>
  Claim C10. \<open>verifyUserAuthorization\<close> is private to the module, and every call of it
  stands behind the guard \<open>currentUserId && ...\<close>: the identity it receives is not the
  empty string. For every such \<open>uid\<close> (in \<^verbatim>\<open>data-cache.ts\<close>: for every \<open>uid\<close> that the
  imported \<open>validateUserAuthorization\<close> accepts), \<open>verifyUserAuthorization(uid, uid)\<close>
  without a required role returns \<open>true\<close> and reads nothing from the store. The store
  does not enter the result, so a user whose record is missing or blocked is authorized
  for their own resources: the guard of an operation that a user calls on their own
  resources never refuses.
\<close>

theorem verifyUserAuthorization_self:
  "(validateUserAuthorization V uid uid None \<longrightarrow>
      verifyUserAuthorization V s uid uid None = (True, []) \<and>
      \<not> denied V s (Some uid) uid None) \<and>
   (uid \<noteq> [] \<longrightarrow> verifyUserAuthorization_p1 s uid uid None = (True, [])) \<and>
   \<not> denied_p1 s (Some uid) uid None"
  by (simp add: verifyUserAuthorization_def verifyUserAuthorization_p1_def denied_def denied_p1_def)

theorem verifyUserAuthorization_self_witness:
  "users store3 ''u3'' = Some blockedUser \<and> isBlocked blockedUser \<and>
   verifyUserAuthorization validation_p1 store3 ''u3'' ''u3'' None = (True, []) \<and>
   verifyUserAuthorization_p1 store3 ''u3'' ''u3'' None = (True, []) \<and>
   \<not> denied validation_p1 store3 (Some ''u3'') ''u3'' None \<and>
   \<not> denied_p1 store3 (Some ''u3'') ''u3'' None \<and>
   users store3 ''u4'' = None \<and>
   verifyUserAuthorization validation_p1 store3 ''u4'' ''u4'' None = (True, []) \<and>
   verifyUserAuthorization_p1 store3 ''u4'' ''u4'' None = (True, [])"
  using verifyUserAuthorization_self [of validation_p1 "''u3''" store3]
    verifyUserAuthorization_self [of validation_p1 "''u4''" store3]
  by (simp add: validation_p1_def store3_def blockedUser_def)

section \<open>The wallet validator\<close>

text \<open>
  On a wallet whose four fields are numbers the validator of \<^verbatim>\<open>unnamed/part_001\<close>
  accepts exactly the wallets with every field in [0, 10000000], and it rejects
  \<open>null\<close>.
\<close>

lemma validateWalletData_p1_typed:
  "validateWalletData_p1 (Some (raw_of w)) \<longleftrightarrow>
     0 \<le> earnedBalance w \<and> earnedBalance w \<le> 10000000 \<and>
     0 \<le> addedBalance w \<and> addedBalance w \<le> 10000000 \<and>
     0 \<le> pendingAddMoney w \<and> pendingAddMoney w \<le> 10000000 \<and>
     0 \<le> totalWithdrawn w \<and> totalWithdrawn w \<le> 10000000"
  by (auto simp: validateWalletData_p1_def raw_of_def)

lemma validateWalletData_p1_null: "\<not> validateWalletData_p1 None"
  by (simp add: validateWalletData_p1_def)

text \<open>
  Claim C2 says that a wallet with a missing or non-numeric field is rejected. The
  validator only compares: \<open>x < 0\<close> and \<open>x > 10000000\<close> are both false when \<open>x\<close> is
  \<open>undefined\<close> or \<open>NaN\<close>, so a wallet without \<open>earnedBalance\<close>, and a wallet whose
  \<open>addedBalance\<close> is \<open>NaN\<close>, are accepted.
\<close>

theorem validateWalletData_p1_accepts_missing_field:
  "validateWalletData_p1
     (Some \<lparr>raw_earnedBalance = JUndefined, raw_addedBalance = JNum 100,
            raw_pendingAddMoney = JNum 0, raw_totalWithdrawn = JNum 0\<rparr>) \<and>
   validateWalletData_p1
     (Some \<lparr>raw_earnedBalance = JNum 0, raw_addedBalance = JNaN,
            raw_pendingAddMoney = JNum 0, raw_totalWithdrawn = JNum 0\<rparr>)"
  by (simp add: validateWalletData_p1_def)

section \<open>Capacity of the cache\<close>

text \<open>
  The scan of \<^verbatim>\<open>data-cache.ts\<close> finds an entry of least timestamp, when one lies below
  the start value.
\<close>

lemma oldest_scan_keep:
  "(\<And>k e. (k, e) \<in> set xs \<Longrightarrow> ot \<le> timestamp e) \<Longrightarrow> oldest_scan xs ok ot = ok"
  by (induction xs ok ot rule: oldest_scan.induct) (auto simp: not_less [symmetric])

lemma oldest_scan_mem:
  "oldest_scan xs ok ot = Some k \<Longrightarrow> ok = Some k \<or> k \<in> fst ` set xs"
  by (induction xs ok ot rule: oldest_scan.induct) (auto split: if_splits)

lemma oldest_scan_Some: "\<exists>k'. oldest_scan xs (Some k) ot = Some k'"
  by (induction xs "Some k" ot arbitrary: k rule: oldest_scan.induct) auto

lemma oldest_scan_found:
  "(k, e) \<in> set xs \<Longrightarrow> timestamp e < ot \<Longrightarrow> oldest_scan xs ok ot \<noteq> None"
  by (induction xs ok ot rule: oldest_scan.induct) (auto simp: oldest_scan_Some)

lemma oldest_scan_minimal:
  "oldest_scan xs ok ot = Some k \<Longrightarrow>
   (ok = Some k \<and> (\<forall>e' \<in> snd ` set xs. ot \<le> timestamp e')) \<or>
   (\<exists>e. (k, e) \<in> set xs \<and> timestamp e < ot \<and>
        (\<forall>e' \<in> snd ` set xs. timestamp e \<le> timestamp e'))"
proof (induction xs ok ot rule: oldest_scan.induct)
  case (1 oldestKey oldestTime)
  then show ?case by simp
next
  case (2 cacheKey cacheEntry rest oldestKey oldestTime)
  show ?case
  proof (cases "timestamp cacheEntry < oldestTime")
    case True
    with 2 consider
        (new) "cacheKey = k" "\<forall>e' \<in> snd ` set rest. timestamp cacheEntry \<le> timestamp e'"
      | (later) e where "(k, e) \<in> set rest" "timestamp e < timestamp cacheEntry"
          "\<forall>e' \<in> snd ` set rest. timestamp e \<le> timestamp e'"
      by auto
    then show ?thesis
    proof cases
      case new
      have "(k, cacheEntry) \<in> set ((cacheKey, cacheEntry) # rest)" using new(1) by simp
      moreover have "\<forall>e' \<in> snd ` set ((cacheKey, cacheEntry) # rest).
                        timestamp cacheEntry \<le> timestamp e'"
        using new(2) by simp
      ultimately show ?thesis using True by blast
    next
      case later
      have "(k, e) \<in> set ((cacheKey, cacheEntry) # rest)" using later(1) by simp
      moreover have "timestamp e < oldestTime" using later(2) True by simp
      moreover have "\<forall>e' \<in> snd ` set ((cacheKey, cacheEntry) # rest). timestamp e \<le> timestamp e'"
        using later(2,3) by simp
      ultimately show ?thesis by blast
    qed
  next
    case False
    with 2 consider
        (old) "oldestKey = Some k" "\<forall>e' \<in> snd ` set rest. oldestTime \<le> timestamp e'"
      | (later) e where "(k, e) \<in> set rest" "timestamp e < oldestTime"
          "\<forall>e' \<in> snd ` set rest. timestamp e \<le> timestamp e'"
      by auto
    then show ?thesis
    proof cases
      case old
      have "\<forall>e' \<in> snd ` set ((cacheKey, cacheEntry) # rest). oldestTime \<le> timestamp e'"
        using old(2) False by simp
      with old(1) show ?thesis by blast
    next
      case later
      have "(k, e) \<in> set ((cacheKey, cacheEntry) # rest)" using later(1) by simp
      moreover have "\<forall>e' \<in> snd ` set ((cacheKey, cacheEntry) # rest). timestamp e \<le> timestamp e'"
        using later(2,3) False by simp
      ultimately show ?thesis using later(2) by blast
    qed
  qed
qed


lemma length_update_new:
  "k \<notin> fst ` set xs \<Longrightarrow> length (AList.update k v xs) = Suc (length xs)"
  by (induction xs) auto

lemma length_update_le: "length (AList.update k v xs) \<le> Suc (length xs)"
  by (induction xs) auto

lemma length_delete_less:
  "k \<in> fst ` set xs \<Longrightarrow> length (AList.delete k xs) < length xs"
proof (induction xs)
  case Nil
  then show ?case by simp
next
  case (Cons x xs)
  show ?case
  proof (cases "fst x = k")
    case True
    then show ?thesis by (simp add: less_Suc_eq_le length_delete_le)
  next
    case False
    with Cons.prems have "k \<in> fst ` set xs" by auto
    with Cons.IH False show ?thesis by simp
  qed
qed

text \<open>
  While no entry is stored under the empty string (and, in \<^verbatim>\<open>data-cache.ts\<close>, the
  timestamps are below \<open>Number.MAX_SAFE_INTEGER\<close>, as clock readings are), \<open>set\<close>
  keeps a cache of at most 100 entries within 100 entries; the other operations never
  add an entry.
\<close>

lemma set_cache_p1_capacity:
  assumes "length (cache c) \<le> MAX_CACHE_SIZE" "[] \<notin> fst ` set (cache c)"
  shows "length (cache (set_cache_p1 c key d now1 now2)) \<le> MAX_CACHE_SIZE"
proof (cases "length (cache c) \<ge> MAX_CACHE_SIZE")
  case False
  then show ?thesis
    using length_update_le
      [of key "\<lparr>data = d, timestamp = now1, expiry = now2 + CACHE_DURATION\<rparr>" "cache c"]
    by (simp add: set_cache_p1_def Let_def)
next
  case True
  then obtain k e rest where xs: "cache c = (k, e) # rest"
    by (cases "cache c") (auto simp: MAX_CACHE_SIZE_def)
  with assms(2) have k: "k \<noteq> []" by force
  have "length (AList.delete k (cache c)) < length (cache c)"
    by (rule length_delete_less) (simp add: xs)
  with assms(1) have "Suc (length (AList.delete k (cache c))) \<le> MAX_CACHE_SIZE" by simp
  with True k xs show ?thesis
    using length_update_le
      [of key "\<lparr>data = d, timestamp = now1, expiry = now2 + CACHE_DURATION\<rparr>"
          "AList.delete k (cache c)"]
    by (simp add: set_cache_p1_def Let_def del: delete_simps)
qed

lemma set_cache_capacity:
  assumes "length (cache c) \<le> MAX_CACHE_SIZE" "[] \<notin> fst ` set (cache c)"
    and ts: "\<And>k e. (k, e) \<in> set (cache c) \<Longrightarrow> timestamp e < MAX_SAFE_INTEGER"
  shows "length (cache (set_cache c key d now1 now2)) \<le> MAX_CACHE_SIZE"
proof (cases "length (cache c) \<ge> MAX_CACHE_SIZE")
  case False
  then show ?thesis
    using length_update_le
      [of key "\<lparr>data = d, timestamp = now1, expiry = now2 + CACHE_DURATION\<rparr>" "cache c"]
    by (simp add: set_cache_def Let_def)
next
  case True
  then obtain k0 e0 where in0: "(k0, e0) \<in> set (cache c)"
    by (cases "cache c") (auto simp: MAX_CACHE_SIZE_def)
  have "oldest_scan (cache c) None MAX_SAFE_INTEGER \<noteq> None"
    using oldest_scan_found [OF in0 ts [OF in0]] .
  then obtain k where sc: "oldest_scan (cache c) None MAX_SAFE_INTEGER = Some k" by auto
  then have mem: "k \<in> fst ` set (cache c)" using oldest_scan_mem by fastforce
  with assms(2) have k: "k \<noteq> []" by blast
  have "length (AList.delete k (cache c)) < length (cache c)"
    using mem by (rule length_delete_less)
  with assms(1) have "Suc (length (AList.delete k (cache c))) \<le> MAX_CACHE_SIZE" by simp
  with True k sc show ?thesis
    using length_update_le
      [of key "\<lparr>data = d, timestamp = now1, expiry = now2 + CACHE_DURATION\<rparr>"
          "AList.delete k (cache c)"]
    by (simp add: set_cache_def Let_def)
qed

lemma cache_ops_do_not_grow:
  "length (cache (snd (get c key now))) \<le> length (cache c)"
  "length (cache (clear c key)) \<le> length (cache c)"
  "length (cache (clearAll c)) \<le> length (cache c)"
  "cache (setPending c key p) = cache c"
  "cache (clearPending c key) = cache c"
  by (auto simp: get_def clear_def clearAll_def setPending_def clearPending_def length_delete_le
           split: option.splits)

lemma fullCache_length: "length (cache fullCache) = 100"
  by (simp add: fullCache_def)

lemma fullCache_scan: "oldest_scan (cache fullCache) None MAX_SAFE_INTEGER = Some []"
proof -
  have "cache fullCache =
     ([], \<lparr>data = 0, timestamp = 0, expiry = CACHE_DURATION\<rparr>) #
     map (\<lambda>i. (replicate i CHR ''k'',
                \<lparr>data = i, timestamp = int i, expiry = int i + CACHE_DURATION\<rparr>)) [1..<100]"
    by (simp add: fullCache_def upt_conv_Cons [of 0])
  then show ?thesis
    by (simp add: MAX_SAFE_INTEGER_def) (rule oldest_scan_keep, auto)
qed

lemma fullCache_new: "''new'' \<notin> fst ` set (cache fullCache)"
  by (auto simp: fullCache_def Cons_replicate_eq)

text \<open>
  Claim C8 says that the cache never holds more than 100 entries. The eviction in
  \<open>set\<close> is guarded by \<open>if (oldestKey)\<close>, which is false for the empty string as it
  is for \<open>undefined\<close>. On the cache \<open>fullCache\<close> of 100 entries, whose oldest and
  first-inserted key is the empty string, \<open>set\<close> with a new key evicts nothing and
  leaves 101 entries, in both copies.
\<close>

theorem set_cache_exceeds_capacity:
  "length (cache fullCache) = 100 \<and>
   length (cache (set_cache fullCache ''new'' 7 1000 1000)) = 101 \<and>
   length (cache (set_cache_p1 fullCache ''new'' 7 1000 1000)) = 101"
proof -
  obtain e rest where hd: "cache fullCache = ([], e) # rest"
    by (simp add: fullCache_def upt_conv_Cons [of 0])
  have a: "length (AList.update ''new'' v (cache fullCache)) = 101" for v
    using length_update_new [OF fullCache_new] fullCache_length by simp
  have "length (cache (set_cache fullCache ''new'' 7 1000 1000)) = 101"
    by (simp add: set_cache_def Let_def fullCache_scan a fullCache_length MAX_CACHE_SIZE_def)
  moreover have "length (cache (set_cache_p1 fullCache ''new'' 7 1000 1000)) = 101"
    using a fullCache_length
    by (simp add: set_cache_p1_def Let_def hd MAX_CACHE_SIZE_def)
  ultimately show ?thesis by (simp add: fullCache_length)
qed

section \<open>Coalescing of requests\<close>

lemma coalescing_inv_new: "coalescing_inv newRuntime"
  by (simp add: coalescing_inv_def newRuntime_def newDataCache_def)

lemma getOrCreate_existing:
  "map_of (pendingRequests (dataCache rt)) key = Some p \<Longrightarrow>
   getOrCreatePendingRequest rt key createPromise = (p, rt)"
  by (simp add: getOrCreatePendingRequest_def)

lemma getOrCreate_new:
  assumes "map_of (pendingRequests (dataCache rt)) key = None"
  shows "getOrCreatePendingRequest rt key Returns =
           (nextPromise rt,
            rt\<lparr>dataCache := setPending (dataCache rt) key (nextPromise rt),
               nextPromise := Suc (nextPromise rt),
               factoryCalls := factoryCalls rt @ [key],
               finallyHooks := finallyHooks rt @ [(nextPromise rt, key)]\<rparr>)"
  using assms by (simp add: getOrCreatePendingRequest_def Let_def)

lemma getOrCreate_throws:
  assumes "map_of (pendingRequests (dataCache rt)) key = None"
  shows "getOrCreatePendingRequest rt key Throws =
           (nextPromise rt,
            rt\<lparr>nextPromise := Suc (nextPromise rt),
               factoryCalls := factoryCalls rt @ [key],
               settled := nextPromise rt # settled rt\<rparr>)"
  using assms by (simp add: getOrCreatePendingRequest_def Let_def)

lemma coalescing_inv_call:
  assumes inv: "coalescing_inv rt"
  shows "coalescing_inv (snd (getOrCreatePendingRequest rt key createPromise))"
proof (cases "map_of (pendingRequests (dataCache rt)) key")
  case (Some p)
  then show ?thesis using inv by (simp add: getOrCreate_existing)
next
  case None
  let ?np = "nextPromise rt"
  from inv have fresh: "?np \<notin> fst ` set (finallyHooks rt)"
    unfolding coalescing_inv_def by blast
  from inv have a: "distinct (map fst (finallyHooks rt))"
    and b: "\<And>p. p \<in> fst ` set (finallyHooks rt) \<Longrightarrow> p < ?np"
    and c: "\<And>p. p \<in> set (settled rt) \<Longrightarrow> p < ?np"
    and d: "\<And>k p. map_of (pendingRequests (dataCache rt)) k = Some p \<Longrightarrow>
              (p, k) \<in> set (finallyHooks rt) \<and> p \<notin> set (settled rt)"
    and e: "\<And>p k. (p, k) \<in> set (finallyHooks rt) \<Longrightarrow> p \<notin> set (settled rt) \<Longrightarrow>
              map_of (pendingRequests (dataCache rt)) k = Some p"
    unfolding coalescing_inv_def by blast+
  have unsettled: "?np \<notin> set (settled rt)" using c by blast
  show ?thesis
  proof (cases createPromise)
    case Returns
    have pend: "map_of (pendingRequests (setPending (dataCache rt) key ?np))
                  = (map_of (pendingRequests (dataCache rt)))(key \<mapsto> ?np)"
      by (simp add: setPending_def update_conv')
    let ?rt' = "rt\<lparr>dataCache := setPending (dataCache rt) key ?np,
                 nextPromise := Suc ?np,
                 factoryCalls := factoryCalls rt @ [key],
                 finallyHooks := finallyHooks rt @ [(?np, key)]\<rparr>"
    have 1: "distinct (map fst (finallyHooks ?rt'))" using a fresh by simp
    have 2: "\<forall>p \<in> fst ` set (finallyHooks ?rt'). p < nextPromise ?rt'"
      using b by (auto simp: less_Suc_eq)
    have 3: "\<forall>p \<in> set (settled ?rt'). p < nextPromise ?rt'"
      using c by (auto simp: less_Suc_eq)
    have 4: "(p, k) \<in> set (finallyHooks ?rt') \<and> p \<notin> set (settled ?rt')"
      if "map_of (pendingRequests (dataCache ?rt')) k = Some p" for k p
    proof (cases "k = key")
      case True
      with that have "p = ?np" by (simp add: pend)
      with True unsettled show ?thesis by simp
    next
      case False
      with that have "map_of (pendingRequests (dataCache rt)) k = Some p" by (simp add: pend)
      from d [OF this] show ?thesis by simp
    qed
    have 5: "map_of (pendingRequests (dataCache ?rt')) k = Some p"
      if "(p, k) \<in> set (finallyHooks ?rt') \<and> p \<notin> set (settled ?rt')" for p k
    proof (cases "(p, k) = (?np, key)")
      case True
      then show ?thesis by (simp add: pend)
    next
      case False
      with that have old: "(p, k) \<in> set (finallyHooks rt)" "p \<notin> set (settled rt)" by auto
      from e [OF old] have look: "map_of (pendingRequests (dataCache rt)) k = Some p" .
      with None have "k \<noteq> key" by auto
      with look show ?thesis by (simp add: pend)
    qed
    have "coalescing_inv ?rt'"
      unfolding coalescing_inv_def using 1 2 3 4 5 by blast
    then show ?thesis by (simp add: Returns getOrCreate_new [OF None])
  next
    case Throws
    let ?rt' = "rt\<lparr>nextPromise := Suc ?np,
                 factoryCalls := factoryCalls rt @ [key],
                 settled := ?np # settled rt\<rparr>"
    have 1: "distinct (map fst (finallyHooks ?rt'))" using a by simp
    have 2: "\<forall>p \<in> fst ` set (finallyHooks ?rt'). p < nextPromise ?rt'"
      using b by (auto simp: less_Suc_eq)
    have 3: "\<forall>p \<in> set (settled ?rt'). p < nextPromise ?rt'"
      using c by (auto simp: less_Suc_eq)
    have 4: "(p, k) \<in> set (finallyHooks ?rt') \<and> p \<notin> set (settled ?rt')"
      if "map_of (pendingRequests (dataCache ?rt')) k = Some p" for k p
    proof -
      from that have look: "map_of (pendingRequests (dataCache rt)) k = Some p" by simp
      from d [OF look] have old: "(p, k) \<in> set (finallyHooks rt)" "p \<notin> set (settled rt)"
        by auto
      from old(1) have "p \<in> fst ` set (finallyHooks rt)" by force
      with fresh have "p \<noteq> ?np" by blast
      with old show ?thesis by simp
    qed
    have 5: "map_of (pendingRequests (dataCache ?rt')) k = Some p"
      if "(p, k) \<in> set (finallyHooks ?rt') \<and> p \<notin> set (settled ?rt')" for p k
      using e [of p k] that by simp
    have "coalescing_inv ?rt'"
      unfolding coalescing_inv_def using 1 2 3 4 5 by blast
    then show ?thesis by (simp add: Throws getOrCreate_throws [OF None])
  qed
qed

lemma coalescing_inv_settle:
  assumes inv: "coalescing_inv rt"
  shows "coalescing_inv (settle rt p)"
proof (cases "p \<in> set (settled rt) \<or> nextPromise rt \<le> p")
  case True
  then show ?thesis using inv by (simp add: settle_def)
next
  case False
  from inv have a: "distinct (map fst (finallyHooks rt))"
    and b: "\<And>q. q \<in> fst ` set (finallyHooks rt) \<Longrightarrow> q < nextPromise rt"
    and c: "\<And>q. q \<in> set (settled rt) \<Longrightarrow> q < nextPromise rt"
    and d: "\<And>k q. map_of (pendingRequests (dataCache rt)) k = Some q \<Longrightarrow>
              (q, k) \<in> set (finallyHooks rt) \<and> q \<notin> set (settled rt)"
    and e: "\<And>q k. (q, k) \<in> set (finallyHooks rt) \<Longrightarrow> q \<notin> set (settled rt) \<Longrightarrow>
              map_of (pendingRequests (dataCache rt)) k = Some q"
    unfolding coalescing_inv_def by blast+
  have hook: "map_of (finallyHooks rt) q = Some k \<longleftrightarrow> (q, k) \<in> set (finallyHooks rt)" for q k
    using a by simp
  show ?thesis
  proof (cases "map_of (finallyHooks rt) p")
    case None
    let ?rt' = "rt\<lparr>settled := p # settled rt\<rparr>"
    have notin: "(p, k) \<notin> set (finallyHooks rt)" for k
      using None hook [of p k] by simp
    have 4: "(q, k) \<in> set (finallyHooks ?rt') \<and> q \<notin> set (settled ?rt')"
      if "map_of (pendingRequests (dataCache ?rt')) k = Some q" for k q
      using d [of k q] that notin [of k] by auto
    have 5: "map_of (pendingRequests (dataCache ?rt')) k = Some q"
      if "(q, k) \<in> set (finallyHooks ?rt') \<and> q \<notin> set (settled ?rt')" for q k
      using e [of q k] that by simp
    have 1: "distinct (map fst (finallyHooks ?rt'))" using a by simp
    have 2: "\<forall>q \<in> fst ` set (finallyHooks ?rt'). q < nextPromise ?rt'" using b by simp
    have 3: "\<forall>q \<in> set (settled ?rt'). q < nextPromise ?rt'" using c False by auto
    have "coalescing_inv ?rt'"
      unfolding coalescing_inv_def using 1 2 3 4 5 by blast
    with False None show ?thesis by (simp add: settle_def)
  next
    case (Some key)
    let ?rt' = "rt\<lparr>dataCache := clearPending (dataCache rt) key, settled := p # settled rt\<rparr>"
    have pk: "(p, key) \<in> set (finallyHooks rt)" using Some hook by simp
    have pend: "map_of (pendingRequests (clearPending (dataCache rt) key))
                  = (map_of (pendingRequests (dataCache rt)))(key := None)"
      by (simp add: clearPending_def delete_conv')
    have uniq: "k = key" if "(p, k) \<in> set (finallyHooks rt)" for k
      using that pk a by (metis eq_key_imp_eq_value)
    have 4: "(q, k) \<in> set (finallyHooks ?rt') \<and> q \<notin> set (settled ?rt')"
      if "map_of (pendingRequests (dataCache ?rt')) k = Some q" for k q
    proof -
      from that have k: "k \<noteq> key" and look: "map_of (pendingRequests (dataCache rt)) k = Some q"
        by (auto simp: pend split: if_splits)
      from d [OF look] have old: "(q, k) \<in> set (finallyHooks rt)" "q \<notin> set (settled rt)" by auto
      with k uniq have "q \<noteq> p" by blast
      with old show ?thesis by simp
    qed
    have 5: "map_of (pendingRequests (dataCache ?rt')) k = Some q"
      if "(q, k) \<in> set (finallyHooks ?rt') \<and> q \<notin> set (settled ?rt')" for q k
    proof -
      from that have old: "(q, k) \<in> set (finallyHooks rt)" "q \<notin> set (settled rt)" and qp: "q \<noteq> p"
        by auto
      from e [OF old] have look: "map_of (pendingRequests (dataCache rt)) k = Some q" .
      have "k \<noteq> key"
      proof
        assume "k = key"
        with look have "map_of (pendingRequests (dataCache rt)) key = Some q" by simp
        moreover from e [OF pk] False have "map_of (pendingRequests (dataCache rt)) key = Some p"
          by simp
        ultimately show False using qp by simp
      qed
      with look show ?thesis by (simp add: pend)
    qed
    have 1: "distinct (map fst (finallyHooks ?rt'))" using a by simp
    have 2: "\<forall>q \<in> fst ` set (finallyHooks ?rt'). q < nextPromise ?rt'" using b by simp
    have 3: "\<forall>q \<in> set (settled ?rt'). q < nextPromise ?rt'" using c False by auto
    have "coalescing_inv ?rt'"
      unfolding coalescing_inv_def using 1 2 3 4 5 by blast
    with False Some show ?thesis by (simp add: settle_def)
  qed
qed

lemma numbering_inv_new: "numbering_inv newRuntime"
  by (simp add: numbering_inv_def newRuntime_def)

lemma numbering_inv_step:
  assumes "numbering_inv rt"
  shows "numbering_inv (step rt e)"
proof (cases e)
  case (Call key createPromise)
  show ?thesis
  proof (cases "map_of (pendingRequests (dataCache rt)) key")
    case None
    with assms show ?thesis
      unfolding Call numbering_inv_def
      by (cases createPromise) (auto simp: getOrCreate_new getOrCreate_throws less_Suc_eq)
  next
    case (Some p)
    with assms show ?thesis unfolding Call by (simp add: getOrCreate_existing)
  qed
next
  case (Settle p)
  with assms show ?thesis
    unfolding numbering_inv_def by (auto simp: settle_def split: option.splits)
next
  case ClearAll
  with assms show ?thesis unfolding numbering_inv_def by simp
next
  case (ClearPending key)
  with assms show ?thesis unfolding numbering_inv_def by simp
next
  case (SetPending key)
  with assms show ?thesis unfolding numbering_inv_def by (auto simp: less_Suc_eq)
qed

lemma numbering_inv_run: "numbering_inv rt \<Longrightarrow> numbering_inv (run rt es)"
  by (induction es arbitrary: rt) (simp_all add: numbering_inv_step)

lemma coalescing_inv_run:
  "coalescing_inv rt \<Longrightarrow> list_all callOrSettle es \<Longrightarrow> coalescing_inv (run rt es)"
proof (induction es arbitrary: rt)
  case Nil
  then show ?case by simp
next
  case (Cons e es)
  have "coalescing_inv (step rt e)"
    using Cons.prems by (cases e) (simp_all add: coalescing_inv_call coalescing_inv_settle)
  then show ?case using Cons.IH Cons.prems(2) by simp
qed

lemma length_le_1_if_all_equal:
  assumes "distinct xs" "\<And>x. x \<in> set xs \<Longrightarrow> x = a"
  shows "length xs \<le> 1"
proof -
  have "set xs \<subseteq> {a}" using assms(2) by blast
  then have "card (set xs) \<le> card {a}" by (intro card_mono) simp_all
  then show ?thesis using assms(1) by (simp add: distinct_card)
qed

lemma coalescing_inv_pending:
  "coalescing_inv rt \<Longrightarrow> (p, key) \<in> set (finallyHooks rt) \<Longrightarrow> p \<notin> set (settled rt) \<Longrightarrow>
   map_of (pendingRequests (dataCache rt)) key = Some p"
  unfolding coalescing_inv_def by blast

lemma coalescing_inv_distinct: "coalescing_inv rt \<Longrightarrow> distinct (map fst (finallyHooks rt))"
  unfolding coalescing_inv_def by blast

lemma outstanding_iff:
  "x \<in> set (outstanding rt key) \<longleftrightarrow> (x, key) \<in> set (finallyHooks rt) \<and> x \<notin> set (settled rt)"
  by (force simp: outstanding_def)

lemma outstanding_at_most_one:
  assumes inv: "coalescing_inv rt"
  shows "length (outstanding rt key) \<le> 1"
proof (cases "map_of (pendingRequests (dataCache rt)) key")
  case None
  have "x \<notin> set (outstanding rt key)" for x
    using coalescing_inv_pending [OF inv, of x key] None by (auto simp: outstanding_iff)
  then have "outstanding rt key = []" by (cases "outstanding rt key") auto
  then show ?thesis by simp
next
  case (Some p0)
  have dist: "distinct (outstanding rt key)"
    using coalescing_inv_distinct [OF inv] unfolding outstanding_def
    by (simp add: distinct_map_filter)
  have "x = p0" if "x \<in> set (outstanding rt key)" for x
    using coalescing_inv_pending [OF inv, of x key] that Some by (auto simp: outstanding_iff)
  with dist show ?thesis by (rule length_le_1_if_all_equal)
qed

lemma run_calls_existing:
  "map_of (pendingRequests (dataCache rt)) key = Some p \<Longrightarrow>
   run rt (map (Call key) outcomes) = rt"
  by (induction outcomes) (simp_all add: getOrCreate_existing)

lemma registered_after_new:
  assumes "map_of (pendingRequests (dataCache rt)) key = None"
  shows "map_of (pendingRequests (dataCache (snd (getOrCreatePendingRequest rt key Returns)))) key
           = Some (nextPromise rt)"
  by (simp add: getOrCreate_new [OF assms] setPending_def update_conv')

lemma run_calls_new:
  assumes "map_of (pendingRequests (dataCache rt)) key = None"
  shows "run rt (Call key Returns # map (Call key) outcomes)
           = snd (getOrCreatePendingRequest rt key Returns)"
  using run_calls_existing [OF registered_after_new [OF assms]] by simp

lemma overlapping_calls_return:
  assumes "map_of (pendingRequests (dataCache rt)) key = None"
  shows "fst (getOrCreatePendingRequest (run rt (Call key Returns # map (Call key) outcomes))
                key createPromise) = nextPromise rt"
  by (simp only: run_calls_new [OF assms] getOrCreate_existing [OF registered_after_new [OF assms]]
        fst_conv)

lemma settle_clears_new:
  assumes inv: "numbering_inv rt" and none: "map_of (pendingRequests (dataCache rt)) key = None"
  shows "map_of (pendingRequests
           (dataCache (settle (snd (getOrCreatePendingRequest rt key Returns)) (nextPromise rt)))) key
         = None"
proof -
  from inv have fresh: "nextPromise rt \<notin> fst ` set (finallyHooks rt)"
    and unsettled: "nextPromise rt \<notin> set (settled rt)"
    unfolding numbering_inv_def by blast+
  from fresh have "map_of (finallyHooks rt) (nextPromise rt) = None"
    by (simp add: map_of_eq_None_iff)
  then have "map_of (finallyHooks rt @ [(nextPromise rt, key)]) (nextPromise rt) = Some key"
    by (simp add: map_add_def)
  with unsettled show ?thesis
    by (simp add: getOrCreate_new [OF none] settle_def clearPending_def delete_conv')
qed

text \<open>
  While the promise registered for a key does not settle, calls and settlements leave
  it registered and do not invoke the factory for that key.
\<close>

lemma stays_registered:
  assumes "coalescing_inv r" "map_of (pendingRequests (dataCache r)) key = Some p0"
    and "list_all callOrSettle es" "Settle p0 \<notin> set es"
  shows "map_of (pendingRequests (dataCache (run r es))) key = Some p0 \<and>
         filter (\<lambda>k. k = key) (factoryCalls (run r es)) = filter (\<lambda>k. k = key) (factoryCalls r)"
  using assms
proof (induction es arbitrary: r)
  case Nil
  then show ?case by simp
next
  case (Cons e es)
  have step: "coalescing_inv (step r e) \<and>
      map_of (pendingRequests (dataCache (step r e))) key = Some p0 \<and>
      filter (\<lambda>k. k = key) (factoryCalls (step r e)) = filter (\<lambda>k. k = key) (factoryCalls r)"
  proof (cases e)
    case (Call k createPromise)
    have inv: "coalescing_inv (step r e)"
      unfolding Call using Cons.prems(1) by (simp add: coalescing_inv_call)
    show ?thesis
    proof (cases "map_of (pendingRequests (dataCache r)) k")
      case (Some q)
      then have "step r e = r" by (simp add: Call getOrCreate_existing)
      with Cons.prems show ?thesis by simp
    next
      case None
      with Cons.prems(2) have k: "k \<noteq> key" by auto
      have "map_of (pendingRequests (dataCache (step r e))) key = Some p0 \<and>
        filter (\<lambda>k. k = key) (factoryCalls (step r e)) = filter (\<lambda>k. k = key) (factoryCalls r)"
        using k Cons.prems(2)
        by (cases createPromise)
           (simp_all add: Call getOrCreate_new [OF None] getOrCreate_throws [OF None]
              setPending_def update_conv')
      with inv show ?thesis by simp
    qed
  next
    case (Settle q)
    with Cons.prems(4) have q: "q \<noteq> p0" by auto
    have inv: "coalescing_inv (step r e)"
      unfolding Settle using Cons.prems(1) by (simp add: coalescing_inv_settle)
    have calls: "factoryCalls (settle r q) = factoryCalls r"
      by (simp add: settle_def split: option.splits)
    have "map_of (pendingRequests (dataCache (settle r q))) key = Some p0"
    proof (cases "q \<in> set (settled r) \<or> nextPromise r \<le> q")
      case True
      with Cons.prems(2) show ?thesis by (simp add: settle_def)
    next
      case False
      show ?thesis
      proof (cases "map_of (finallyHooks r) q")
        case None
        with False Cons.prems(2) show ?thesis by (simp add: settle_def)
      next
        case (Some k)
        then have hook: "(q, k) \<in> set (finallyHooks r)" by (rule map_of_SomeD)
        have "k \<noteq> key"
        proof
          assume "k = key"
          with hook False coalescing_inv_pending [OF Cons.prems(1), of q key]
          have "map_of (pendingRequests (dataCache r)) key = Some q" by simp
          with Cons.prems(2) q show False by simp
        qed
        with False Some Cons.prems(2) show ?thesis
          by (simp add: settle_def clearPending_def delete_conv')
      qed
    qed
    with inv calls show ?thesis by (simp add: Settle)
  next
    case ClearAll
    with Cons.prems(3) show ?thesis by simp
  next
    case (ClearPending k)
    with Cons.prems(3) show ?thesis by simp
  next
    case (SetPending k)
    with Cons.prems(3) show ?thesis by simp
  qed
  from Cons.prems have rest: "list_all callOrSettle es" "Settle p0 \<notin> set es" by simp_all
  from Cons.IH [of "step r e"] step rest show ?case by simp
qed

text \<open>
  Claim C6, as amended. In every state \<open>rt\<close> that a run leads to:
  \<^item> if a pending request \<open>p\<close> is registered for \<open>key\<close>, the call returns \<open>p\<close> and
    changes nothing: the factory is not invoked;
  \<^item> otherwise the call invokes the factory once (one new entry \<open>key\<close> in
    \<open>factoryCalls\<close>). If the factory returns a promise, the call returns it and
    registers it, and when that promise settles next, the registration is gone. If the
    factory throws, the call returns a promise that is rejected already and registers
    nothing;
  \<^item> so of any number of calls for \<open>key\<close> that follow one another before the promise
    of the first settles, each returns that same promise, and together they invoke the
    factory exactly once.

  As long as the run consists of calls and settlements, at most one fetch for \<open>key\<close> is
  under way, and the calls for \<open>key\<close> need not follow one another: through calls for
  any keys and settlements of other promises the promise stays registered and the
  factory is not invoked for \<open>key\<close> again. Neither holds of every run: \<open>clearAll\<close>,
  \<open>clearPending\<close> and \<open>setPending\<close> take a registration away or replace it while its
  fetch is under way.
\<close>

theorem getOrCreatePendingRequest_coalesces:
  assumes reach: "rt = run newRuntime es"
  shows
  "(getPending (dataCache rt) key = Some p \<longrightarrow>
      getOrCreatePendingRequest rt key createPromise = (p, rt)) \<and>
   (getPending (dataCache rt) key = None \<longrightarrow>
      fst (getOrCreatePendingRequest rt key Returns) = nextPromise rt \<and>
      factoryCalls (snd (getOrCreatePendingRequest rt key Returns)) = factoryCalls rt @ [key] \<and>
      getPending (dataCache (snd (getOrCreatePendingRequest rt key Returns))) key
        = Some (nextPromise rt) \<and>
      getPending
        (dataCache (settle (snd (getOrCreatePendingRequest rt key Returns)) (nextPromise rt))) key
        = None \<and>
      (\<forall>outcomes. fst (getOrCreatePendingRequest
                 (run rt (Call key Returns # map (Call key) outcomes)) key createPromise)
               = nextPromise rt) \<and>
      (\<forall>outcomes. factoryCalls (run rt (Call key Returns # map (Call key) outcomes))
               = factoryCalls rt @ [key]) \<and>
      fst (getOrCreatePendingRequest rt key Throws) \<in>
        set (settled (snd (getOrCreatePendingRequest rt key Throws))) \<and>
      factoryCalls (snd (getOrCreatePendingRequest rt key Throws)) = factoryCalls rt @ [key] \<and>
      dataCache (snd (getOrCreatePendingRequest rt key Throws)) = dataCache rt) \<and>
   (list_all callOrSettle es \<longrightarrow> length (outstanding rt key) \<le> 1) \<and>
   (list_all callOrSettle es \<and> getPending (dataCache rt) key = None \<and>
    list_all callOrSettle es' \<and> Settle (nextPromise rt) \<notin> set es' \<longrightarrow>
      getPending (dataCache (run (snd (getOrCreatePendingRequest rt key Returns)) es')) key
        = Some (nextPromise rt) \<and>
      filter (\<lambda>k. k = key) (factoryCalls (run (snd (getOrCreatePendingRequest rt key Returns)) es'))
        = filter (\<lambda>k. k = key) (factoryCalls rt) @ [key])"
proof -
  have num: "numbering_inv rt"
    unfolding reach by (rule numbering_inv_run [OF numbering_inv_new])
  have existing: "getOrCreatePendingRequest rt key createPromise = (p, rt)"
    if "getPending (dataCache rt) key = Some p"
    using that by (simp add: getPending_def getOrCreate_existing)
  have new: "fst (getOrCreatePendingRequest rt key Returns) = nextPromise rt \<and>
      factoryCalls (snd (getOrCreatePendingRequest rt key Returns)) = factoryCalls rt @ [key] \<and>
      getPending (dataCache (snd (getOrCreatePendingRequest rt key Returns))) key
        = Some (nextPromise rt) \<and>
      getPending
        (dataCache (settle (snd (getOrCreatePendingRequest rt key Returns)) (nextPromise rt))) key
        = None \<and>
      (\<forall>outcomes. fst (getOrCreatePendingRequest
                 (run rt (Call key Returns # map (Call key) outcomes)) key createPromise)
               = nextPromise rt) \<and>
      (\<forall>outcomes. factoryCalls (run rt (Call key Returns # map (Call key) outcomes))
               = factoryCalls rt @ [key]) \<and>
      fst (getOrCreatePendingRequest rt key Throws) \<in>
        set (settled (snd (getOrCreatePendingRequest rt key Throws))) \<and>
      factoryCalls (snd (getOrCreatePendingRequest rt key Throws)) = factoryCalls rt @ [key] \<and>
      dataCache (snd (getOrCreatePendingRequest rt key Throws)) = dataCache rt"
    if "getPending (dataCache rt) key = None"
  proof -
    from that have none: "map_of (pendingRequests (dataCache rt)) key = None"
      by (simp add: getPending_def)
    have 1: "fst (getOrCreatePendingRequest rt key Returns) = nextPromise rt"
      and 2: "factoryCalls (snd (getOrCreatePendingRequest rt key Returns)) = factoryCalls rt @ [key]"
      and 3: "getPending (dataCache (snd (getOrCreatePendingRequest rt key Returns))) key
                = Some (nextPromise rt)"
      by (simp_all add: getOrCreate_new [OF none] getPending_def setPending_def update_conv')
    have 4: "getPending
        (dataCache (settle (snd (getOrCreatePendingRequest rt key Returns)) (nextPromise rt))) key
        = None"
      using settle_clears_new [OF num none] by (simp add: getPending_def)
    have 5: "\<forall>outcomes. fst (getOrCreatePendingRequest
                 (run rt (Call key Returns # map (Call key) outcomes)) key createPromise)
               = nextPromise rt"
      using overlapping_calls_return [OF none] by blast
    have 6: "\<forall>outcomes. factoryCalls (run rt (Call key Returns # map (Call key) outcomes))
               = factoryCalls rt @ [key]"
      using run_calls_new [OF none] 2 by simp
    have 7: "fst (getOrCreatePendingRequest rt key Throws) \<in>
        set (settled (snd (getOrCreatePendingRequest rt key Throws)))"
      and 8: "factoryCalls (snd (getOrCreatePendingRequest rt key Throws)) = factoryCalls rt @ [key]"
      and 9: "dataCache (snd (getOrCreatePendingRequest rt key Throws)) = dataCache rt"
      by (simp_all add: getOrCreate_throws [OF none])
    from 1 2 3 4 5 6 7 8 9 show ?thesis by blast
  qed
  have bound: "length (outstanding rt key) \<le> 1" if "list_all callOrSettle es"
  proof -
    have "coalescing_inv rt"
      unfolding reach using coalescing_inv_new that by (rule coalescing_inv_run)
    then show ?thesis by (rule outstanding_at_most_one)
  qed
  have later: "getPending (dataCache (run (snd (getOrCreatePendingRequest rt key Returns)) es')) key
        = Some (nextPromise rt) \<and>
      filter (\<lambda>k. k = key) (factoryCalls (run (snd (getOrCreatePendingRequest rt key Returns)) es'))
        = filter (\<lambda>k. k = key) (factoryCalls rt) @ [key]"
    if h: "list_all callOrSettle es \<and> getPending (dataCache rt) key = None \<and>
      list_all callOrSettle es' \<and> Settle (nextPromise rt) \<notin> set es'"
  proof -
    from h have none: "map_of (pendingRequests (dataCache rt)) key = None"
      by (simp add: getPending_def)
    have "coalescing_inv rt"
      unfolding reach using coalescing_inv_new h by (intro coalescing_inv_run) simp_all
    then have inv: "coalescing_inv (snd (getOrCreatePendingRequest rt key Returns))"
      by (rule coalescing_inv_call)
    have calls: "factoryCalls (snd (getOrCreatePendingRequest rt key Returns)) = factoryCalls rt @ [key]"
      by (simp add: getOrCreate_new [OF none])
    from stays_registered [OF inv registered_after_new [OF none], of es'] h
    show ?thesis by (simp add: getPending_def calls)
  qed
  from existing new bound later show ?thesis by blast
qed

text \<open>
  Ten calls for one key in a row invoke the factory once and return the promise 0,
  which is deregistered when it settles. After two calls, the settlement of the promise
  and a third call, the factory has been invoked twice and one fetch is under way. A
  call for another key and the settlement of its promise between two calls for the key
  leave the promise 0 registered and the factory invoked once for the key.
\<close>

theorem getOrCreatePendingRequest_coalesces_witness:
  "factoryCalls (run (newRuntime :: nat Runtime)
      (Call ''user:u1'' Returns # map (Call ''user:u1'') (replicate 9 Returns))) = [''user:u1''] \<and>
   fst (getOrCreatePendingRequest
          (run (newRuntime :: nat Runtime)
             (Call ''user:u1'' Returns # map (Call ''user:u1'') (replicate 8 Returns)))
          ''user:u1'' Returns) = 0 \<and>
   getPending (dataCache (snd (getOrCreatePendingRequest (newRuntime :: nat Runtime) ''user:u1'' Returns)))
     ''user:u1'' = Some 0 \<and>
   getPending
     (dataCache (settle (snd (getOrCreatePendingRequest (newRuntime :: nat Runtime) ''user:u1'' Returns)) 0))
     ''user:u1'' = None \<and>
   length (outstanding (newRuntime :: nat Runtime) ''user:u1'') \<le> 1 \<and>
   factoryCalls (run (newRuntime :: nat Runtime)
      [Call ''user:u1'' Returns, Call ''user:u1'' Returns, Settle 0, Call ''user:u1'' Returns])
     = [''user:u1'', ''user:u1''] \<and>
   outstanding (run (newRuntime :: nat Runtime)
      [Call ''user:u1'' Returns, Call ''user:u1'' Returns, Settle 0, Call ''user:u1'' Returns])
     ''user:u1'' = [1] \<and>
   length (outstanding (run (newRuntime :: nat Runtime)
      [Call ''user:u1'' Returns, Call ''user:u1'' Returns, Settle 0, Call ''user:u1'' Returns])
     ''user:u1'') \<le> 1 \<and>
   getPending (dataCache (run (snd (getOrCreatePendingRequest (newRuntime :: nat Runtime) ''user:u1'' Returns))
      [Call ''user:u2'' Returns, Call ''user:u1'' Returns, Settle 1, Call ''user:u1'' Throws]))
     ''user:u1'' = Some 0 \<and>
   filter (\<lambda>k. k = ''user:u1'')
     (factoryCalls (run (snd (getOrCreatePendingRequest (newRuntime :: nat Runtime) ''user:u1'' Returns))
        [Call ''user:u2'' Returns, Call ''user:u1'' Returns, Settle 1, Call ''user:u1'' Throws]))
     = [''user:u1'']"
proof -
  let ?rt = "newRuntime :: nat Runtime"
  let ?k = "''user:u1''"
  let ?es = "[Call ?k Returns, Call ?k Returns, Settle 0, Call ?k Returns]"
  have r: "?rt = run ?rt []" by simp
  have none: "getPending (dataCache ?rt) ?k = None"
    by (simp add: newRuntime_def newDataCache_def getPending_def)
  have np: "nextPromise ?rt = 0" and fc: "factoryCalls ?rt = []"
    by (simp_all add: newRuntime_def)
  from getOrCreatePendingRequest_coalesces [OF r, of ?k 0 Returns] none
  have a: "getPending (dataCache (snd (getOrCreatePendingRequest ?rt ?k Returns))) ?k
             = Some (nextPromise ?rt)"
    and b: "getPending (dataCache (settle (snd (getOrCreatePendingRequest ?rt ?k Returns))
              (nextPromise ?rt))) ?k = None"
    and c: "\<forall>outcomes. fst (getOrCreatePendingRequest
                 (run ?rt (Call ?k Returns # map (Call ?k) outcomes)) ?k Returns)
               = nextPromise ?rt"
    and d: "\<forall>outcomes. factoryCalls (run ?rt (Call ?k Returns # map (Call ?k) outcomes))
               = factoryCalls ?rt @ [?k]"
    and e: "length (outstanding ?rt ?k) \<le> 1"
    by simp_all
  from c have c9: "fst (getOrCreatePendingRequest
      (run ?rt (Call ?k Returns # map (Call ?k) (replicate 8 Returns))) ?k Returns) = nextPromise ?rt"
    by (rule spec)
  from d have d9: "factoryCalls (run ?rt (Call ?k Returns # map (Call ?k) (replicate 9 Returns)))
      = factoryCalls ?rt @ [?k]"
    by (rule spec)
  from getOrCreatePendingRequest_coalesces
    [OF refl, of ?es ?k 0 Returns, THEN conjunct2, THEN conjunct2, THEN conjunct1]
  have f: "length (outstanding (run ?rt ?es) ?k) \<le> 1" by simp
  let ?es' = "[Call ''user:u2'' Returns, Call ?k Returns, Settle 1, Call ?k Throws]"
  from getOrCreatePendingRequest_coalesces
    [OF r, where key = ?k and es' = ?es', THEN conjunct2, THEN conjunct2, THEN conjunct2] none
  have h: "getPending (dataCache (run (snd (getOrCreatePendingRequest ?rt ?k Returns)) ?es')) ?k
        = Some (nextPromise ?rt)"
    "filter (\<lambda>k. k = ?k) (factoryCalls (run (snd (getOrCreatePendingRequest ?rt ?k Returns)) ?es'))
        = filter (\<lambda>k. k = ?k) (factoryCalls ?rt) @ [?k]"
    by (simp_all add: np)
  have g: "factoryCalls (run ?rt ?es) = [?k, ?k]" "outstanding (run ?rt ?es) ?k = [1]"
    by (simp_all add: newRuntime_def newDataCache_def getOrCreatePendingRequest_def settle_def
          setPending_def clearPending_def outstanding_def Let_def)
  from a b c9 d9 e f g h show ?thesis by (simp add: np fc)
qed

text \<open>
  The claim as it was stated, at most one fetch under way for a key, fails of a run in
  which the registry is cleared: a call for a key, \<open>clearAll\<close> as a logout does it, and
  a second call for the key invoke the factory twice, and both fetches are under way.
\<close>

theorem getOrCreatePendingRequest_coalesces_counterexample:
  "factoryCalls (run (newRuntime :: nat Runtime)
      [Call ''user:u1'' Returns, ClearAll, Call ''user:u1'' Returns])
     = [''user:u1'', ''user:u1''] \<and>
   settled (run (newRuntime :: nat Runtime)
      [Call ''user:u1'' Returns, ClearAll, Call ''user:u1'' Returns]) = [] \<and>
   outstanding (run (newRuntime :: nat Runtime)
      [Call ''user:u1'' Returns, ClearAll, Call ''user:u1'' Returns]) ''user:u1'' = [0, 1]"
  by (simp add: newRuntime_def newDataCache_def getOrCreatePendingRequest_def clearAll_def
        setPending_def outstanding_def Let_def)

section \<open>The time-based leaderboard\<close>

subsection \<open>The counters\<close>

lemma countsInPeriod_window:
  "period \<in> {''daily'', ''weekly'', ''monthly''} \<Longrightarrow>
   countsInPeriod (timeThreshold period now) now = approvedInWindow period now"
  by (auto simp: fun_eq_iff countsInPeriod_def timeThreshold_def approvedInWindow_def
        windowLength_def)

lemma counted_step:
  assumes "ordinaryKey u"
  shows "(let initialised = (if falsy (readCount m u) then writeCount m u (Count 0) else m)
          in writeCount initialised u (increment (readCount initialised u)))
         = m(u \<mapsto> Count (Suc (total m u)))"
proof (cases "m u")
  case None
  with assms show ?thesis
    by (simp add: readCount_def writeCount_def ordinaryKey_def total_def)
next
  case (Some c)
  show ?thesis
  proof (cases c)
    case (Count n)
    with Some assms show ?thesis
      by (cases n) (simp_all add: readCount_def writeCount_def ordinaryKey_def total_def)
  next
    case NaNCount
    with Some assms show ?thesis
      by (simp add: readCount_def writeCount_def ordinaryKey_def total_def)
  qed
qed

lemma countUserWorks_other: "v \<noteq> u \<Longrightarrow> countUserWorks th now u ws m v = m v"
  by (induction ws arbitrary: m) (auto simp: writeCount_def Let_def)

lemma countUserWorks_same:
  assumes "ordinaryKey u"
  shows "total (countUserWorks th now u ws m) u
           = total m u + length (filter (countsInPeriod th now) (map snd ws)) \<and>
         (m u \<noteq> Some NaNCount \<longrightarrow> countUserWorks th now u ws m u \<noteq> Some NaNCount)"
proof (induction ws arbitrary: m)
  case Nil
  then show ?case by simp
next
  case (Cons a ws)
  obtain workId work where a: "a = (workId, work)" by (cases a)
  show ?case
  proof (cases "countsInPeriod th now work")
    case True
    have step: "countUserWorks th now u (a # ws) m
        = countUserWorks th now u ws (m(u \<mapsto> Count (Suc (total m u))))"
      unfolding a using True counted_step [OF assms, of m] by simp
    let ?m = "m(u \<mapsto> Count (Suc (total m u)))"
    have t: "total ?m u = Suc (total m u)" and n: "?m u \<noteq> Some NaNCount"
      by (simp_all add: total_def)
    from Cons.IH [of ?m]
    have 1: "total (countUserWorks th now u ws ?m) u
        = total ?m u + length (filter (countsInPeriod th now) (map snd ws))"
      and 2: "?m u \<noteq> Some NaNCount \<longrightarrow> countUserWorks th now u ws ?m u \<noteq> Some NaNCount"
      by blast+
    have len: "length (filter (countsInPeriod th now) (map snd (a # ws)))
        = Suc (length (filter (countsInPeriod th now) (map snd ws)))"
      using True by (simp add: a)
    from 2 n have 3: "countUserWorks th now u ws ?m u \<noteq> Some NaNCount" by blast
    show ?thesis unfolding step len 1 t using 3 by simp
  next
    case False
    with Cons.IH [of m] show ?thesis by (simp add: a)
  qed
qed

lemma total_countUserWorks:
  assumes "ordinaryKey v"
  shows "total (countUserWorks th now u ws m) v
           = total m v + (if v = u then length (filter (countsInPeriod th now) (map snd ws)) else 0)"
proof (cases "v = u")
  case True
  with assms countUserWorks_same [of u th now ws m] show ?thesis by simp
next
  case False
  then show ?thesis by (simp add: total_def countUserWorks_other)
qed

lemma numeric_countUserWorks:
  assumes "ordinaryKey v" "m v \<noteq> Some NaNCount"
  shows "countUserWorks th now u ws m v \<noteq> Some NaNCount"
proof (cases "v = u")
  case True
  with assms countUserWorks_same [of u th now ws m] show ?thesis by simp
next
  case False
  with assms(2) show ?thesis by (simp add: countUserWorks_other)
qed

lemma countAllWorks_ordinary:
  assumes "ordinaryKey v"
  shows "total (countAllWorks th now wd m) v
           = total m v + length (filter (countsInPeriod th now) (worksOf wd v)) \<and>
         (m v \<noteq> Some NaNCount \<longrightarrow> countAllWorks th now wd m v \<noteq> Some NaNCount)"
proof (induction wd arbitrary: m)
  case Nil
  then show ?case by (simp add: worksOf_def)
next
  case (Cons a wd)
  obtain u ws where a: "a = (u, ws)" by (cases a)
  have w: "worksOf (a # wd) v = (if u = v then map snd ws else []) @ worksOf wd v"
    by (simp add: worksOf_def a)
  from Cons.IH [of "countUserWorks th now u ws m"]
    total_countUserWorks [OF assms, of th now u ws m]
    numeric_countUserWorks [OF assms, of m th now u ws]
  show ?case unfolding w by (auto simp: a)
qed

lemma approvedWorksOf_ordinary:
  assumes "ordinaryKey uid" "period \<in> {''daily'', ''weekly'', ''monthly''}"
  shows "approvedWorksOf (countAllWorks (timeThreshold period now) now worksData Map.empty) uid
           = JNum (real (approvedInPeriod period now worksData uid))"
proof -
  let ?counts = "countAllWorks (timeThreshold period now) now worksData Map.empty"
  from countAllWorks_ordinary [OF assms(1), of "timeThreshold period now" now worksData Map.empty]
  have t: "total ?counts uid = approvedInPeriod period now worksData uid"
    and n: "?counts uid \<noteq> Some NaNCount"
    by (simp_all add: total_def approvedInPeriod_def countsInPeriod_window [OF assms(2)])
  have "approvedWorksOf ?counts uid = JNum (real (total ?counts uid))"
    using assms(1) n
    by (auto simp: approvedWorksOf_def readCount_def ordinaryKey_def total_def
             split: option.splits count.splits)
  then show ?thesis by (simp only: t)
qed

text \<open>
  Under the name of a method of \<open>Object.prototype\<close> the counter goes another way: the
  first work item that counts turns the inherited method into \<open>NaN\<close>, and the second
  starts from 0. A user called \<open>constructor\<close> with one work item that counts is not
  listed, and with three is listed with two.
\<close>

lemma upstream_constructor:
  "fetchTimeBasedLeaderboard_upstream ''daily'' 1700000100000 (Some usersCtor) (Some (worksCtor 1)) = [] \<and>
   map entry_approvedWorks
     (fetchTimeBasedLeaderboard_upstream ''daily'' 1700000100000 (Some usersCtor) (Some (worksCtor 3)))
     = [2]"
  by (simp add: fetchTimeBasedLeaderboard_upstream_def usersCtor_def worksCtor_def approvedWork_def
        newWork_def timeThreshold_def countsInPeriod_def entry_upstream_def approvedWorksOf_def
        readCount_def writeCount_def objectPrototypeMethods_def upt_conv_Cons Let_def)

subsection \<open>The sort\<close>

lemma set_js_insert: "set (js_insert cmp x ys) = insert x (set ys)"
  by (induction ys) auto

lemma set_js_sort: "set (js_sort cmp xs) = set xs"
  by (induction xs) (auto simp: set_js_insert)

lemma length_js_insert: "length (js_insert cmp x ys) = Suc (length ys)"
  by (induction ys) auto

lemma length_js_sort: "length (js_sort cmp xs) = length xs"
  by (induction xs) (auto simp: length_js_insert)

lemma mset_js_insert: "mset (js_insert cmp x ys) = add_mset x (mset ys)"
  by (induction ys) auto

lemma mset_js_sort: "mset (js_sort cmp xs) = mset xs"
  by (induction xs) (auto simp: mset_js_insert)

lemma sorted_js_insert:
  assumes tot: "\<And>a b. cmp a b \<le> 0 \<or> cmp b a \<le> 0"
    and trans: "\<And>a b c. cmp a b \<le> 0 \<Longrightarrow> cmp b c \<le> 0 \<Longrightarrow> cmp a c \<le> 0"
  shows "sorted_wrt (\<lambda>a b. cmp a b \<le> 0) ys \<Longrightarrow> sorted_wrt (\<lambda>a b. cmp a b \<le> 0) (js_insert cmp x ys)"
proof (induction ys)
  case Nil
  then show ?case by simp
next
  case (Cons y ys)
  show ?case
  proof (cases "cmp x y \<le> 0")
    case True
    with Cons.prems trans have "\<forall>z \<in> set ys. cmp x z \<le> 0" by auto
    with True Cons.prems show ?thesis by simp
  next
    case False
    with tot [of x y] have "cmp y x \<le> 0" by simp
    with False Cons show ?thesis by (auto simp: set_js_insert)
  qed
qed

lemma sorted_js_sort:
  assumes tot: "\<And>a b. cmp a b \<le> 0 \<or> cmp b a \<le> 0"
    and trans: "\<And>a b c. cmp a b \<le> 0 \<Longrightarrow> cmp b c \<le> 0 \<Longrightarrow> cmp a c \<le> 0"
  shows "sorted_wrt (\<lambda>a b. cmp a b \<le> 0) (js_sort cmp xs)"
  by (induction xs) (simp_all add: sorted_js_insert [OF tot trans])

text \<open>
  The sort by a comparator that compares a key is the stable sort by that key.
\<close>

lemma js_insert_insort_key:
  assumes "\<And>y. y \<in> set ys \<Longrightarrow> (cmp x y \<le> 0 \<longleftrightarrow> f x \<le> f y)"
  shows "js_insert cmp x ys = insort_key f x ys"
  using assms by (induction ys) auto

lemma js_sort_sort_key:
  fixes f :: "'a \<Rightarrow> 'k::linorder"
  assumes "\<And>x y. x \<in> set xs \<Longrightarrow> y \<in> set xs \<Longrightarrow> (cmp x y \<le> 0 \<longleftrightarrow> f x \<le> f y)"
  shows "js_sort cmp xs = sort_key f xs"
  using assms
proof (induction xs)
  case Nil
  then show ?case by simp
next
  case (Cons x xs)
  have IH: "js_sort cmp xs = sort_key f xs" using Cons by simp
  have "js_insert cmp x (sort_key f xs) = insort_key f x (sort_key f xs)"
    by (rule js_insert_insort_key) (use Cons.prems in simp)
  then show ?case by (simp add: IH)
qed

lemma insort_key_map: "insort_key f (g x) (map g ys) = map g (insort_key (\<lambda>y. f (g y)) x ys)"
  by (induction ys) auto

lemma sort_key_map: "sort_key f (map g xs) = map g (sort_key (\<lambda>y. f (g y)) xs)"
  by (induction xs) (simp_all add: insort_key_map)

subsection \<open>The ranks\<close>

lemma length_withRanks: "length (withRanks i xs) = length xs"
  by (induction xs arbitrary: i) auto

lemma nth_withRanks: "j < length xs \<Longrightarrow> withRanks i xs ! j = (xs ! j)\<lparr>rank := i + j + 1\<rparr>"
proof (induction xs arbitrary: i j)
  case Nil
  then show ?case by simp
next
  case (Cons x xs)
  then show ?case by (cases j) auto
qed

lemma map_withRanks:
  "(\<And>u r. f (u\<lparr>rank := r\<rparr>) = f u) \<Longrightarrow> map f (withRanks i xs) = map f xs"
  by (induction xs arbitrary: i) auto

lemma rank_withRanks: "j < length xs \<Longrightarrow> rank (withRanks 0 xs ! j) = j + 1"
  by (simp add: nth_withRanks)

lemma compare_upstream_le: "compare_upstream a b \<le> 0 \<longleftrightarrow> entry_approvedWorks b \<le> entry_approvedWorks a"
  by (simp add: compare_upstream_def)

lemma compare_users_le:
  "compare_users a b \<le> 0 \<longleftrightarrow>
     entry_approvedWorks b < entry_approvedWorks a \<or>
     (entry_approvedWorks a = entry_approvedWorks b \<and>
      orZero (entry_earnedMoney b) \<le> orZero (entry_earnedMoney a))"
  by (auto simp: compare_users_def)

subsection \<open>The first version\<close>

text \<open>
  The list of the first version, for users with ordinary identifiers: the users with
  a count above 0, in the stable order of descending counts, the first 50 of them,
  ranked.
\<close>

lemma upstream_list:
  assumes period: "period \<in> {''daily'', ''weekly'', ''monthly''}"
    and keys: "\<forall>uid \<in> fst ` set usersData. ordinaryKey uid"
    and E: "E = filter (\<lambda>user. 0 < approvedInPeriod period now worksData (fst user)) usersData"
    and S: "S = sort_key (\<lambda>user. - int (approvedInPeriod period now worksData (fst user))) E"
    and counts: "counts = countAllWorks (timeThreshold period now) now worksData Map.empty"
  shows "fetchTimeBasedLeaderboard_upstream period now (Some usersData) (Some worksData)
           = withRanks 0 (take 50 (map (entry_upstream counts) S))"
    and "\<forall>user \<in> set S. 0 < approvedInPeriod period now worksData (fst user) \<and>
           entry_uid (entry_upstream counts user) = fst user \<and>
           entry_approvedWorks (entry_upstream counts user)
             = real (approvedInPeriod period now worksData (fst user))"
proof -
  have aw: "approvedWorksOf counts (fst user) = JNum (real (approvedInPeriod period now worksData (fst user)))"
    if "user \<in> set usersData" for user
    unfolding counts using keys that period by (intro approvedWorksOf_ordinary) auto
  have filt: "filter (\<lambda>user. js_gt (approvedWorksOf counts (fst user)) 0) usersData = E"
    unfolding E by (rule filter_cong) (simp_all add: aw)
  have entry: "entry_uid (entry_upstream counts user) = fst user \<and>
           entry_approvedWorks (entry_upstream counts user)
             = real (approvedInPeriod period now worksData (fst user))"
    if "user \<in> set usersData" for user
    using aw [OF that] by (cases user) (simp add: entry_upstream_def)
  have inE: "user \<in> set usersData \<and> 0 < approvedInPeriod period now worksData (fst user)"
    if "user \<in> set E" for user
    using that by (simp add: E)
  have "js_sort compare_upstream (map (entry_upstream counts) E)
          = sort_key (\<lambda>e. - int (approvedInPeriod period now worksData (entry_uid e)))
              (map (entry_upstream counts) E)"
  proof (rule js_sort_sort_key)
    fix x y
    assume "x \<in> set (map (entry_upstream counts) E)" "y \<in> set (map (entry_upstream counts) E)"
    then obtain a b where "a \<in> set E" "x = entry_upstream counts a"
      "b \<in> set E" "y = entry_upstream counts b" by auto
    with inE entry show "(compare_upstream x y \<le> 0) =
      (- int (approvedInPeriod period now worksData (entry_uid x))
         \<le> - int (approvedInPeriod period now worksData (entry_uid y)))"
      by (simp add: compare_upstream_le)
  qed
  also have "\<dots> = map (entry_upstream counts)
      (sort_key (\<lambda>user. - int (approvedInPeriod period now worksData
                              (entry_uid (entry_upstream counts user)))) E)"
    by (rule sort_key_map)
  also have "sort_key (\<lambda>user. - int (approvedInPeriod period now worksData
                              (entry_uid (entry_upstream counts user)))) E = S"
  proof -
    have "(\<lambda>user. - int (approvedInPeriod period now worksData (entry_uid (entry_upstream counts user))))
        = (\<lambda>user. - int (approvedInPeriod period now worksData (fst user)))"
      by (rule ext) (simp add: entry_upstream_def split: prod.splits)
    then show ?thesis by (simp only: S)
  qed
  finally have sorted: "js_sort compare_upstream (map (entry_upstream counts) E)
      = map (entry_upstream counts) S" .
  show "fetchTimeBasedLeaderboard_upstream period now (Some usersData) (Some worksData)
           = withRanks 0 (take 50 (map (entry_upstream counts) S))"
    by (simp add: fetchTimeBasedLeaderboard_upstream_def Let_def counts [symmetric] filt sorted)
  show "\<forall>user \<in> set S. 0 < approvedInPeriod period now worksData (fst user) \<and>
           entry_uid (entry_upstream counts user) = fst user \<and>
           entry_approvedWorks (entry_upstream counts user)
             = real (approvedInPeriod period now worksData (fst user))"
    using inE entry by (simp add: S)
qed

subsection \<open>The second version\<close>

lemma users_list:
  assumes "timeframe \<in> {''daily'', ''weekly'', ''monthly''}"
  shows "fetchTimeBasedLeaderboard timeframe (Some usersData)
           = Inr (withRanks 0 (js_sort compare_users (map entry_of usersData)))"
  using assms by (auto simp: fetchTimeBasedLeaderboard_def)

lemma users_properties:
  assumes M: "M = withRanks 0 (js_sort compare_users (map entry_of usersData))"
  shows "length M = length usersData"
    and "mset (map (\<lambda>e. (entry_uid e, entry_approvedWorks e, entry_earnedMoney e)) M)
           = mset (map (\<lambda>user. (fst user,
                                  (case approvedWorks (snd user) of None \<Rightarrow> 0 | Some x \<Rightarrow> x),
                                  Some (case earnedMoney (snd user) of None \<Rightarrow> 0 | Some x \<Rightarrow> x)))
                    usersData)"
    and "sorted_wrt (\<lambda>a b. entry_approvedWorks b < entry_approvedWorks a \<or>
           (entry_approvedWorks a = entry_approvedWorks b \<and>
            (case entry_earnedMoney b of None \<Rightarrow> 0 | Some x \<Rightarrow> x)
              \<le> (case entry_earnedMoney a of None \<Rightarrow> 0 | Some x \<Rightarrow> x))) M"
    and "\<forall>i < length M. rank (M ! i) = i + 1"
proof -
  let ?S = "js_sort compare_users (map entry_of usersData)"
  let ?R = "\<lambda>a b. entry_approvedWorks b < entry_approvedWorks a \<or>
           (entry_approvedWorks a = entry_approvedWorks b \<and>
            (case entry_earnedMoney b of None \<Rightarrow> 0 | Some x \<Rightarrow> x)
              \<le> (case entry_earnedMoney a of None \<Rightarrow> (0::real) | Some x \<Rightarrow> x))"
  let ?p = "\<lambda>e. (entry_uid e, entry_approvedWorks e, entry_earnedMoney e)"
  show "length M = length usersData"
    by (simp add: M length_withRanks length_js_sort)
  have "map ?p M = map ?p ?S" unfolding M by (rule map_withRanks) simp
  then have "mset (map ?p M) = image_mset ?p (mset ?S)" by simp
  also have "\<dots> = image_mset ?p (mset (map entry_of usersData))" by (simp only: mset_js_sort)
  also have "\<dots> = mset (map ?p (map entry_of usersData))" by (simp only: mset_map)
  also have "map ?p (map entry_of usersData) = map (\<lambda>user. ?p (entry_of user)) usersData"
    by simp
  also have "(\<lambda>user. ?p (entry_of user))
      = (\<lambda>user. (fst user,
                    (case approvedWorks (snd user) of None \<Rightarrow> 0 | Some x \<Rightarrow> x),
                    Some (case earnedMoney (snd user) of None \<Rightarrow> 0 | Some x \<Rightarrow> x)))"
    by (rule ext) (simp add: entry_of_def orZero_def split: prod.splits)
  finally show "mset (map ?p M)
           = mset (map (\<lambda>user. (fst user,
                                  (case approvedWorks (snd user) of None \<Rightarrow> 0 | Some x \<Rightarrow> x),
                                  Some (case earnedMoney (snd user) of None \<Rightarrow> 0 | Some x \<Rightarrow> x)))
                    usersData)" .
  have "sorted_wrt (\<lambda>a b. compare_users a b \<le> 0) ?S"
  proof (rule sorted_js_sort)
    show "compare_users a b \<le> 0 \<or> compare_users b a \<le> 0" for a b
      by (auto simp: compare_users_def)
    show "compare_users a c \<le> 0" if "compare_users a b \<le> 0" "compare_users b c \<le> 0" for a b c
      using that unfolding compare_users_le by linarith
  qed
  then have S: "sorted_wrt ?R ?S" by (simp only: compare_users_le orZero_def)
  show "sorted_wrt ?R M"
  proof -
    let ?f = "\<lambda>e. (entry_approvedWorks e, case entry_earnedMoney e of None \<Rightarrow> (0::real) | Some x \<Rightarrow> x)"
    let ?Q = "\<lambda>x y. fst y < fst x \<or> (fst x = fst y \<and> snd y \<le> (snd x :: real))"
    have eq: "map ?f M = map ?f ?S" unfolding M by (rule map_withRanks) simp
    have "sorted_wrt ?Q (map ?f ?S)" using S by (simp add: sorted_wrt_map)
    then have "sorted_wrt ?Q (map ?f M)" by (simp only: eq)
    then show ?thesis by (simp add: sorted_wrt_map)
  qed
  show "\<forall>i < length M. rank (M ! i) = i + 1"
    by (simp add: M length_withRanks rank_withRanks)
qed

subsection \<open>The two versions\<close>

lemma upstream_sorted:
  "sorted_wrt (\<ge>) (map entry_approvedWorks
     (fetchTimeBasedLeaderboard_upstream period now (Some usersData) (Some worksData)))"
proof -
  let ?counts = "countAllWorks (timeThreshold period now) now worksData Map.empty"
  let ?base = "map (entry_upstream ?counts)
                 (filter (\<lambda>user. js_gt (approvedWorksOf ?counts (fst user)) 0) usersData)"
  let ?S = "js_sort compare_upstream ?base"
  let ?L = "fetchTimeBasedLeaderboard_upstream period now (Some usersData) (Some worksData)"
  have L: "?L = withRanks 0 (take 50 ?S)"
    by (simp add: fetchTimeBasedLeaderboard_upstream_def Let_def)
  have "sorted_wrt (\<lambda>a b. compare_upstream a b \<le> 0) ?S"
    by (rule sorted_js_sort) (auto simp: compare_upstream_le)
  then have "sorted_wrt (\<lambda>a b. entry_approvedWorks a \<ge> entry_approvedWorks b) (take 50 ?S)"
    by (simp only: compare_upstream_le sorted_wrt_take)
  then have "sorted_wrt (\<ge>) (map entry_approvedWorks (take 50 ?S))"
    by (simp only: sorted_wrt_map)
  moreover have "map entry_approvedWorks ?L = map entry_approvedWorks (take 50 ?S)"
    unfolding L by (rule map_withRanks) simp
  ultimately show ?thesis by simp
qed

text \<open>
  Claim C9, as amended. The two versions of \<open>fetchTimeBasedLeaderboard\<close> divide the
  claimed properties between them. Let the period be \<open>daily\<close>, \<open>weekly\<close> or \<open>monthly\<close>.

  The first version (\<open>_upstream\<close>), on users whose identifiers are not names of
  properties of \<open>Object.prototype\<close>: the count of a user is the number of the user's
  work items with status \<open>approved\<close> and \<open>submittedAt\<close> later than \<open>now\<close> less 24 hours,
  7 days or 30 days and no later than \<open>now\<close> plus 60 seconds. The list \<open>L\<close> consists of
  the users \<open>E\<close> of the \<open>users\<close> snapshot with a count above 0, sorted by the count in
  descending order with users of equal count in the order of the snapshot, cut to the
  first 50. So \<open>L\<close> has \<open>min 50 (length E)\<close> entries; the i-th entry has rank i and
  carries the count of its user; the counts descend; and when there are at most 50 such
  users, \<open>L\<close> lists each of them once and, for each count, the users of that count in
  the order of the snapshot. Earned money plays no part.

  The second version reads no work items. It lists every user of the \<open>users\<close>
  snapshot once, with the \<open>approvedWorks\<close> and \<open>earnedMoney\<close> counters of the profile
  (0 when missing), sorted by approved works in descending order and by earned money in
  descending order among equals; the list is not cut, and the i-th entry has rank i.
\<close>

theorem fetchTimeBasedLeaderboard_versions:
  assumes period: "period \<in> {''daily'', ''weekly'', ''monthly''}"
    and keys: "\<forall>uid \<in> fst ` set usersData. ordinaryKey uid"
    and E: "E = filter (\<lambda>user. 0 < approvedInPeriod period now worksData (fst user)) usersData"
    and L: "L = fetchTimeBasedLeaderboard_upstream period now (Some usersData) (Some worksData)"
  shows
  "map entry_uid L
     = take 50 (map fst (sort_key (\<lambda>user. - int (approvedInPeriod period now worksData (fst user))) E)) \<and>
   length L = min 50 (length E) \<and>
   (\<forall>i < length L.
      rank (L ! i) = i + 1 \<and>
      entry_approvedWorks (L ! i) = real (approvedInPeriod period now worksData (entry_uid (L ! i))) \<and>
      0 < approvedInPeriod period now worksData (entry_uid (L ! i))) \<and>
   sorted_wrt (\<ge>) (map entry_approvedWorks L) \<and>
   (length E \<le> 50 \<longrightarrow>
      mset (map entry_uid L) = mset (map fst E) \<and>
      (\<forall>k. filter (\<lambda>uid. approvedInPeriod period now worksData uid = k) (map entry_uid L)
             = filter (\<lambda>uid. approvedInPeriod period now worksData uid = k) (map fst E))) \<and>
   (\<exists>M. fetchTimeBasedLeaderboard period (Some usersData) = Inr M \<and>
        length M = length usersData \<and>
        mset (map (\<lambda>e. (entry_uid e, entry_approvedWorks e, entry_earnedMoney e)) M)
          = mset (map (\<lambda>user. (fst user,
                                 (case approvedWorks (snd user) of None \<Rightarrow> 0 | Some x \<Rightarrow> x),
                                 Some (case earnedMoney (snd user) of None \<Rightarrow> 0 | Some x \<Rightarrow> x)))
                   usersData) \<and>
        sorted_wrt (\<lambda>a b. entry_approvedWorks b < entry_approvedWorks a \<or>
           (entry_approvedWorks a = entry_approvedWorks b \<and>
            (case entry_earnedMoney b of None \<Rightarrow> 0 | Some x \<Rightarrow> x)
              \<le> (case entry_earnedMoney a of None \<Rightarrow> 0 | Some x \<Rightarrow> x))) M \<and>
        (\<forall>i < length M. rank (M ! i) = i + 1))"
proof -
  let ?cnt = "\<lambda>uid. approvedInPeriod period now worksData uid"
  let ?f = "\<lambda>user. - int (?cnt (fst user))"
  define S where "S = sort_key ?f E"
  define counts where "counts = countAllWorks (timeThreshold period now) now worksData Map.empty"
  define T where "T = take 50 (map (entry_upstream counts) S)"
  note list = upstream_list [OF period keys E S_def counts_def]
  have LT: "L = withRanks 0 T" unfolding L T_def by (rule list(1))
  have inS: "0 < ?cnt (fst user) \<and> entry_uid (entry_upstream counts user) = fst user \<and>
             entry_approvedWorks (entry_upstream counts user) = real (?cnt (fst user))"
    if "user \<in> set S" for user
    using list(2) that by blast
  have lenS: "length S = length E" by (simp add: S_def)
  have lenT: "length T = min 50 (length E)" by (simp add: T_def lenS min.commute)
  have uidT: "map entry_uid T = take 50 (map fst S)"
  proof -
    have "map entry_uid (map (entry_upstream counts) S) = map fst S"
      using inS by (simp add: comp_def)
    then show ?thesis by (simp add: T_def take_map [symmetric] del: map_map)
  qed
  have 1: "map entry_uid L = take 50 (map fst (sort_key ?f E))"
  proof -
    have "map entry_uid L = map entry_uid T" unfolding LT by (rule map_withRanks) simp
    then show ?thesis by (simp only: uidT S_def)
  qed
  have 2: "length L = min 50 (length E)" by (simp add: LT length_withRanks lenT)
  have 3: "\<forall>i < length L.
      rank (L ! i) = i + 1 \<and>
      entry_approvedWorks (L ! i) = real (?cnt (entry_uid (L ! i))) \<and>
      0 < ?cnt (entry_uid (L ! i))"
  proof (intro allI impI)
    fix i assume "i < length L"
    then have i: "i < length T" by (simp add: LT length_withRanks)
    then have iS: "i < length S" "i < 50" by (simp_all add: T_def)
    have Ti: "T ! i = entry_upstream counts (S ! i)" using iS by (simp add: T_def)
    have Li: "L ! i = (T ! i)\<lparr>rank := i + 1\<rparr>" using i by (simp add: LT nth_withRanks)
    from inS [of "S ! i"] iS(1) show "rank (L ! i) = i + 1 \<and>
      entry_approvedWorks (L ! i) = real (?cnt (entry_uid (L ! i))) \<and>
      0 < ?cnt (entry_uid (L ! i))"
      by (simp add: Li Ti)
  qed
  have 4: "sorted_wrt (\<ge>) (map entry_approvedWorks L)"
    unfolding L by (rule upstream_sorted)
  have 5: "mset (map entry_uid L) = mset (map fst E) \<and>
      (\<forall>k. filter (\<lambda>uid. ?cnt uid = k) (map entry_uid L) = filter (\<lambda>uid. ?cnt uid = k) (map fst E))"
    if short: "length E \<le> 50"
  proof -
    have all: "map entry_uid L = map fst S"
      using short by (simp add: 1 S_def)
    have m: "mset (map entry_uid L) = mset (map fst E)"
      unfolding all S_def by simp
    have st: "filter (\<lambda>uid. ?cnt uid = k) (map entry_uid L) = filter (\<lambda>uid. ?cnt uid = k) (map fst E)"
      for k
    proof -
      have eq: "(\<lambda>user. ?cnt (fst user) = k) = (\<lambda>user. ?f user = - int k)" by (rule ext) auto
      have "filter (\<lambda>user. ?cnt (fst user) = k) S = filter (\<lambda>user. ?cnt (fst user) = k) E"
        unfolding eq S_def by (rule sort_key_stable)
      then show ?thesis by (simp add: all filter_map comp_def)
    qed
    from m st show ?thesis by blast
  qed
  define M where "M = withRanks 0 (js_sort compare_users (map entry_of usersData))"
  note users = users_properties [OF M_def]
  have 6: "\<exists>M. fetchTimeBasedLeaderboard period (Some usersData) = Inr M \<and>
        length M = length usersData \<and>
        mset (map (\<lambda>e. (entry_uid e, entry_approvedWorks e, entry_earnedMoney e)) M)
          = mset (map (\<lambda>user. (fst user,
                                 (case approvedWorks (snd user) of None \<Rightarrow> 0 | Some x \<Rightarrow> x),
                                 Some (case earnedMoney (snd user) of None \<Rightarrow> 0 | Some x \<Rightarrow> x)))
                   usersData) \<and>
        sorted_wrt (\<lambda>a b. entry_approvedWorks b < entry_approvedWorks a \<or>
           (entry_approvedWorks a = entry_approvedWorks b \<and>
            (case entry_earnedMoney b of None \<Rightarrow> 0 | Some x \<Rightarrow> x)
              \<le> (case entry_earnedMoney a of None \<Rightarrow> 0 | Some x \<Rightarrow> x))) M \<and>
        (\<forall>i < length M. rank (M ! i) = i + 1)"
    apply (rule exI [of _ M])
    apply (intro conjI)
        apply (simp only: M_def users_list [OF period])
       apply (rule users(1))
      apply (rule users(2))
     apply (rule users(3))
    apply (rule users(4))
    done
  show ?thesis
    apply (intro conjI)
         apply (rule 1)
        apply (rule 2)
       apply (rule 3)
      apply (rule 4)
     apply (rule impI)
     apply (erule 5)
    apply (rule 6)
    done
qed

text \<open>
  The four users of \<open>usersABCD\<close>, seen at the clock reading 1700000100000. Within the
  last day Cy has two approved work items, Ann and Bob one each; Ann's pending item, her
  item of two days ago and her item dated two minutes ahead do not count, and Dee's
  rejected item does not count. The daily list is Cy, Ann, Bob with ranks 1, 2, 3: Ann
  stands before Bob as in the snapshot. Within the last week Ann's item of two days ago
  counts too, and the weekly list is Ann, Cy, Bob. The second version lists Bob, with
  99 earned, before Ann, with 10.
\<close>

lemma approvedInPeriod_ABCD:
  "map (approvedInPeriod ''daily'' 1700000100000 worksABCD) [''a'', ''b'', ''c'', ''d''] = [1, 1, 2, 0]"
  "map (approvedInPeriod ''weekly'' 1700000100000 worksABCD) [''a'', ''b'', ''c'', ''d''] = [2, 1, 2, 0]"
  by (simp_all add: approvedInPeriod_def worksOf_def worksABCD_def approvedWork_def newWork_def
        approvedInWindow_def windowLength_def)

lemma ordinary_ABCD: "\<forall>uid \<in> fst ` set usersABCD. ordinaryKey uid"
  by (simp add: usersABCD_def ordinaryKey_def objectPrototypeMethods_def)

lemma users_AB:
  "fetchTimeBasedLeaderboard ''daily'' (Some usersAB)
     = Inr [(entry_of (''b'', userB))\<lparr>rank := 1\<rparr>, (entry_of (''a'', userA))\<lparr>rank := 2\<rparr>]"
  by (simp add: fetchTimeBasedLeaderboard_def usersAB_def entry_of_def compare_users_def
        userA_def userB_def orZero_def)

theorem fetchTimeBasedLeaderboard_versions_witness:
  "map entry_uid (fetchTimeBasedLeaderboard_upstream ''daily'' 1700000100000 (Some usersABCD) (Some worksABCD))
     = [''c'', ''a'', ''b''] \<and>
   length (fetchTimeBasedLeaderboard_upstream ''daily'' 1700000100000 (Some usersABCD) (Some worksABCD)) = 3 \<and>
   map rank (fetchTimeBasedLeaderboard_upstream ''daily'' 1700000100000 (Some usersABCD) (Some worksABCD))
     = [1, 2, 3] \<and>
   map entry_approvedWorks
     (fetchTimeBasedLeaderboard_upstream ''daily'' 1700000100000 (Some usersABCD) (Some worksABCD))
     = [2, 1, 1] \<and>
   map entry_uid (fetchTimeBasedLeaderboard_upstream ''weekly'' 1700000100000 (Some usersABCD) (Some worksABCD))
     = [''a'', ''c'', ''b''] \<and>
   fetchTimeBasedLeaderboard ''daily'' (Some usersAB)
     = Inr [(entry_of (''b'', userB))\<lparr>rank := 1\<rparr>, (entry_of (''a'', userA))\<lparr>rank := 2\<rparr>]"
proof -
  let ?L = "fetchTimeBasedLeaderboard_upstream ''daily'' 1700000100000 (Some usersABCD) (Some worksABCD)"
  let ?W = "fetchTimeBasedLeaderboard_upstream ''weekly'' 1700000100000 (Some usersABCD) (Some worksABCD)"
  have cnt: "approvedInPeriod ''daily'' 1700000100000 worksABCD ''a'' = 1"
    "approvedInPeriod ''daily'' 1700000100000 worksABCD ''b'' = 1"
    "approvedInPeriod ''daily'' 1700000100000 worksABCD ''c'' = 2"
    "approvedInPeriod ''daily'' 1700000100000 worksABCD ''d'' = 0"
    "approvedInPeriod ''weekly'' 1700000100000 worksABCD ''a'' = 2"
    "approvedInPeriod ''weekly'' 1700000100000 worksABCD ''b'' = 1"
    "approvedInPeriod ''weekly'' 1700000100000 worksABCD ''c'' = 2"
    "approvedInPeriod ''weekly'' 1700000100000 worksABCD ''d'' = 0"
    using approvedInPeriod_ABCD by simp_all
  note d = fetchTimeBasedLeaderboard_versions
    [where period = "''daily''" and now = 1700000100000 and usersData = usersABCD
       and worksData = worksABCD, OF _ ordinary_ABCD refl refl]
  note w = fetchTimeBasedLeaderboard_versions
    [where period = "''weekly''" and now = 1700000100000 and usersData = usersABCD
       and worksData = worksABCD, OF _ ordinary_ABCD refl refl]
  have uid: "map entry_uid ?L = [''c'', ''a'', ''b'']"
    using d [THEN conjunct1] by (simp add: usersABCD_def cnt)
  have len: "length ?L = 3"
    using d [THEN conjunct2, THEN conjunct1] by (simp add: usersABCD_def cnt)
  have each: "\<forall>i < length ?L. rank (?L ! i) = i + 1 \<and>
      entry_approvedWorks (?L ! i)
        = real (approvedInPeriod ''daily'' 1700000100000 worksABCD (entry_uid (?L ! i))) \<and>
      0 < approvedInPeriod ''daily'' 1700000100000 worksABCD (entry_uid (?L ! i))"
    using d [THEN conjunct2, THEN conjunct2, THEN conjunct1] by simp
  obtain x y z where xyz: "?L = [x, y, z]"
    using len by (auto simp: length_Suc_conv numeral_3_eq_3)
  from uid have ids: "entry_uid x = ''c''" "entry_uid y = ''a''" "entry_uid z = ''b''"
    by (simp_all add: xyz)
  from each have "rank (?L ! 0) = 1 \<and> rank (?L ! 1) = 2 \<and> rank (?L ! 2) = 3 \<and>
      entry_approvedWorks (?L ! 0)
        = real (approvedInPeriod ''daily'' 1700000100000 worksABCD (entry_uid (?L ! 0))) \<and>
      entry_approvedWorks (?L ! 1)
        = real (approvedInPeriod ''daily'' 1700000100000 worksABCD (entry_uid (?L ! 1))) \<and>
      entry_approvedWorks (?L ! 2)
        = real (approvedInPeriod ''daily'' 1700000100000 worksABCD (entry_uid (?L ! 2)))"
    by (simp add: len)
  then have ranks: "map rank ?L = [1, 2, 3]" and works: "map entry_approvedWorks ?L = [2, 1, 1]"
    by (simp_all add: xyz ids cnt)
  have weekly: "map entry_uid ?W = [''a'', ''c'', ''b'']"
    using w [THEN conjunct1] by (simp add: usersABCD_def cnt)
  from uid len ranks works weekly users_AB show ?thesis by simp
qed

text \<open>
  The claim as it was stated holds of neither version. In the first, two users with
  one counted work item each stand in the order of the snapshot, the one with earned
  money 10 before the one with 99. In the second, 51 users give a list of 51 entries.
\<close>

lemma upstream_AB:
  "map entry_uid (fetchTimeBasedLeaderboard_upstream ''daily'' 1700000100000 (Some usersAB) (Some worksAB))
     = [''a'', ''b''] \<and>
   map entry_approvedWorks
     (fetchTimeBasedLeaderboard_upstream ''daily'' 1700000100000 (Some usersAB) (Some worksAB)) = [1, 1]"
  by (simp add: fetchTimeBasedLeaderboard_upstream_def usersAB_def worksAB_def approvedWork_def
        newWork_def timeThreshold_def countsInPeriod_def entry_upstream_def compare_upstream_def
        approvedWorksOf_def readCount_def writeCount_def objectPrototypeMethods_def Let_def)

theorem fetchTimeBasedLeaderboard_versions_counterexample:
  "map entry_uid (fetchTimeBasedLeaderboard_upstream ''daily'' 1700000100000 (Some usersAB) (Some worksAB))
     = [''a'', ''b''] \<and>
   map entry_approvedWorks
     (fetchTimeBasedLeaderboard_upstream ''daily'' 1700000100000 (Some usersAB) (Some worksAB)) = [1, 1] \<and>
   map (\<lambda>e. earnedMoney (snd e)) usersAB = [Some 10, Some 99] \<and>
   (case fetchTimeBasedLeaderboard ''daily'' (Some users51) of
      Inr M \<Rightarrow> length M = 51
    | Inl e \<Rightarrow> False)"
proof -
  have "fetchTimeBasedLeaderboard ''daily'' (Some users51)
      = Inr (withRanks 0 (js_sort compare_users (map entry_of users51)))"
    by (rule users_list) simp
  then have "(case fetchTimeBasedLeaderboard ''daily'' (Some users51) of
      Inr M \<Rightarrow> length M = 51 | Inl e \<Rightarrow> False)"
    by (simp add: length_withRanks length_js_sort users51_def)
  moreover have "map (\<lambda>e. earnedMoney (snd e)) usersAB = [Some 10, Some 99]"
    by (simp add: usersAB_def userA_def userB_def)
  ultimately show ?thesis using upstream_AB by blast
qed

end
